theory Spec2Isabelle
  imports Complex_Main "HOL-Library.Multiset" "HOL-Library.Monad_Syntax"
    "HOL-Library.Char_ord" "HOL-Library.List_Lexorder"
begin

section \<open>Conventions of the embedding\<close>

text \<open>
  The Go sources are embedded function by function. Everything a function receives from
  outside (the clock, a reply of the network, the random number generator, what the
  platform does where the language leaves it open) is an explicit argument, and
  everything it does to the outside (a network request, a goroutine it starts, a timer)
  is returned as a value. A run-time panic is the value \<open>None\<close>. A Go \<^verbatim>\<open>int\<close> that only
  counts or adds small numbers (the score, the round) is an integer of HOL.
\<close>

subsection \<open>Floating-point numbers\<close>

text \<open>
  A finite \<^verbatim>\<open>float64\<close> is the real number it stands for, and every arithmetic operation
  on \<^verbatim>\<open>float64\<close> gives the exact result rounded to the nearest \<^verbatim>\<open>float64\<close>, ties to the
  even significand, as IEEE 754 has it: \<open>round64\<close>. The numbers of one binade
  \<open>2\<^sup>k \<le> \<bar>x\<bar> < 2\<^sup>k\<^sup>+\<^sup>1\<close> are the multiples of \<open>2\<^sup>k\<^sup>-\<^sup>5\<^sup>2\<close>; below \<open>2\<^sup>-\<^sup>1\<^sup>0\<^sup>2\<^sup>2\<close> the
  spacing stays \<open>2\<^sup>-\<^sup>1\<^sup>0\<^sup>7\<^sup>4\<close>. The infinities and NaN are not values of the model: a
  result of magnitude \<open>2\<^sup>1\<^sup>0\<^sup>2\<^sup>4\<close> or more, which Go turns into an infinity, stays the
  large real number here, and it is converted to an integer as the platform pleases
  (see \<open>go_int\<close>). Go may fuse a multiplication with the addition that follows it;
  none of the expressions embedded with rounding has that form.
\<close>

definition pow2 :: "int \<Rightarrow> real" where
  "pow2 e = 2 powr real_of_int e"

definition exponent :: "real \<Rightarrow> int" where
  "exponent x = max (- 1022) \<lfloor>log 2 \<bar>x\<bar>\<rfloor>"

text \<open>The nearest integer, a tie going to the even one.\<close>

definition round_even :: "real \<Rightarrow> int" where
  "round_even q =
     (let f = \<lfloor>q\<rfloor>
      in if q - real_of_int f < 1 / 2 then f
         else if 1 / 2 < q - real_of_int f then f + 1
         else if even f then f else f + 1)"

definition round64 :: "real \<Rightarrow> real" where
  "round64 x =
     (if x = 0 then 0
      else real_of_int (round_even (x / pow2 (exponent x - 52))) * pow2 (exponent x - 52))"

text \<open>The real numbers that are a \<^verbatim>\<open>float64\<close> (with no bound on the size).\<close>

definition is_float64 :: "real \<Rightarrow> bool" where
  "is_float64 c \<longleftrightarrow> (\<exists>m e. c = real_of_int m * pow2 e \<and> \<bar>m\<bar> \<le> 2 ^ 53 \<and> - 1074 \<le> e)"

text \<open>The operations \<^verbatim>\<open>+\<close>, \<^verbatim>\<open>-\<close>, \<^verbatim>\<open>*\<close>, \<^verbatim>\<open>/\<close> on \<^verbatim>\<open>float64\<close>, and the conversion
  \<^verbatim>\<open>float64(i)\<close> of an integer.\<close>

definition fadd :: "real \<Rightarrow> real \<Rightarrow> real" where
  "fadd a b = round64 (a + b)"

definition fsub :: "real \<Rightarrow> real \<Rightarrow> real" where
  "fsub a b = round64 (a - b)"

definition fmul :: "real \<Rightarrow> real \<Rightarrow> real" where
  "fmul a b = round64 (a * b)"

definition fdiv :: "real \<Rightarrow> real \<Rightarrow> real" where
  "fdiv a b = round64 (a / b)"

definition float64_of_int :: "int \<Rightarrow> real" where
  "float64_of_int i = round64 (real_of_int i)"

text \<open>
  The conversion \<^verbatim>\<open>int(x)\<close> of a \<^verbatim>\<open>float64\<close> to the 64-bit \<^verbatim>\<open>int\<close>: the fraction is
  discarded, that is, the value is truncated toward zero. When the truncated value is
  not a 64-bit integer, Go leaves the result to the implementation; \<open>wild\<close> is what
  the platform gives then.
\<close>

definition toward_zero :: "real \<Rightarrow> int" where
  "toward_zero x = (if 0 \<le> x then \<lfloor>x\<rfloor> else \<lceil>x\<rceil>)"

definition fits_int64 :: "real \<Rightarrow> bool" where
  "fits_int64 x \<longleftrightarrow> - (2 ^ 63) \<le> toward_zero x \<and> toward_zero x < 2 ^ 63"

definition go_int :: "(real \<Rightarrow> int) \<Rightarrow> real \<Rightarrow> int" where
  "go_int wild x = (if fits_int64 x then toward_zero x else wild x)"

text \<open>The operators \<^verbatim>\<open>/\<close> and \<^verbatim>\<open>%\<close> on integers truncate toward zero as well.\<close>

definition go_quot :: "int \<Rightarrow> int \<Rightarrow> int" where
  "go_quot a b = sgn a * sgn b * (\<bar>a\<bar> div \<bar>b\<bar>)"

definition go_rem :: "int \<Rightarrow> int \<Rightarrow> int" where
  "go_rem a b = sgn a * (\<bar>a\<bar> mod \<bar>b\<bar>)"

subsection \<open>Decoded JSON\<close>

text \<open>
  What \<^verbatim>\<open>encoding/json\<close> stores into an \<^verbatim>\<open>interface{}\<close>: \<^verbatim>\<open>nil\<close>, \<^verbatim>\<open>bool\<close>,
  \<^verbatim>\<open>float64\<close>, \<^verbatim>\<open>string\<close>, \<^verbatim>\<open>[]interface{}\<close> and \<^verbatim>\<open>map[string]interface{}\<close>. A number
  is the \<^verbatim>\<open>float64\<close> it was decoded to. An object is an association list; its order
  stands for the order in which a \<^verbatim>\<open>range\<close> over the Go map happens to visit the keys.
\<close>

datatype json =
    JNull
  | JBool bool
  | JNum real
  | JStr string
  | JArr "json list"
  | JObj "(string \<times> json) list"

text \<open>The type assertions \<^verbatim>\<open>v.(float64)\<close>, \<^verbatim>\<open>v.(string)\<close>, \<^verbatim>\<open>v.(bool)\<close>; \<open>None\<close> when the
  dynamic type is another one (the one-result form panics, the two-result form reports
  \<^verbatim>\<open>ok == false\<close>).\<close>

fun as_float64 :: "json \<Rightarrow> real option" where
  "as_float64 (JNum x) = Some x"
| "as_float64 _ = None"

fun as_string :: "json \<Rightarrow> string option" where
  "as_string (JStr s) = Some s"
| "as_string _ = None"

fun as_bool :: "json \<Rightarrow> bool option" where
  "as_bool (JBool b) = Some b"
| "as_bool _ = None"

fun as_map :: "json \<Rightarrow> (string \<times> json) list option" where
  "as_map (JObj m) = Some m"
| "as_map _ = None"

fun as_slice :: "json \<Rightarrow> json list option" where
  "as_slice (JArr xs) = Some xs"
| "as_slice _ = None"

fun is_nil :: "json \<Rightarrow> bool" where
  "is_nil JNull = True"
| "is_nil _ = False"

text \<open>The index expression \<^verbatim>\<open>s[i]\<close> on a slice: out of range is a panic.\<close>

definition index :: "'a list \<Rightarrow> nat \<Rightarrow> 'a option" where
  "index s i = (if i < length s then Some (s ! i) else None)"

text \<open>The lookup \<^verbatim>\<open>m[k]\<close> on a \<^verbatim>\<open>map[string]interface{}\<close>: an absent key (and every key
  of a nil map) gives \<^verbatim>\<open>nil\<close>.\<close>

definition lookup :: "(string \<times> json) list \<Rightarrow> string \<Rightarrow> json" where
  "lookup m k = (case map_of m k of None \<Rightarrow> JNull | Some v \<Rightarrow> v)"

subsection \<open>Strings\<close>

text \<open>
  A Go string is its bytes, in UTF-8; the strings of the program come out of the JSON
  decoder and are valid UTF-8. White space, as \<^verbatim>\<open>unicode.IsSpace\<close> has it, is one of the
  bytes 09 to 0D and 20, of the two-byte runes U+0085 and U+00A0, and of the three-byte
  runes U+1680, U+2000 to U+200A, U+2028, U+2029, U+202F, U+205F and U+3000.
\<close>

definition isSpace1 :: "char \<Rightarrow> bool" where
  "isSpace1 a = (a \<in> set [CHR 0x09, CHR 0x0A, CHR 0x0B, CHR 0x0C, CHR 0x0D, CHR 0x20])"

definition isSpace2 :: "char \<Rightarrow> char \<Rightarrow> bool" where
  "isSpace2 a b = (a = CHR 0xC2 \<and> (b = CHR 0x85 \<or> b = CHR 0xA0))"

definition isSpace3 :: "char \<Rightarrow> char \<Rightarrow> char \<Rightarrow> bool" where
  "isSpace3 a b c =
     ((a = CHR 0xE1 \<and> b = CHR 0x9A \<and> c = CHR 0x80) \<or>
      (a = CHR 0xE2 \<and> b = CHR 0x80 \<and>
         c \<in> set [CHR 0x80, CHR 0x81, CHR 0x82, CHR 0x83, CHR 0x84, CHR 0x85, CHR 0x86,
                  CHR 0x87, CHR 0x88, CHR 0x89, CHR 0x8A, CHR 0xA8, CHR 0xA9, CHR 0xAF]) \<or>
      (a = CHR 0xE2 \<and> b = CHR 0x81 \<and> c = CHR 0x9F) \<or>
      (a = CHR 0xE3 \<and> b = CHR 0x80 \<and> c = CHR 0x80))"

text \<open>The white space at the head of a string is removed, rune by rune.\<close>

fun TrimLeft :: "string \<Rightarrow> string" where
  "TrimLeft (a # b # c # s) =
     (if isSpace1 a then TrimLeft (b # c # s)
      else if isSpace2 a b then TrimLeft (c # s)
      else if isSpace3 a b c then TrimLeft s
      else a # b # c # s)"
| "TrimLeft [a, b] =
     (if isSpace1 a then TrimLeft [b]
      else if isSpace2 a b then []
      else [a, b])"
| "TrimLeft [a] = (if isSpace1 a then [] else [a])"
| "TrimLeft [] = []"

text \<open>The same from the end, on the reversed string: the last byte comes first.\<close>

fun TrimLeft_reversed :: "string \<Rightarrow> string" where
  "TrimLeft_reversed (c # b # a # s) =
     (if isSpace1 c then TrimLeft_reversed (b # a # s)
      else if isSpace2 b c then TrimLeft_reversed (a # s)
      else if isSpace3 a b c then TrimLeft_reversed s
      else c # b # a # s)"
| "TrimLeft_reversed [c, b] =
     (if isSpace1 c then TrimLeft_reversed [b]
      else if isSpace2 b c then []
      else [c, b])"
| "TrimLeft_reversed [c] = (if isSpace1 c then [] else [c])"
| "TrimLeft_reversed [] = []"

text \<open>\<^verbatim>\<open>strings.TrimSpace\<close>: the white space at both ends is removed.\<close>

definition TrimSpace :: "string \<Rightarrow> string" where
  "TrimSpace s = rev (TrimLeft_reversed (rev (TrimLeft s)))"

fun HasPrefix :: "string \<Rightarrow> string \<Rightarrow> bool" where
  "HasPrefix s [] = True"
| "HasPrefix [] (p # ps) = False"
| "HasPrefix (c # cs) (p # ps) = (c = p \<and> HasPrefix cs ps)"

text \<open>\<^verbatim>\<open>strings.Contains(s, substr)\<close>.\<close>

fun Contains :: "string \<Rightarrow> string \<Rightarrow> bool" where
  "Contains [] sub = (sub = [])"
| "Contains (c # cs) sub = (HasPrefix (c # cs) sub \<or> Contains cs sub)"

subsection \<open>Time\<close>

text \<open>
  An instant (\<^verbatim>\<open>time.Time\<close>) is a number of nanoseconds counted from the zero value of
  \<^verbatim>\<open>time.Time\<close>; a \<^verbatim>\<open>time.Duration\<close> is a signed 64-bit number of nanoseconds.
  \<^verbatim>\<open>time.Since(t)\<close> is \<^verbatim>\<open>time.Now().Sub(t)\<close>, which saturates at the largest and the
  smallest duration; the reading of the clock is the first argument.
\<close>

definition Second :: int where
  "Second = 1000000000"

definition maxDuration :: int where
  "maxDuration = 2 ^ 63 - 1"

definition minDuration :: int where
  "minDuration = - (2 ^ 63)"

definition Since :: "int \<Rightarrow> int \<Rightarrow> int" where
  "Since now t = max minDuration (min maxDuration (now - t))"

text \<open>\<^verbatim>\<open>Duration.Seconds()\<close>: with \<^verbatim>\<open>sec := d / Second\<close> and \<^verbatim>\<open>nsec := d % Second\<close> it
  returns \<^verbatim>\<open>float64(sec) + float64(nsec)/1e9\<close>.\<close>

definition Seconds :: "int \<Rightarrow> real" where
  "Seconds d =
     fadd (float64_of_int (go_quot d Second))
          (fdiv (float64_of_int (go_rem d Second)) 1000000000)"

section \<open>Geo-projection\<close>

text \<open>
  The projection and its inverse are embedded over the real numbers, with the
  mathematical functions for \<^verbatim>\<open>math.Tan\<close>, \<^verbatim>\<open>math.Cos\<close>, \<^verbatim>\<open>math.Log\<close>, \<^verbatim>\<open>math.Exp\<close> and
  \<^verbatim>\<open>math.Atan\<close> and without the rounding of \<^verbatim>\<open>float64\<close>: what is stated of them below
  is the round trip over the reals.
\<close>

definition tileSize :: real where
  "tileSize = 256"

text \<open>\<^verbatim>\<open>math.Pow(2, float64(zoom))\<close> is \<open>2 powr zoom\<close>.\<close>

definition LatLonToPixels :: "real \<Rightarrow> real \<Rightarrow> int \<Rightarrow> real \<times> real" where
  "LatLonToPixels lat lon zoom =
     (let scale = 2 powr (real_of_int zoom);
          x = (lon + 180) / 360 * scale * tileSize;
          latRad = lat * pi / 180;
          y = (1 - ln (tan latRad + 1 / cos latRad) / pi) / 2 * scale * tileSize
      in (x, y))"

definition PixelsToLatLon :: "real \<Rightarrow> real \<Rightarrow> int \<Rightarrow> real \<times> real" where
  "PixelsToLatLon x y zoom =
     (let scale = 2 powr (real_of_int zoom);
          lon = (x / (scale * tileSize) * 360) - 180;
          n = pi - 2 * pi * y / (scale * tileSize);
          lat = 180 / pi * arctan (0.5 * (exp n - exp (- n)))
      in (lat, lon))"

section \<open>Snapshot cache\<close>

record Flight =
  Icao24 :: string
  Callsign :: string
  Lon :: real
  Lat :: real
  VelocityKts :: int
  Heading :: real
  AltitudeFt :: int
  OnGround :: bool
  Origin :: string
  Category :: string
  Destination :: string

definition cacheDuration :: int where
  "cacheDuration = 10 * Second"

definition categoryMap :: "int \<Rightarrow> string option" where
  "categoryMap = map_of
     [(0, ''No Info''), (1, ''No Info''), (2, ''Light''), (3, ''Small''),
      (4, ''Large''), (5, ''High Vortex''), (6, ''Heavy''), (7, ''High Perf''),
      (8, ''Rotorcraft''), (9, ''Glider''), (10, ''Lighter-than-air''),
      (11, ''Parachutist''), (12, ''Ultralight''), (13, ''Reserved''),
      (14, ''UAV''), (15, ''Space''), (16, ''Emergency''), (17, ''Service''),
      (18, ''Point Obstacle''), (19, ''Cluster''), (20, ''Line Obstacle'')]"

text \<open>
  The body of the loop of \<^verbatim>\<open>FetchFlights\<close> over \<^verbatim>\<open>result.States\<close>, for one record
  \<open>s\<close>; \<open>wild\<close> is what the platform makes of a conversion to \<^verbatim>\<open>int\<close> that is out of
  range. The constants \<^verbatim>\<open>3.28084\<close> and \<^verbatim>\<open>1.94384\<close> are the nearest \<^verbatim>\<open>float64\<close>. The
  result is \<open>None\<close> when the body panics (an index out of range or a failed
  type assertion), \<open>Some None\<close> when it reaches \<^verbatim>\<open>continue\<close>, and \<open>Some (Some f)\<close>
  when it appends the flight \<open>f\<close>. The steps are in the order of the source; in the
  composite literal the fields are evaluated in the order they are written.
\<close>

definition FetchFlights_body :: "(real \<Rightarrow> int) \<Rightarrow> json list \<Rightarrow> Flight option option" where
  "FetchFlights_body wild s = do {
     s5 \<leftarrow> index s 5;
     if is_nil s5 then Some None else do {
       s6 \<leftarrow> index s 6;
       if is_nil s6 then Some None else do {
         lon \<leftarrow> as_float64 s5;
         lat \<leftarrow> as_float64 s6;
         s1 \<leftarrow> index s 1;
         cs \<leftarrow> as_string s1;
         let callsign = (if TrimSpace cs = [] then ''N/A'' else TrimSpace cs);
         s7 \<leftarrow> index s 7;
         altM \<leftarrow> (if \<not> is_nil s7 then as_float64 s7 else Some 0);
         let altFt = go_int wild (fmul altM (round64 3.28084));
         s9 \<leftarrow> index s 9;
         velMs \<leftarrow> (if \<not> is_nil s9 then as_float64 s9 else Some 0);
         let velKts = go_int wild (fmul velMs (round64 1.94384));
         s10 \<leftarrow> index s 10;
         heading \<leftarrow> (if \<not> is_nil s10 then as_float64 s10 else Some 0);
         catStr \<leftarrow>
           (if length s > 17 \<and> \<not> is_nil (s ! 17) then do {
              c \<leftarrow> as_float64 (s ! 17);
              Some (case categoryMap (go_int wild c) of Some val \<Rightarrow> val | None \<Rightarrow> ''Unknown'')
            } else Some ''Unknown'');
         s0 \<leftarrow> index s 0;
         icao \<leftarrow> as_string s0;
         s8 \<leftarrow> index s 8;
         ground \<leftarrow> as_bool s8;
         s2 \<leftarrow> index s 2;
         origin \<leftarrow> as_string s2;
         Some (Some \<lparr>Icao24 = icao, Callsign = callsign, Lon = lon, Lat = lat,
                     VelocityKts = velKts, Heading = heading, AltitudeFt = altFt,
                     OnGround = ground, Origin = origin, Category = catStr,
                     Destination = []\<rparr>)
       }
     }
   }"

text \<open>The loop itself: \<open>flights\<close> is the slice built so far, a panic ends the call.\<close>

fun FetchFlights_loop ::
  "(real \<Rightarrow> int) \<Rightarrow> json list list \<Rightarrow> Flight list \<Rightarrow> Flight list option" where
  "FetchFlights_loop wild [] flights = Some flights"
| "FetchFlights_loop wild (s # ss) flights =
     (case FetchFlights_body wild s of
        None \<Rightarrow> None
      | Some None \<Rightarrow> FetchFlights_loop wild ss flights
      | Some (Some f) \<Rightarrow> FetchFlights_loop wild ss (flights @ [f]))"

subsection \<open>The client and its surroundings\<close>

text \<open>The fields of \<^verbatim>\<open>FlightClient\<close> that hold data. The \<^verbatim>\<open>http.Client\<close> is the
  network, an argument of the calls; the mutex is held for the whole of
  \<^verbatim>\<open>FetchFlights\<close>, so a call runs alone.\<close>

record FlightClient =
  cache :: "Flight list"
  lastFetch :: int
  token :: string
  clientID :: string
  clientSec :: string

text \<open>
  What the network gives back to one HTTP exchange: \<^verbatim>\<open>http.NewRequest\<close> fails, or
  \<^verbatim>\<open>httpClient.Do\<close> fails, or a response arrives with a status code and a body. The body
  cannot be read, or does not decode into the Go value the code decodes it into, or
  decodes to a value of type \<open>'a\<close>.
\<close>

datatype 'a body = ReadError | Undecodable | Decoded 'a

datatype 'a reply = RequestError | TransportError | Response int "'a body"

datatype error =
    ErrNewRequest
  | ErrTransport
  | ErrAuthFailed int
  | ErrRateLimit
  | ErrStatus int
  | ErrRead
  | ErrDecode

text \<open>The requests a call sends, in order: the token exchange (client id and secret) and
  the bounding-box query (\<^verbatim>\<open>lamin\<close>, \<^verbatim>\<open>lomin\<close>, \<^verbatim>\<open>lamax\<close>, \<^verbatim>\<open>lomax\<close>, and the bearer token,
  empty when the header is not set).\<close>

datatype request =
    TokenPost string string
  | StatesGet real real real real string

text \<open>The surroundings of one call of \<^verbatim>\<open>FetchFlights\<close>: the clock when the freshness
  of the cache is tested, the reply to the token exchange (its body decodes to the
  access token), the reply to the query (its body decodes to \<^verbatim>\<open>result.States\<close>), the
  clock when the new snapshot is stored, and what the platform makes of a conversion to
  \<^verbatim>\<open>int\<close> that is out of range.\<close>

record World =
  clock :: int
  authReply :: "string reply"
  statesReply :: "json list list reply"
  clockStored :: int
  outOfRange :: "real \<Rightarrow> int"

datatype fetched = Panicked | Returned "Flight list" "error option"

definition NewFlightClient :: "string \<Rightarrow> string \<Rightarrow> FlightClient" where
  "NewFlightClient cid sec =
     \<lparr>cache = [], lastFetch = 0, token = [], clientID = cid, clientSec = sec\<rparr>"

definition authenticate ::
  "string reply \<Rightarrow> FlightClient \<Rightarrow> error option \<times> FlightClient \<times> request list" where
  "authenticate r fc =
     (if clientID fc = [] \<or> clientSec fc = [] then (None, fc, [])
      else case r of
          RequestError \<Rightarrow> (Some ErrNewRequest, fc, [])
        | TransportError \<Rightarrow> (Some ErrTransport, fc, [TokenPost (clientID fc) (clientSec fc)])
        | Response status b \<Rightarrow>
            (if status \<noteq> 200
             then (Some (ErrAuthFailed status), fc, [TokenPost (clientID fc) (clientSec fc)])
             else case b of
                 ReadError \<Rightarrow> (Some ErrRead, fc, [TokenPost (clientID fc) (clientSec fc)])
               | Undecodable \<Rightarrow> (Some ErrDecode, fc, [TokenPost (clientID fc) (clientSec fc)])
               | Decoded tok \<Rightarrow>
                   (None, fc\<lparr>token := tok\<rparr>, [TokenPost (clientID fc) (clientSec fc)])))"

text \<open>
  \<^verbatim>\<open>FetchFlights\<close>. The result is what the call returns (or that it panicked), the
  client afterwards, and the requests that were sent. A returned \<^verbatim>\<open>nil\<close> slice is the
  empty list.
\<close>

definition FetchFlights ::
  "World \<Rightarrow> real \<Rightarrow> real \<Rightarrow> real \<Rightarrow> FlightClient \<Rightarrow> fetched \<times> FlightClient \<times> request list" where
  "FetchFlights w centerLat centerLon radiusDeg fc =
     (if Since (clock w) (lastFetch fc) < cacheDuration \<and> length (cache fc) > 0
      then (Returned (cache fc) None, fc, [])
      else
        let (fc1, sent) =
              (if clientID fc \<noteq> [] \<and> token fc = []
               then (case authenticate (authReply w) fc of (_, fc', rs) \<Rightarrow> (fc', rs))
               else (fc, []));
            lamin = fsub centerLat radiusDeg;
            lamax = fadd centerLat radiusDeg;
            lomin = fsub centerLon radiusDeg;
            lomax = fadd centerLon radiusDeg;
            req = StatesGet lamin lomin lamax lomax (token fc1)
        in case statesReply w of
            RequestError \<Rightarrow> (Returned [] (Some ErrNewRequest), fc1, sent)
          | TransportError \<Rightarrow> (Returned [] (Some ErrTransport), fc1, sent @ [req])
          | Response status b \<Rightarrow>
              (if status = 429 then (Returned [] (Some ErrRateLimit), fc1, sent @ [req])
               else if status \<noteq> 200 then (Returned [] (Some (ErrStatus status)), fc1, sent @ [req])
               else case b of
                   ReadError \<Rightarrow> (Returned [] (Some ErrRead), fc1, sent @ [req])
                 | Undecodable \<Rightarrow> (Returned [] (Some ErrDecode), fc1, sent @ [req])
                 | Decoded states \<Rightarrow>
                     (case FetchFlights_loop (outOfRange w) states [] of
                        None \<Rightarrow> (Panicked, fc1, sent @ [req])
                      | Some flights \<Rightarrow>
                          (Returned flights None,
                           fc1\<lparr>cache := flights, lastFetch := clockStored w\<rparr>,
                           sent @ [req]))))"

text \<open>The replies on which the query fails: every one but a status 200 whose body
  decodes.\<close>

fun failing :: "'a reply \<Rightarrow> bool" where
  "failing RequestError = True"
| "failing TransportError = True"
| "failing (Response status ReadError) = True"
| "failing (Response status Undecodable) = True"
| "failing (Response status (Decoded v)) = (status \<noteq> 200)"

section \<open>Tile cache\<close>

datatype TileKey = TileKey int int int

subsection \<open>The loader of the ebiten front end\<close>

text \<open>An \<^verbatim>\<open>*ebiten.Image\<close> is a handle, a number here. The loader's map from keys to
  images is the field \<open>tiles\<close> (\<^verbatim>\<open>cache\<close> in the source, a name the snapshot cache has
  taken).\<close>

type_synonym image = nat

text \<open>
  \<^verbatim>\<open>GetTile\<close> starts \<^verbatim>\<open>fetchTile\<close> as a goroutine, so the loader is modelled together
  with the goroutines it has started. A goroutine of \<^verbatim>\<open>fetchTile\<close> is at one of three
  places: started and not yet at its locked test of the cache (\<open>AtCheck\<close>), past the
  test with its HTTP GET sent and the response awaited (\<open>InFlight\<close>), or returned
  (\<open>Done\<close>). Each access to the map happens under the mutex, so each of the functions
  below is one atomic step of the interleaving. The field \<open>gets\<close> lists the HTTP GETs
  sent so far.
\<close>

datatype goroutine = AtCheck TileKey | InFlight TileKey | Done

record TileLoader =
  tiles :: "TileKey \<rightharpoonup> image"
  goroutines :: "goroutine list"
  gets :: "TileKey list"

definition NewTileLoader :: TileLoader where
  "NewTileLoader = \<lparr>tiles = Map.empty, goroutines = [], gets = []\<rparr>"

definition GetTile :: "int \<Rightarrow> int \<Rightarrow> int \<Rightarrow> TileLoader \<Rightarrow> image option \<times> TileLoader" where
  "GetTile z x y ld =
     (let key = TileKey z x y
      in case tiles ld key of
           Some img \<Rightarrow> (Some img, ld)
         | None \<Rightarrow> (None, ld\<lparr>goroutines := goroutines ld @ [AtCheck key]\<rparr>))"

text \<open>The first part of \<^verbatim>\<open>fetchTile\<close>, run by goroutine number \<open>i\<close>: the test of the cache
  and, when the key is absent, the HTTP GET.\<close>

definition fetchTile_check :: "nat \<Rightarrow> TileLoader \<Rightarrow> TileLoader" where
  "fetchTile_check i ld =
     (if i < length (goroutines ld) then
        (case goroutines ld ! i of
           AtCheck key \<Rightarrow>
             (case tiles ld key of
                Some img \<Rightarrow> ld\<lparr>goroutines := (goroutines ld)[i := Done]\<rparr>
              | None \<Rightarrow> ld\<lparr>goroutines := (goroutines ld)[i := InFlight key],
                            gets := gets ld @ [key]\<rparr>)
         | _ \<Rightarrow> ld)
      else ld)"

text \<open>What comes back for a tile: the GET fails, the body is no image, or an image.\<close>

datatype tile_reply = GetFailed | DecodeFailed | Tile image

text \<open>The second part of \<^verbatim>\<open>fetchTile\<close>: the response arrives; an image is stored under
  the mutex.\<close>

definition fetchTile_finish :: "nat \<Rightarrow> tile_reply \<Rightarrow> TileLoader \<Rightarrow> TileLoader" where
  "fetchTile_finish i r ld =
     (if i < length (goroutines ld) then
        (case goroutines ld ! i of
           InFlight key \<Rightarrow>
             (case r of
                Tile img \<Rightarrow> ld\<lparr>tiles := (tiles ld)(key \<mapsto> img),
                                goroutines := (goroutines ld)[i := Done]\<rparr>
              | _ \<Rightarrow> ld\<lparr>goroutines := (goroutines ld)[i := Done]\<rparr>)
         | _ \<Rightarrow> ld)
      else ld)"

text \<open>The number of fetches for a key that are in flight.\<close>

definition inflight :: "TileLoader \<Rightarrow> TileKey \<Rightarrow> nat" where
  "inflight ld key = length (filter (\<lambda>g. g = InFlight key) (goroutines ld))"

subsection \<open>The loader of the raylib front end\<close>

text \<open>
  \<^verbatim>\<open>go_raylib\<close> has a tile loader of its own, with a set of pending keys and a channel
  of capacity 10 on which the fetching goroutines hand the bytes over to \<^verbatim>\<open>Update\<close>. A
  texture is a handle; the bytes of a response are a string.
\<close>

datatype rl_goroutine =
    RlStarted TileKey
  | RlInFlight TileKey
  | RlSending TileKey string
  | RlDone

record TileLoader_raylib =
  textures :: "TileKey \<rightharpoonup> image"
  pending :: "TileKey set"
  responseChan :: "(TileKey \<times> string) list"
  routines :: "rl_goroutine list"
  requests :: "TileKey list"

definition NewTileLoader_raylib :: TileLoader_raylib where
  "NewTileLoader_raylib =
     \<lparr>textures = Map.empty, pending = {}, responseChan = [], routines = [], requests = []\<rparr>"

text \<open>\<^verbatim>\<open>GetTile\<close>: the empty texture is \<open>None\<close>. (\<^verbatim>\<open>Unload\<close>, which runs once when the
  program ends, is left out.)\<close>

definition GetTile_raylib ::
  "int \<Rightarrow> int \<Rightarrow> int \<Rightarrow> TileLoader_raylib \<Rightarrow> image option \<times> TileLoader_raylib" where
  "GetTile_raylib z x y ld =
     (let key = TileKey z x y
      in case textures ld key of
           Some tex \<Rightarrow> (Some tex, ld)
         | None \<Rightarrow>
             (if key \<in> pending ld then (None, ld)
              else (None, ld\<lparr>pending := insert key (pending ld),
                              routines := routines ld @ [RlStarted key]\<rparr>)))"

text \<open>\<^verbatim>\<open>fetchTile\<close> in three steps of goroutine number \<open>i\<close>: the GET is sent; the response
  arrives (the GET fails, the body cannot be read, or the bytes are there); the bytes are
  put on the channel, which blocks while the channel is full.\<close>

datatype bytes_reply = BytesGetFailed | BytesReadFailed | Bytes string

definition fetchTile_raylib_get :: "nat \<Rightarrow> TileLoader_raylib \<Rightarrow> TileLoader_raylib" where
  "fetchTile_raylib_get i ld =
     (if i < length (routines ld) then
        (case routines ld ! i of
           RlStarted key \<Rightarrow> ld\<lparr>routines := (routines ld)[i := RlInFlight key],
                                requests := requests ld @ [key]\<rparr>
         | _ \<Rightarrow> ld)
      else ld)"

definition fetchTile_raylib_reply ::
  "nat \<Rightarrow> bytes_reply \<Rightarrow> TileLoader_raylib \<Rightarrow> TileLoader_raylib" where
  "fetchTile_raylib_reply i r ld =
     (if i < length (routines ld) then
        (case routines ld ! i of
           RlInFlight key \<Rightarrow>
             (case r of
                Bytes d \<Rightarrow> ld\<lparr>routines := (routines ld)[i := RlSending key d]\<rparr>
              | _ \<Rightarrow> ld\<lparr>pending := pending ld - {key},
                          routines := (routines ld)[i := RlDone]\<rparr>)
         | _ \<Rightarrow> ld)
      else ld)"

definition fetchTile_raylib_send :: "nat \<Rightarrow> TileLoader_raylib \<Rightarrow> TileLoader_raylib" where
  "fetchTile_raylib_send i ld =
     (if i < length (routines ld) then
        (case routines ld ! i of
           RlSending key d \<Rightarrow>
             (if length (responseChan ld) < 10
              then ld\<lparr>responseChan := responseChan ld @ [(key, d)],
                      routines := (routines ld)[i := RlDone]\<rparr>
              else ld)
         | _ \<Rightarrow> ld)
      else ld)"

text \<open>One round of the loop of \<^verbatim>\<open>Update\<close>: the first response of the channel is taken;
  \<open>decode\<close> stands for loading the image and the texture, \<open>None\<close> for an image of width
  0. On an empty channel the loop ends.\<close>

definition Update_step ::
  "(string \<Rightarrow> image option) \<Rightarrow> TileLoader_raylib \<Rightarrow> TileLoader_raylib" where
  "Update_step decode ld =
     (case responseChan ld of
        [] \<Rightarrow> ld
      | (key, d) # rest \<Rightarrow>
          (case decode d of
             None \<Rightarrow> ld\<lparr>responseChan := rest\<rparr>
           | Some tex \<Rightarrow> ld\<lparr>textures := (textures ld)(key \<mapsto> tex),
                               pending := pending ld - {key},
                               responseChan := rest\<rparr>))"

text \<open>The states the loader reaches from the new one, by these steps in any order.\<close>

inductive reachable_raylib :: "(string \<Rightarrow> image option) \<Rightarrow> TileLoader_raylib \<Rightarrow> bool"
  for decode :: "string \<Rightarrow> image option" where
  start: "reachable_raylib decode NewTileLoader_raylib"
| lookup: "reachable_raylib decode ld \<Longrightarrow> reachable_raylib decode (snd (GetTile_raylib z x y ld))"
| get: "reachable_raylib decode ld \<Longrightarrow> reachable_raylib decode (fetchTile_raylib_get i ld)"
| reply: "reachable_raylib decode ld \<Longrightarrow> reachable_raylib decode (fetchTile_raylib_reply i r ld)"
| send: "reachable_raylib decode ld \<Longrightarrow> reachable_raylib decode (fetchTile_raylib_send i ld)"
| update: "reachable_raylib decode ld \<Longrightarrow> reachable_raylib decode (Update_step decode ld)"

text \<open>A goroutine is busy with a key from its start until it has failed or has put its
  bytes on the channel.\<close>

fun busy_with :: "TileKey \<Rightarrow> rl_goroutine \<Rightarrow> bool" where
  "busy_with key (RlStarted k) = (k = key)"
| "busy_with key (RlInFlight k) = (k = key)"
| "busy_with key (RlSending k d) = (k = key)"
| "busy_with key RlDone = False"

definition inflight_raylib :: "TileLoader_raylib \<Rightarrow> TileKey \<Rightarrow> nat" where
  "inflight_raylib ld key = length (filter (busy_with key) (routines ld))"

text \<open>The invariant of the raylib loader: per key at most one goroutine is busy, a key
  with a busy goroutine is pending, and the keys on the channel are pending, pairwise
  different and have no busy goroutine.\<close>

definition tile_inv :: "TileLoader_raylib \<Rightarrow> bool" where
  "tile_inv ld \<longleftrightarrow>
     (\<forall>key. inflight_raylib ld key \<le> 1) \<and>
     (\<forall>key. key \<notin> pending ld \<longrightarrow> inflight_raylib ld key = 0) \<and>
     (\<forall>key d. (key, d) \<in> set (responseChan ld) \<longrightarrow>
        key \<in> pending ld \<and> inflight_raylib ld key = 0) \<and>
     distinct (map fst (responseChan ld))"

section \<open>Route resolver\<close>

text \<open>The fields \<^verbatim>\<open>Destination\<close> and \<^verbatim>\<open>Origin\<close> of \<^verbatim>\<open>ResolvedDetails\<close> carry the prefix
  \<open>rd\<close>, since \<^verbatim>\<open>Flight\<close> has fields of the same names.\<close>

record ResolvedDetails =
  rdDestination :: string
  RealDestination :: string
  Model :: string
  rdOrigin :: string

text \<open>
  What the page gives to the resolver after the HTTP exchange: the regular expression
  finds no \<^verbatim>\<open>trackpollBootstrap\<close> assignment in the bytes read, or the text it captures
  does not decode into a \<^verbatim>\<open>map[string]interface{}\<close>, or it decodes to the map \<open>data\<close>.
\<close>

datatype page = NoMarker | BadJson | Bootstrap "(string \<times> json) list"

datatype scrape_reply = ScrapeRequestError | ScrapeTransportError | ScrapeResponse int page

datatype scrape_error =
    ScrNewRequest
  | ScrTransport
  | ScrStatus int
  | ScrNoData
  | ScrParseJson
  | ScrNoFlights
  | ScrNotFound

text \<open>The part of the loop body of \<^verbatim>\<open>FetchFlightDetails\<close> that reads the labels from
  the chosen entry \<open>latest\<close>. A failed two-result assertion to a map leaves the nil map,
  the empty list here.\<close>

definition FetchFlightDetails_entry :: "(string \<times> json) list \<Rightarrow> ResolvedDetails" where
  "FetchFlightDetails_entry latest =
     (let destData = (case as_map (lookup latest ''destination'') of Some m \<Rightarrow> m | None \<Rightarrow> []);
          aircraftData = (case as_map (lookup latest ''aircraft'') of Some m \<Rightarrow> m | None \<Rightarrow> []);
          originData = (case as_map (lookup latest ''origin'') of Some m \<Rightarrow> m | None \<Rightarrow> []);
          destName =
            (case as_string (lookup destData ''friendlyLocation'') of
               Some v \<Rightarrow> v
             | None \<Rightarrow> (case as_string (lookup destData ''iata'') of Some v \<Rightarrow> v | None \<Rightarrow> []));
          model =
            (case as_string (lookup aircraftData ''friendlyType'') of
               Some v \<Rightarrow> v
             | None \<Rightarrow> (case as_string (lookup aircraftData ''type'') of Some v \<Rightarrow> v | None \<Rightarrow> []));
          originName =
            (case as_string (lookup originData ''friendlyLocation'') of
               Some v \<Rightarrow> v
             | None \<Rightarrow> [])
      in \<lparr>rdDestination = destName, RealDestination = destName, Model = model,
          rdOrigin = originName\<rparr>)"

text \<open>The loop over \<^verbatim>\<open>flightsData\<close>: the first flight whose activity log has a first
  entry that is a map decides; \<open>None\<close> when the loop ends without one.\<close>

fun FetchFlightDetails_loop :: "(string \<times> json) list \<Rightarrow> ResolvedDetails option" where
  "FetchFlightDetails_loop [] = None"
| "FetchFlightDetails_loop ((flightID, flightData) # rest) =
     (case as_map flightData of
        None \<Rightarrow> FetchFlightDetails_loop rest
      | Some fd \<Rightarrow>
          (case as_map (lookup fd ''activityLog'') of
             None \<Rightarrow> FetchFlightDetails_loop rest
           | Some actLog \<Rightarrow>
               (case as_slice (lookup actLog ''flights'') of
                  None \<Rightarrow> FetchFlightDetails_loop rest
                | Some fLog \<Rightarrow>
                    (if length fLog = 0 then FetchFlightDetails_loop rest
                     else case as_map (fLog ! 0) of
                         None \<Rightarrow> FetchFlightDetails_loop rest
                       | Some latest \<Rightarrow> Some (FetchFlightDetails_entry latest)))))"

definition FetchFlightDetails :: "scrape_reply \<Rightarrow> string \<Rightarrow> scrape_error + ResolvedDetails" where
  "FetchFlightDetails r callsign =
     (case r of
        ScrapeRequestError \<Rightarrow> Inl ScrNewRequest
      | ScrapeTransportError \<Rightarrow> Inl ScrTransport
      | ScrapeResponse status pg \<Rightarrow>
          (if status \<noteq> 200 then Inl (ScrStatus status)
           else case pg of
               NoMarker \<Rightarrow> Inl ScrNoData
             | BadJson \<Rightarrow> Inl ScrParseJson
             | Bootstrap data \<Rightarrow>
                 (case as_map (lookup data ''flights'') of
                    None \<Rightarrow> Inl ScrNoFlights
                  | Some flightsData \<Rightarrow>
                      (case FetchFlightDetails_loop flightsData of
                         Some d \<Rightarrow> Inr d
                       | None \<Rightarrow> Inl ScrNotFound))))"

section \<open>Round orchestrator\<close>

datatype State =
    StateLogin
  | StateMap
  | StateGameBriefing
  | StateGamePlaying
  | StateRoundSetup
  | StateGameOver
  | StateLeaderboard

subsection \<open>The airports that were seen\<close>

text \<open>
  \<^verbatim>\<open>DataManager\<close> keeps its data in files; the round logic uses \<^verbatim>\<open>airports.json\<close>, a
  JSON array of strings. \<^verbatim>\<open>SaveAirport\<close> is the only code that writes this file, so the
  file is either absent or holds a list of strings, and reading and writing it are taken
  to succeed. The users and the scores are left out. The data manager is the one of
  \<^verbatim>\<open>go_version/data.go\<close>; \<^verbatim>\<open>go_raylib\<close> calls the same methods, and is taken to use
  the same file \<^verbatim>\<open>data.go\<close>.
\<close>

datatype airports_file = NoFile | Stored "string list"

record DataManager =
  airportsFile :: airports_file

text \<open>\<^verbatim>\<open>LoadAirports\<close> returns a list and an error; \<open>None\<close> stands for the error, which
  needs a file that cannot be read or decoded.\<close>

definition LoadAirports :: "DataManager \<Rightarrow> string list option" where
  "LoadAirports dm = (case airportsFile dm of NoFile \<Rightarrow> Some [] | Stored as \<Rightarrow> Some as)"

text \<open>The loop that sets \<^verbatim>\<open>exists\<close>, in \<^verbatim>\<open>SaveAirport\<close> and in \<^verbatim>\<open>generateOptions\<close>.\<close>

fun exists_loop :: "string list \<Rightarrow> string \<Rightarrow> bool" where
  "exists_loop [] c = False"
| "exists_loop (o1 # os) c = (if o1 = c then True else exists_loop os c)"

text \<open>\<^verbatim>\<open>SaveAirport\<close>; \<^verbatim>\<open>sort.Strings\<close> orders the strings byte by byte.\<close>

definition SaveAirport :: "string \<Rightarrow> DataManager \<Rightarrow> DataManager" where
  "SaveAirport city dm =
     (if city = [] \<or> city = ''Unknown'' \<or> city = ''N/A'' then dm
      else
        let airports = (case airportsFile dm of NoFile \<Rightarrow> [] | Stored as \<Rightarrow> as)
        in if \<not> exists_loop airports city
           then dm\<lparr>airportsFile := Stored (sort (airports @ [city]))\<rparr>
           else dm)"

subsection \<open>The game\<close>

text \<open>
  The fields of \<^verbatim>\<open>Game\<close> that the round logic reads or writes (the field \<^verbatim>\<open>round\<close> is
  \<open>roundNo\<close> here, \<open>round\<close> being the rounding function of HOL). A pointer to a flight
  is the flight it points to, or \<open>None\<close> for \<^verbatim>\<open>nil\<close>: the array a pointer refers to is
  never written after the pointer is taken.
\<close>

record Game =
  dataManager :: DataManager
  flights :: "Flight list"
  state :: State
  airports :: "string list"
  camLat :: real
  camLon :: real
  selectedPlane :: "Flight option"
  resolvedDetails :: "ResolvedDetails option"
  resolving :: bool
  score :: int
  targetPlane :: "Flight option"
  roundNo :: int
  roundStartTime :: int
  questionText :: string
  options :: "string list"
  correctOption :: string
  wrongGuess :: string
  showResult :: bool
  resultCorrect :: bool
  resultStartTime :: int

text \<open>What a function of the orchestrator sets going: a goroutine that resolves the
  route of a callsign and reports back, or a timer that calls \<^verbatim>\<open>pickNewTarget\<close> again
  after a duration.\<close>

datatype effect = Resolve string | RetryAfter int

text \<open>
  What a round setup takes from outside: the number \<^verbatim>\<open>rand.Intn\<close> draws for the target,
  the numbers the two shuffles draw, and the clock when the round starts.
\<close>

record Chance =
  drawn :: nat
  shuffle1 :: "nat list"
  shuffle2 :: "nat list"
  started :: int

text \<open>
  \<^verbatim>\<open>rand.Shuffle(n, swap)\<close> runs \<^verbatim>\<open>i\<close> from \<^verbatim>\<open>n - 1\<close> down to \<^verbatim>\<open>1\<close> and swaps the elements
  at \<^verbatim>\<open>i\<close> and at a random \<^verbatim>\<open>j\<close> with \<^verbatim>\<open>0 <= j <= i\<close>. The random numbers are the list
  \<open>rs\<close>, reduced into the range; when the list is used up, \<open>j\<close> is \<open>0\<close>.
\<close>

definition swap :: "nat \<Rightarrow> nat \<Rightarrow> 'a list \<Rightarrow> 'a list" where
  "swap i j xs = xs[i := xs ! j, j := xs ! i]"

fun Shuffle_loop :: "nat list \<Rightarrow> nat \<Rightarrow> 'a list \<Rightarrow> 'a list" where
  "Shuffle_loop rs 0 xs = xs"
| "Shuffle_loop rs (Suc i) xs =
     (let j = (case rs of [] \<Rightarrow> 0 | r # _ \<Rightarrow> r mod (Suc i + 1))
      in Shuffle_loop (tl rs) i (swap (Suc i) j xs))"

definition Shuffle :: "nat list \<Rightarrow> 'a list \<Rightarrow> 'a list" where
  "Shuffle rs xs = Shuffle_loop rs (length xs - 1) xs"

definition refreshAirports :: "Game \<Rightarrow> Game" where
  "refreshAirports g =
     (case LoadAirports (dataManager g) of
        Some as \<Rightarrow>
          (if length as > 0 then g\<lparr>airports := as\<rparr>
           else g\<lparr>airports := [''London'', ''Paris'', ''Berlin'', ''Helsinki'', ''Tokyo'',
                                 ''New York'', ''Dubai'', ''Rome'']\<rparr>)
      | None \<Rightarrow> g\<lparr>airports := [''London'', ''Paris'', ''Berlin'', ''Helsinki'', ''Tokyo'',
                                 ''New York'', ''Dubai'', ''Rome'']\<rparr>)"

text \<open>The first loop of \<^verbatim>\<open>generateOptions\<close>, over the shuffled distractors.\<close>

fun distractor_loop :: "string \<Rightarrow> string list \<Rightarrow> string list \<Rightarrow> string list" where
  "distractor_loop correct [] opts = opts"
| "distractor_loop correct (c # cs) opts =
     (if length opts \<ge> 4 then opts
      else if c \<noteq> correct \<and> c \<noteq> ''Unknown'' then distractor_loop correct cs (opts @ [c])
      else distractor_loop correct cs opts)"

text \<open>The loop over the fallback cities.\<close>

fun fallback_loop :: "string list \<Rightarrow> string list \<Rightarrow> string list" where
  "fallback_loop [] opts = opts"
| "fallback_loop (c # cs) opts =
     (if length opts \<ge> 4 then opts
      else if \<not> exists_loop opts c then fallback_loop cs (opts @ [c])
      else fallback_loop cs opts)"

text \<open>The options before the last shuffle, for a list of fallback cities.\<close>

definition options_unshuffled :: "string list \<Rightarrow> string \<Rightarrow> string list \<Rightarrow> string list" where
  "options_unshuffled fallbacks correct distractors =
     (let opts = distractor_loop correct distractors [correct]
      in if length opts < 4 then fallback_loop fallbacks opts else opts)"

text \<open>\<^verbatim>\<open>generateOptions\<close> of \<^verbatim>\<open>go_version/main.go\<close>.\<close>

definition generateOptions :: "Chance \<Rightarrow> Game \<Rightarrow> Game" where
  "generateOptions ch g =
     (let g1 = refreshAirports g;
          distractors = Shuffle (shuffle1 ch) (airports g1);
          opts = options_unshuffled
                   [''London'', ''Paris'', ''Berlin'', ''Helsinki'', ''Tokyo'', ''New York'']
                   (correctOption g1) distractors
      in g1\<lparr>options := Shuffle (shuffle2 ch) opts\<rparr>)"

text \<open>\<^verbatim>\<open>generateOptions\<close> of \<^verbatim>\<open>go_raylib/main.go\<close>: the same with four fallback
  cities.\<close>

definition generateOptions_raylib :: "Chance \<Rightarrow> Game \<Rightarrow> Game" where
  "generateOptions_raylib ch g =
     (let g1 = refreshAirports g;
          dist = Shuffle (shuffle1 ch) (airports g1);
          opts = options_unshuffled [''London'', ''Paris'', ''Berlin'', ''Helsinki'']
                   (correctOption g1) dist
      in g1\<lparr>options := Shuffle (shuffle2 ch) opts\<rparr>)"

text \<open>\<^verbatim>\<open>pickNewTarget\<close>, the same in both front ends.\<close>

definition pickNewTarget :: "nat \<Rightarrow> Game \<Rightarrow> Game \<times> effect list" where
  "pickNewTarget r g =
     (let g1 = g\<lparr>state := StateRoundSetup, showResult := False, wrongGuess := []\<rparr>
      in if length (flights g1) = 0 then (g1, [RetryAfter (1 * Second)])
         else
           let idx = r mod length (flights g1);
               tp = flights g1 ! idx;
               g2 = g1\<lparr>targetPlane := Some tp, camLat := Lat tp, camLon := Lon tp,
                       selectedPlane := Some tp, resolvedDetails := None, resolving := True\<rparr>
           in (g2, [Resolve (Callsign tp)]))"

text \<open>
  \<^verbatim>\<open>setupRoundWithData\<close> of \<^verbatim>\<open>go_version/main.go\<close>. The result is \<open>None\<close> when
  \<^verbatim>\<open>g.targetPlane\<close> is nil where its callsign is read.
\<close>

definition setupRoundWithData ::
  "Chance \<Rightarrow> ResolvedDetails \<Rightarrow> Game \<Rightarrow> (Game \<times> effect list) option" where
  "setupRoundWithData ch details g =
     (let g1 = g\<lparr>resolvedDetails := Some details, resolving := False\<rparr>
      in if RealDestination details = [] \<or> RealDestination details = ''Unknown'' \<or>
            rdOrigin details = [] \<or> rdOrigin details = ''Unknown''
         then Some (pickNewTarget (drawn ch) g1)
         else
           let g2 = g1\<lparr>dataManager := SaveAirport (RealDestination details) (dataManager g1)\<rparr>;
               g3 = g2\<lparr>dataManager := SaveAirport (rdOrigin details) (dataManager g2)\<rparr>;
               origin = rdOrigin details;
               dest = RealDestination details;
               isInbound = (Contains dest ''Helsinki'' \<or> Contains dest ''Vantaa'')
           in case targetPlane g3 of
                None \<Rightarrow> None
              | Some tp \<Rightarrow>
                  let g4 = (if isInbound
                            then g3\<lparr>questionText := ''Where is '' @ Callsign tp @ '' from?'',
                                    correctOption := origin\<rparr>
                            else g3\<lparr>questionText := ''Where is '' @ Callsign tp @ '' going?'',
                                    correctOption := dest\<rparr>);
                      g5 = generateOptions ch g4
                  in Some (g5\<lparr>roundStartTime := started ch, state := StateGamePlaying\<rparr>, []))"

text \<open>\<^verbatim>\<open>setupRoundWithData\<close> of \<^verbatim>\<open>go_raylib/main.go\<close>.\<close>

definition setupRoundWithData_raylib ::
  "Chance \<Rightarrow> ResolvedDetails \<Rightarrow> Game \<Rightarrow> (Game \<times> effect list) option" where
  "setupRoundWithData_raylib ch details g =
     (let g1 = g\<lparr>resolvedDetails := Some details, resolving := False\<rparr>
      in if RealDestination details = [] \<or> RealDestination details = ''Unknown''
         then Some (pickNewTarget (drawn ch) g1)
         else
           let g2 = g1\<lparr>dataManager := SaveAirport (RealDestination details) (dataManager g1)\<rparr>;
               g3 = g2\<lparr>dataManager := SaveAirport (rdOrigin details) (dataManager g2)\<rparr>
           in case targetPlane g3 of
                None \<Rightarrow> None
              | Some tp \<Rightarrow>
                  let g4 = (if Contains (RealDestination details) ''Helsinki''
                            then g3\<lparr>questionText := ''Where is '' @ Callsign tp @ '' from?'',
                                    correctOption := rdOrigin details\<rparr>
                            else g3\<lparr>questionText := ''Where is '' @ Callsign tp @ '' going?'',
                                    correctOption := RealDestination details\<rparr>);
                      g5 = generateOptions_raylib ch g4
                  in Some (g5\<lparr>roundStartTime := started ch, state := StateGamePlaying\<rparr>, []))"

text \<open>
  \<^verbatim>\<open>guess\<close>, the same in both front ends. \<open>now\<close> is the clock at \<^verbatim>\<open>time.Since\<close>, \<open>shown\<close>
  the clock when the result starts to show, \<open>wild\<close> what the platform makes of a
  conversion to \<^verbatim>\<open>int\<close> that is out of range. The bonus is computed in \<^verbatim>\<open>float64\<close>: a
  subtraction, a division and a multiplication, each rounded.
\<close>

definition guess :: "(real \<Rightarrow> int) \<Rightarrow> int \<Rightarrow> int \<Rightarrow> string \<Rightarrow> Game \<Rightarrow> Game" where
  "guess wild now shown city g =
     (if showResult g then g
      else
        let g1 = g\<lparr>resultCorrect := (city = correctOption g)\<rparr>;
            g2 = (if resultCorrect g1
                  then
                    let elapsed = Seconds (Since now (roundStartTime g1));
                        bonus = go_int wild (max 0 (fmul (fdiv (fsub 20 elapsed) 20) 100))
                    in g1\<lparr>score := score g1 + (100 + bonus)\<rparr>
                  else g1\<lparr>wrongGuess := city\<rparr>)
        in g2\<lparr>showResult := True, resultStartTime := shown\<rparr>)"

section \<open>States and inputs of the examples\<close>

definition flight0 :: Flight where
  "flight0 = \<lparr>Icao24 = ''4601f5'', Callsign = ''FIN1'', Lon = 24.875, Lat = 60.25,
       VelocityKts = 19, Heading = 90, AltitudeFt = 3280, OnGround = False,
       Origin = ''Finland'', Category = ''Unknown'', Destination = []\<rparr>"

text \<open>A game in a round that started at instant 0, with the answer ``Paris''; the
  airport file holds two names.\<close>

definition game0 :: Game where
  "game0 = \<lparr>dataManager = \<lparr>airportsFile = Stored [''Paris'', ''Rome'']\<rparr>,
       flights = [flight0], state = StateGamePlaying, airports = [], camLat = 60.25,
       camLon = 24.875, selectedPlane = Some flight0, resolvedDetails = None, resolving = False,
       score = 0, targetPlane = Some flight0, roundNo = 1, roundStartTime = 0,
       questionText = ''Where is FIN1 going?'',
       options = [''Paris'', ''London'', ''Berlin'', ''Rome''], correctOption = ''Paris'',
       wrongGuess = [], showResult = False, resultCorrect = False, resultStartTime = 0\<rparr>"

text \<open>A state vector as the remote API sends it: transponder id, callsign, country, two
  time stamps, longitude, latitude, altitude (1000 m), on-ground flag, velocity (10 m/s),
  heading, and seven more entries, the last one the category (4).\<close>

definition state0 :: "json list" where
  "state0 = [JStr ''4601f5'', JStr ''FIN1    '', JStr ''Finland'', JNum 1700000000,
             JNum 1700000000, JNum 24.875, JNum 60.25, JNum 1000, JBool False, JNum 10, JNum 90,
             JNum 0, JNull, JNum 1000, JNull, JBool False, JNum 0, JNum 4]"

text \<open>The flight that \<open>state0\<close> parses to.\<close>

definition parsed0 :: Flight where
  "parsed0 = \<lparr>Icao24 = ''4601f5'', Callsign = ''FIN1'', Lon = 24.875, Lat = 60.25,
       VelocityKts = 19, Heading = 90, AltitudeFt = 3280, OnGround = False,
       Origin = ''Finland'', Category = ''Large'', Destination = []\<rparr>"

text \<open>What the amd64 processors give for a conversion to \<^verbatim>\<open>int\<close> that is out of range:
  the smallest integer.\<close>

definition amd64 :: "real \<Rightarrow> int" where
  "amd64 x = - (2 ^ 63)"

text \<open>Calls of \<^verbatim>\<open>FetchFlights\<close>: at second 1000 the API answers with the one record, or
  with no record at all; the snapshot is stored at second 1001. At second 1002 (inside the
  freshness window) and at second 1020 (outside) the API answers 429.\<close>

definition world_one :: World where
  "world_one = \<lparr>clock = 1000 * Second, authReply = TransportError,
       statesReply = Response 200 (Decoded [state0]), clockStored = 1001 * Second,
       outOfRange = amd64\<rparr>"

definition world_none :: World where
  "world_none = \<lparr>clock = 1000 * Second, authReply = TransportError,
       statesReply = Response 200 (Decoded []), clockStored = 1001 * Second,
       outOfRange = amd64\<rparr>"

definition world_soon :: World where
  "world_soon = \<lparr>clock = 1002 * Second, authReply = TransportError,
       statesReply = Response 429 Undecodable, clockStored = 1003 * Second,
       outOfRange = amd64\<rparr>"

definition world_late :: World where
  "world_late = \<lparr>clock = 1020 * Second, authReply = TransportError,
       statesReply = Response 429 Undecodable, clockStored = 1021 * Second,
       outOfRange = amd64\<rparr>"

text \<open>The client after a successful fetch of one record, and after a successful fetch
  of no record.\<close>

definition client_one :: FlightClient where
  "client_one = fst (snd (FetchFlights world_one 60.25 24.875 1 (NewFlightClient [] [])))"

definition client_none :: FlightClient where
  "client_none = fst (snd (FetchFlights world_none 60.25 24.875 1 (NewFlightClient [] [])))"

text \<open>A round setup: the numbers drawn for the target and for the two shuffles; the
  round starts at second 5.\<close>

definition chance0 :: Chance where
  "chance0 = \<lparr>drawn = 0, shuffle1 = [1, 0], shuffle2 = [2, 1, 0], started = 5 * Second\<rparr>"

text \<open>A game that waits for the details of its target; the airport file holds two
  names.\<close>

definition game_setup :: Game where
  "game_setup = \<lparr>dataManager = \<lparr>airportsFile = Stored [''Paris'', ''Rome'']\<rparr>,
       flights = [flight0], state = StateRoundSetup, airports = [], camLat = 60.25,
       camLon = 24.875, selectedPlane = Some flight0, resolvedDetails = None, resolving = True,
       score = 0, targetPlane = Some flight0, roundNo = 1, roundStartTime = 0,
       questionText = [], options = [], correctOption = [],
       wrongGuess = [], showResult = False, resultCorrect = False, resultStartTime = 0\<rparr>"

text \<open>Resolver results: a destination without an origin, and an inbound flight whose
  origin is the string ``Unknown''.\<close>

definition details_no_origin :: ResolvedDetails where
  "details_no_origin = \<lparr>rdDestination = ''Paris'', RealDestination = ''Paris'',
       Model = ''A320'', rdOrigin = []\<rparr>"

definition details_unknown_origin :: ResolvedDetails where
  "details_unknown_origin = \<lparr>rdDestination = ''Helsinki'', RealDestination = ''Helsinki'',
       Model = ''A320'', rdOrigin = ''Unknown''\<rparr>"

text \<open>A page whose only flight has one log entry; destination and origin carry an IATA
  code and no friendly location, the aircraft a type code and no friendly type.\<close>

definition entry0 :: "(string \<times> json) list" where
  "entry0 = [(''origin'', JObj [(''iata'', JStr ''HEL'')]),
             (''destination'', JObj [(''iata'', JStr ''CDG'')]),
             (''aircraft'', JObj [(''type'', JStr ''A320'')])]"

definition page0 :: page where
  "page0 = Bootstrap
     [(''flights'', JObj
        [(''FIN1-1700000000'', JObj
           [(''activityLog'', JObj [(''flights'', JArr [JObj entry0])])])])]"

text \<open>A run of the tile loader: a lookup of tile (10, 5, 3) on the empty cache, the
  goroutine it starts passes its test and sends its GET, a second lookup of the same
  tile, and the second goroutine passes its test as well.\<close>

definition loader1 :: TileLoader where
  "loader1 = snd (GetTile 10 5 3 NewTileLoader)"

definition loader2 :: TileLoader where
  "loader2 = fetchTile_check 0 loader1"

definition loader3 :: TileLoader where
  "loader3 = snd (GetTile 10 5 3 loader2)"

definition loader4 :: TileLoader where
  "loader4 = fetchTile_check 1 loader3"

section \<open>Properties of the rounding to float64\<close>

lemma pow2_pos: "0 < pow2 e"
  by (simp add: pow2_def)

lemma pow2_add: "pow2 (a + b) = pow2 a * pow2 b"
  by (simp add: pow2_def powr_add)

lemma pow2_mono: "a \<le> b \<Longrightarrow> pow2 a \<le> pow2 b"
  by (simp add: pow2_def)

lemma pow2_nat: "0 \<le> e \<Longrightarrow> pow2 e = 2 ^ nat e"
  by (simp add: pow2_def powr_realpow [symmetric])

lemma pow2_int: "0 \<le> e \<Longrightarrow> pow2 e = real_of_int (2 ^ nat e)"
  by (simp add: pow2_nat)

lemma binade:
  assumes "x \<noteq> 0"
  shows "pow2 \<lfloor>log 2 \<bar>x\<bar>\<rfloor> \<le> \<bar>x\<bar>" and "\<bar>x\<bar> < pow2 (\<lfloor>log 2 \<bar>x\<bar>\<rfloor> + 1)"
proof -
  have p: "0 < \<bar>x\<bar>" using assms by simp
  have "\<lfloor>log 2 \<bar>x\<bar>\<rfloor> = \<lfloor>log 2 \<bar>x\<bar>\<rfloor>" ..
  then have "2 powr real_of_int \<lfloor>log 2 \<bar>x\<bar>\<rfloor> \<le> \<bar>x\<bar> \<and> \<bar>x\<bar> < 2 powr real_of_int (\<lfloor>log 2 \<bar>x\<bar>\<rfloor> + 1)"
    using floor_log_eq_powr_iff [OF p, of 2 "\<lfloor>log 2 \<bar>x\<bar>\<rfloor>"] by simp
  then show "pow2 \<lfloor>log 2 \<bar>x\<bar>\<rfloor> \<le> \<bar>x\<bar>" and "\<bar>x\<bar> < pow2 (\<lfloor>log 2 \<bar>x\<bar>\<rfloor> + 1)"
    by (simp_all add: pow2_def)
qed

lemma floor_log_at:
  assumes "pow2 k \<le> \<bar>x\<bar>" and "\<bar>x\<bar> < pow2 (k + 1)"
  shows "\<lfloor>log 2 \<bar>x\<bar>\<rfloor> = k"
proof -
  have p: "0 < \<bar>x\<bar>" using assms(1) pow2_pos [of k] by linarith
  show ?thesis
    using floor_log_eq_powr_iff [OF p, of 2 k] assms by (simp add: pow2_def)
qed

lemma round_even_int: "round_even (real_of_int n) = n"
  by (simp add: round_even_def)

lemma round_even_ge: "real_of_int n \<le> q \<Longrightarrow> n \<le> round_even q"
proof -
  assume "real_of_int n \<le> q"
  then have "n \<le> \<lfloor>q\<rfloor>" by (simp add: le_floor_iff)
  then show ?thesis by (auto simp: round_even_def Let_def)
qed

lemma round_even_le: "q \<le> real_of_int n \<Longrightarrow> round_even q \<le> n"
proof -
  assume a: "q \<le> real_of_int n"
  show ?thesis
  proof (cases "q = real_of_int n")
    case True
    then show ?thesis by (simp add: round_even_int)
  next
    case False
    with a have "q < real_of_int n" by simp
    then have "\<lfloor>q\<rfloor> < n" by (simp add: floor_less_iff)
    then have "\<lfloor>q\<rfloor> + 1 \<le> n" by simp
    moreover have "round_even q \<le> \<lfloor>q\<rfloor> + 1" by (simp add: round_even_def Let_def)
    ultimately show ?thesis by linarith
  qed
qed

lemma round_even_near: "\<bar>real_of_int (round_even q) - q\<bar> \<le> 1 / 2"
proof -
  define f where "f = \<lfloor>q\<rfloor>"
  have "real_of_int f \<le> q" "q < real_of_int f + 1" unfolding f_def by linarith+
  then show ?thesis unfolding round_even_def Let_def f_def [symmetric]
    by (simp add: abs_if)
qed

text \<open>A multiple of a power of two that a float64 is made of.\<close>

lemma pow2_ratio_int:
  assumes "a \<le> b"
  shows "pow2 b = real_of_int (2 ^ nat (b - a)) * pow2 a"
proof -
  have "pow2 b = pow2 ((b - a) + a)" by simp
  also have "\<dots> = pow2 (b - a) * pow2 a" by (rule pow2_add)
  also have "pow2 (b - a) = real_of_int (2 ^ nat (b - a))" using assms by (simp add: pow2_int)
  finally show ?thesis .
qed

lemma exponent_bounds:
  assumes "x \<noteq> 0"
  shows "\<bar>x\<bar> < pow2 (exponent x + 1)"
    and "- 1022 < exponent x \<Longrightarrow> pow2 (exponent x) \<le> \<bar>x\<bar>"
    and "- 1022 \<le> exponent x"
proof -
  have "\<bar>x\<bar> < pow2 (\<lfloor>log 2 \<bar>x\<bar>\<rfloor> + 1)" using assms by (rule binade)
  also have "\<dots> \<le> pow2 (exponent x + 1)" by (intro pow2_mono) (simp add: exponent_def)
  finally show "\<bar>x\<bar> < pow2 (exponent x + 1)" .
  show "- 1022 \<le> exponent x" by (simp add: exponent_def)
  assume "- 1022 < exponent x"
  then have "exponent x = \<lfloor>log 2 \<bar>x\<bar>\<rfloor>" by (simp add: exponent_def max_def split: if_splits)
  then show "pow2 (exponent x) \<le> \<bar>x\<bar>" using binade(1) [OF assms] by simp
qed

text \<open>Rounding does not cross a float64 value: below.\<close>

lemma round64_pos_ge:
  assumes c: "is_float64 c" and cx: "c \<le> x" and x: "0 < x"
  shows "c \<le> round64 x"
proof -
  define K where "K = exponent x"
  define u where "u = pow2 (K - 52)"
  define r where "r = round_even (x / u)"
  have u: "0 < u" by (simp add: u_def pow2_pos)
  have rx: "round64 x = real_of_int r * u" using x by (simp add: round64_def r_def u_def K_def)
  have xn: "x \<noteq> 0" using x by simp
  have r0: "0 \<le> r"
  proof -
    have "real_of_int 0 \<le> x / u" using x u by simp
    then show ?thesis unfolding r_def by (rule round_even_ge)
  qed
  show ?thesis
  proof (cases "c \<le> 0")
    case True
    have "0 \<le> real_of_int r * u" using r0 u by simp
    with True show ?thesis unfolding rx by linarith
  next
    case False
    then have cp: "0 < c" by simp
    from c obtain m e where ce: "c = real_of_int m * pow2 e" and m: "\<bar>m\<bar> \<le> 2 ^ 53"
      and e: "- 1074 \<le> e" unfolding is_float64_def by blast
    show ?thesis
    proof (cases "K - 52 \<le> e")
      case True
      have "pow2 e = real_of_int (2 ^ nat (e - (K - 52))) * u"
        unfolding u_def using True by (rule pow2_ratio_int)
      then have cm: "c = real_of_int (m * 2 ^ nat (e - (K - 52))) * u" using ce by simp
      then have "real_of_int (m * 2 ^ nat (e - (K - 52))) \<le> x / u"
        using cx u by (simp add: field_simps)
      then have "m * 2 ^ nat (e - (K - 52)) \<le> r" unfolding r_def by (rule round_even_ge)
      then have "real_of_int (m * 2 ^ nat (e - (K - 52))) \<le> real_of_int r" by linarith
      then show ?thesis unfolding rx cm using u by (simp only: mult_le_cancel_right_pos)
    next
      case False
      then have eK: "e \<le> K - 53" by simp
      with e have "- 1022 < K" by simp
      then have lo: "pow2 K \<le> \<bar>x\<bar>" unfolding K_def using exponent_bounds(2) [OF xn] by simp
      have "c \<le> 2 ^ 53 * pow2 e"
      proof -
        have "m \<le> 2 ^ 53" using m by linarith
        then have "real_of_int m \<le> real_of_int (2 ^ 53)" by (simp only: of_int_le_iff)
        then have "real_of_int m \<le> 2 ^ 53" by simp
        then show ?thesis unfolding ce using pow2_pos [of e] by simp
      qed
      also have "\<dots> \<le> 2 ^ 53 * pow2 (K - 53)" using pow2_mono [OF eK] by simp
      also have "\<dots> = pow2 K"
      proof -
        have "pow2 K = real_of_int (2 ^ nat (K - (K - 53))) * pow2 (K - 53)"
          by (rule pow2_ratio_int) simp
        then show ?thesis by simp
      qed
      finally have cK: "c \<le> pow2 K" .
      have K2: "pow2 K = real_of_int (2 ^ 52) * u"
      proof -
        have "pow2 K = real_of_int (2 ^ nat (K - (K - 52))) * pow2 (K - 52)"
          by (rule pow2_ratio_int) simp
        then show ?thesis by (simp add: u_def)
      qed
      have "real_of_int (2 ^ 52) \<le> x / u" using lo x u unfolding K2 by (simp add: field_simps)
      then have "2 ^ 52 \<le> r" unfolding r_def by (rule round_even_ge)
      then have "real_of_int (2 ^ 52) \<le> real_of_int r" by linarith
      then have "pow2 K \<le> real_of_int r * u"
        unfolding K2 using u by (simp only: mult_le_cancel_right_pos)
      with cK show ?thesis unfolding rx by linarith
    qed
  qed
qed

text \<open>Rounding does not cross a float64 value: above.\<close>

lemma round64_pos_le:
  assumes c: "is_float64 c" and cx: "x \<le> c" and x: "0 < x"
  shows "round64 x \<le> c"
proof -
  define K where "K = exponent x"
  define u where "u = pow2 (K - 52)"
  define r where "r = round_even (x / u)"
  have u: "0 < u" by (simp add: u_def pow2_pos)
  have rx: "round64 x = real_of_int r * u" using x by (simp add: round64_def r_def u_def K_def)
  have xn: "x \<noteq> 0" using x by simp
  from c obtain m e where ce: "c = real_of_int m * pow2 e" and m: "\<bar>m\<bar> \<le> 2 ^ 53"
    and e: "- 1074 \<le> e" unfolding is_float64_def by blast
  have "\<exists>n. c = real_of_int n * u"
  proof (cases "K - 52 \<le> e")
    case True
    have "pow2 e = real_of_int (2 ^ nat (e - (K - 52))) * u"
      unfolding u_def using True by (rule pow2_ratio_int)
    then have "c = real_of_int (m * 2 ^ nat (e - (K - 52))) * u" using ce by simp
    then show ?thesis by blast
  next
    case False
    then have eK: "e \<le> K - 53" by simp
    with e have "- 1022 < K" by simp
    then have lo: "pow2 K \<le> \<bar>x\<bar>" unfolding K_def using exponent_bounds(2) [OF xn] by simp
    have "c \<le> 2 ^ 53 * pow2 e"
    proof -
      have "m \<le> 2 ^ 53" using m by linarith
      then have "real_of_int m \<le> real_of_int (2 ^ 53)" by (simp only: of_int_le_iff)
      then have "real_of_int m \<le> 2 ^ 53" by simp
      then show ?thesis unfolding ce using pow2_pos [of e] by simp
    qed
    also have "\<dots> \<le> 2 ^ 53 * pow2 (K - 53)" using pow2_mono [OF eK] by simp
    also have "\<dots> = pow2 K"
    proof -
      have "pow2 K = real_of_int (2 ^ nat (K - (K - 53))) * pow2 (K - 53)"
        by (rule pow2_ratio_int) simp
      then show ?thesis by simp
    qed
    finally have cK: "c \<le> pow2 K" .
    have K2: "pow2 K = real_of_int (2 ^ 52) * u"
    proof -
      have "pow2 K = real_of_int (2 ^ nat (K - (K - 52))) * pow2 (K - 52)"
        by (rule pow2_ratio_int) simp
      then show ?thesis by (simp add: u_def)
    qed
    from lo x cx cK have "c = pow2 K" by simp
    then show ?thesis using K2 by blast
  qed
  then obtain n where cn: "c = real_of_int n * u" by blast
  then have "x / u \<le> real_of_int n" using cx u by (simp add: field_simps)
  then have "r \<le> n" unfolding r_def by (rule round_even_le)
  then have "real_of_int r \<le> real_of_int n" by linarith
  then show ?thesis unfolding rx cn using u by (simp only: mult_le_cancel_right_pos)
qed

lemma floor_minus_cases:
  "\<lfloor>- q\<rfloor> = (if q = real_of_int \<lfloor>q\<rfloor> then - \<lfloor>q\<rfloor> else - \<lfloor>q\<rfloor> - 1)"
proof (cases "q = real_of_int \<lfloor>q\<rfloor>")
  case True
  then have "- q = real_of_int (- \<lfloor>q\<rfloor>)" by simp
  then have "\<lfloor>- q\<rfloor> = - \<lfloor>q\<rfloor>" by (metis floor_of_int)
  with True show ?thesis by simp
next
  case False
  define f where "f = \<lfloor>q\<rfloor>"
  have b: "real_of_int f \<le> q" "q < real_of_int f + 1" unfolding f_def by linarith+
  from False b have "real_of_int f < q" by (auto simp: less_le f_def)
  with b have "real_of_int (- f - 1) \<le> - q" "- q < real_of_int (- f - 1) + 1" by simp_all
  then have "\<lfloor>- q\<rfloor> = - f - 1" by (rule floor_unique)
  then have "\<lfloor>- q\<rfloor> = - \<lfloor>q\<rfloor> - 1" by (simp add: f_def)
  with False show ?thesis by simp
qed

lemma round_even_minus: "round_even (- q) = - round_even q"
proof -
  define f where "f = \<lfloor>q\<rfloor>"
  have b: "real_of_int f \<le> q" "q < real_of_int f + 1" unfolding f_def by linarith+
  show ?thesis
  proof (cases "q = real_of_int f")
    case True
    then show ?thesis by (metis of_int_minus round_even_int)
  next
    case False
    then have fm: "\<lfloor>- q\<rfloor> = - f - 1" using floor_minus_cases [of q] by (simp add: f_def)
    have l: "round_even q = (if q - real_of_int f < 1 / 2 then f
         else if 1 / 2 < q - real_of_int f then f + 1
         else if even f then f else f + 1)"
      by (simp add: round_even_def f_def)
    have r: "round_even (- q) = (if - q - real_of_int (- f - 1) < 1 / 2 then - f - 1
         else if 1 / 2 < - q - real_of_int (- f - 1) then (- f - 1) + 1
         else if even (- f - 1) then - f - 1 else (- f - 1) + 1)"
      unfolding round_even_def fm Let_def ..
    show ?thesis unfolding l r using False b by auto
  qed
qed

lemma exponent_minus: "exponent (- x) = exponent x"
  by (simp add: exponent_def)

lemma round64_minus: "round64 (- x) = - round64 x"
  by (simp add: round64_def exponent_minus round_even_minus)

lemma is_float64_minus: "is_float64 (- c) = is_float64 c"
proof -
  have "is_float64 (- c)" if "is_float64 c" for c
  proof -
    from that obtain m e where "c = real_of_int m * pow2 e" "\<bar>m\<bar> \<le> 2 ^ 53" "- 1074 \<le> e"
      unfolding is_float64_def by blast
    then have "- c = real_of_int (- m) * pow2 e" "\<bar>- m\<bar> \<le> 2 ^ 53" "- 1074 \<le> e" by simp_all
    then show ?thesis unfolding is_float64_def by blast
  qed
  from this [of c] this [of "- c"] show ?thesis by auto
qed

lemma is_float64_zero: "is_float64 0"
  unfolding is_float64_def by (intro exI [of _ 0]) simp

lemma round64_zero: "round64 0 = 0"
  by (simp add: round64_def)

text \<open>Rounding to float64 does not cross a float64 value.\<close>

lemma round64_ge:
  assumes c: "is_float64 c" and cx: "c \<le> x"
  shows "c \<le> round64 x"
proof -
  consider "0 < x" | "x = 0" | "x < 0" by linarith
  then show ?thesis
  proof cases
    case 1
    with c cx show ?thesis by (rule round64_pos_ge)
  next
    case 2
    with cx show ?thesis by (simp add: round64_zero)
  next
    case 3
    have "round64 (- x) \<le> - c"
      using c cx 3 by (intro round64_pos_le) (simp_all add: is_float64_minus)
    then show ?thesis by (simp add: round64_minus)
  qed
qed

lemma round64_le:
  assumes c: "is_float64 c" and cx: "x \<le> c"
  shows "round64 x \<le> c"
proof -
  have "- c \<le> round64 (- x)"
    using c cx by (intro round64_ge) (simp_all add: is_float64_minus)
  then show ?thesis by (simp add: round64_minus)
qed

lemma round64_exact: "is_float64 c \<Longrightarrow> round64 c = c"
  using round64_ge [of c c] round64_le [of c c] by simp

lemma is_float64_int: "\<bar>n\<bar> \<le> 2 ^ 53 \<Longrightarrow> is_float64 (real_of_int n)"
  unfolding is_float64_def by (intro exI [of _ n] exI [of _ 0]) (simp add: pow2_def)

text \<open>The value of a rounding, once the binade of the argument is known.\<close>

lemma round64_at:
  assumes "pow2 k \<le> \<bar>x\<bar>" and "\<bar>x\<bar> < pow2 (k + 1)" and "- 1022 \<le> k"
  shows "round64 x = real_of_int (round_even (x / pow2 (k - 52))) * pow2 (k - 52)"
proof -
  have "\<lfloor>log 2 \<bar>x\<bar>\<rfloor> = k" using assms(1,2) by (rule floor_log_at)
  then have e: "exponent x = k" using assms(3) by (simp add: exponent_def)
  have "x \<noteq> 0" using assms(1) pow2_pos [of k] by auto
  then show ?thesis by (simp add: round64_def e)
qed

text \<open>The rounding error.\<close>

lemma round64_error:
  assumes "\<bar>x\<bar> \<le> pow2 k" and "- 1022 \<le> k"
  shows "\<bar>round64 x - x\<bar> \<le> pow2 (k - 53)"
proof (cases "x = 0")
  case True
  then show ?thesis using pow2_pos [of "k - 53"] by (simp add: round64_zero)
next
  case False
  define u where "u = pow2 (exponent x - 52)"
  have u: "0 < u" by (simp add: u_def pow2_pos)
  have "pow2 \<lfloor>log 2 \<bar>x\<bar>\<rfloor> \<le> pow2 k" using binade(1) [OF False] assms(1) by linarith
  then have "\<lfloor>log 2 \<bar>x\<bar>\<rfloor> \<le> k" by (simp add: pow2_def)
  then have ek: "exponent x \<le> k" using assms(2) by (simp add: exponent_def)
  have "round64 x - x = (real_of_int (round_even (x / u)) - x / u) * u"
    using False u by (simp add: round64_def u_def field_simps)
  then have "\<bar>round64 x - x\<bar> = \<bar>real_of_int (round_even (x / u)) - x / u\<bar> * u"
    using u by (simp add: abs_mult)
  also have "\<dots> \<le> 1 / 2 * u" using round_even_near [of "x / u"] u
    by (intro mult_right_mono) simp_all
  also have "\<dots> = pow2 (exponent x - 53)"
  proof -
    have "pow2 (exponent x - 52) = real_of_int (2 ^ nat ((exponent x - 52) - (exponent x - 53))) * pow2 (exponent x - 53)"
      by (rule pow2_ratio_int) simp
    then show ?thesis by (simp add: u_def)
  qed
  also have "\<dots> \<le> pow2 (k - 53)" using ek by (intro pow2_mono) simp
  finally show ?thesis .
qed

section \<open>Properties of the geo-projection\<close>

lemma sec_tan_pos:
  assumes "- (pi / 2) < (p::real)" "p < pi / 2"
  shows "0 < tan p + 1 / cos p"
proof -
  have c: "0 < cos p" using assms by (simp add: cos_gt_zero_pi)
  have s: "- 1 < sin p"
  proof -
    have "sin p \<noteq> - 1"
    proof
      assume "sin p = - 1"
      then have "cos p = 0" using sin_cos_squared_add [of p] by simp
      with c show False by simp
    qed
    moreover have "- 1 \<le> sin p" by simp
    ultimately show ?thesis by linarith
  qed
  have "tan p + 1 / cos p = (sin p + 1) / cos p"
    by (simp add: tan_def add_divide_distrib)
  also have "0 < \<dots>" using c s by simp
  finally show ?thesis .
qed

text \<open>The hyperbolic sine of the Mercator ordinate is the tangent of the latitude.\<close>

lemma sinh_mercator:
  assumes "- (pi / 2) < (p::real)" "p < pi / 2"
  shows "0.5 * (exp (ln (tan p + 1 / cos p)) - exp (- ln (tan p + 1 / cos p))) = tan p"
proof -
  have c: "0 < cos p" using assms by (simp add: cos_gt_zero_pi)
  have pos: "0 < tan p + 1 / cos p" using assms by (rule sec_tan_pos)
  have "0 < (sin p + 1) / cos p" using pos by (simp add: tan_def add_divide_distrib)
  then have s1: "sin p + 1 \<noteq> 0" by auto
  have e1: "exp (ln (tan p + 1 / cos p)) = (sin p + 1) / cos p"
    using pos by (simp add: tan_def add_divide_distrib)
  have e2: "exp (- ln (tan p + 1 / cos p)) = cos p / (sin p + 1)"
    using pos by (simp add: exp_minus tan_def add_divide_distrib[symmetric])
  have sq: "cos p * cos p = (1 - sin p) * (1 + sin p)"
    using sin_cos_squared_add [of p] by (simp add: power2_eq_square algebra_simps)
  have inv: "cos p / (sin p + 1) = (1 - sin p) / cos p"
    using c s1 sq by (simp add: frac_eq_eq algebra_simps)
  have "(sin p + 1) / cos p - (1 - sin p) / cos p = 2 * sin p / cos p"
    by (simp add: diff_divide_distrib[symmetric])
  then show ?thesis unfolding e1 e2 inv by (simp add: tan_def)
qed

lemma roundtrip_lat:
  assumes "- 90 < (lat::real)" "lat < 90"
  shows "180 / pi * arctan (0.5 * (exp (ln (tan (lat * pi / 180) + 1 / cos (lat * pi / 180)))
           - exp (- ln (tan (lat * pi / 180) + 1 / cos (lat * pi / 180))))) = lat"
proof -
  let ?p = "lat * pi / 180"
  have "pi * (- 90) < pi * lat"
    using assms(1) pi_gt_zero by (simp only: mult_less_cancel_left_pos)
  then have lo: "- (pi / 2) < ?p" by (simp add: field_simps)
  have "pi * lat < pi * 90"
    using assms(2) pi_gt_zero by (simp only: mult_less_cancel_left_pos)
  then have hi: "?p < pi / 2" by (simp add: field_simps)
  have a: "arctan (tan ?p) = ?p" using lo hi by (rule arctan_tan)
  have "180 / pi * ?p = lat" using pi_gt_zero by simp
  then show ?thesis unfolding sinh_mercator [OF lo hi] a .
qed

text \<open>
  Claim C9. For every latitude strictly between -90 and +90 degrees, every longitude and
  every zoom level, \<^verbatim>\<open>LatLonToPixels\<close> followed by \<^verbatim>\<open>PixelsToLatLon\<close> at the same zoom gives
  back the latitude and the longitude, exactly over the real numbers.
\<close>

theorem projection_roundtrip:
  assumes "- 90 < lat" and "lat < 90"
  shows "(case LatLonToPixels lat lon zoom of (x, y) \<Rightarrow> PixelsToLatLon x y zoom) = (lat, lon)"
proof -
  let ?k = "2 powr (real_of_int zoom) * tileSize"
  let ?L = "ln (tan (lat * pi / 180) + 1 / cos (lat * pi / 180))"
  have t: "tileSize \<noteq> 0" by (simp add: tileSize_def)
  have n: "pi - 2 * pi * ((1 - ?L / pi) / 2 * 2 powr (real_of_int zoom) * tileSize) / ?k = ?L"
    using t by (simp add: field_simps)
  have lon: "(lon + 180) / 360 * 2 powr (real_of_int zoom) * tileSize / ?k * 360 - 180 = lon"
    using t by (simp add: field_simps)
  show ?thesis
    unfolding LatLonToPixels_def PixelsToLatLon_def Let_def prod.case n lon
    using roundtrip_lat [OF assms] by simp
qed

text \<open>The round trip at latitude 0, longitude 0, zoom 0.\<close>

theorem projection_roundtrip_witness:
  "- 90 < (0::real) \<and> (0::real) < 90 \<and>
   (case LatLonToPixels 0 0 0 of (x, y) \<Rightarrow> PixelsToLatLon x y 0) = (0, 0)"
  using projection_roundtrip [of 0 0 0] by simp

section \<open>Properties of the snapshot cache\<close>

subsection \<open>Parsing one record\<close>

lemma is_nil_iff: "is_nil v \<longleftrightarrow> v = JNull"
  by (cases v) simp_all

lemma as_float64_Some: "as_float64 v = Some x \<longleftrightarrow> v = JNum x"
  by (cases v) auto

lemma as_string_Some: "as_string v = Some x \<longleftrightarrow> v = JStr x"
  by (cases v) auto

lemma as_bool_Some: "as_bool v = Some x \<longleftrightarrow> v = JBool x"
  by (cases v) auto

lemma index_Some: "index s i = Some v \<longleftrightarrow> i < length s \<and> s ! i = v"
  by (auto simp: index_def)

text \<open>What a record that yields a flight looks like, and the flight it yields.\<close>

lemma body_flight:
  assumes "FetchFlights_body wild s = Some (Some f)"
  shows "\<exists>lon lat cs icao ground origin.
           10 < length s \<and> s ! 5 = JNum lon \<and> s ! 6 = JNum lat \<and> s ! 1 = JStr cs \<and>
           s ! 0 = JStr icao \<and> s ! 8 = JBool ground \<and> s ! 2 = JStr origin \<and>
           f = \<lparr>Icao24 = icao,
                Callsign = (if TrimSpace cs = [] then ''N/A'' else TrimSpace cs),
                Lon = lon, Lat = lat,
                VelocityKts =
                  go_int wild (fmul (case s ! 9 of JNum x \<Rightarrow> x | _ \<Rightarrow> 0) (round64 1.94384)),
                Heading = (case s ! 10 of JNum x \<Rightarrow> x | _ \<Rightarrow> 0),
                AltitudeFt =
                  go_int wild (fmul (case s ! 7 of JNum x \<Rightarrow> x | _ \<Rightarrow> 0) (round64 3.28084)),
                OnGround = ground, Origin = origin,
                Category = (if length s > 17 \<and> s ! 17 \<noteq> JNull
                            then (case categoryMap (go_int wild (case s ! 17 of JNum x \<Rightarrow> x | _ \<Rightarrow> 0)) of
                                    Some val \<Rightarrow> val | None \<Rightarrow> ''Unknown'')
                            else ''Unknown''),
                Destination = []\<rparr>"
  using assms unfolding FetchFlights_body_def Let_def
  by (auto simp: bind_eq_Some_conv is_nil_iff as_float64_Some as_string_Some as_bool_Some
        index_Some split: if_splits)

text \<open>A record is skipped only for a null longitude or latitude.\<close>

lemma body_skip:
  assumes "FetchFlights_body wild s = Some None"
  shows "(5 < length s \<and> s ! 5 = JNull) \<or> (6 < length s \<and> s ! 6 = JNull)"
  using assms unfolding FetchFlights_body_def Let_def
  by (auto simp: bind_eq_Some_conv is_nil_iff index_Some split: if_splits)

lemma body_null_lon: "5 < length s \<Longrightarrow> s ! 5 = JNull \<Longrightarrow> FetchFlights_body wild s = Some None"
  by (simp add: FetchFlights_body_def index_def)

lemma body_null_lat: "6 < length s \<Longrightarrow> s ! 6 = JNull \<Longrightarrow> FetchFlights_body wild s = Some None"
  by (simp add: FetchFlights_body_def index_def)

text \<open>A record of the expected shape yields a flight.\<close>

lemma body_total:
  assumes "10 < length s"
    and "\<exists>x. s ! 0 = JStr x" and "\<exists>x. s ! 1 = JStr x" and "\<exists>x. s ! 2 = JStr x"
    and "\<exists>x. s ! 5 = JNum x" and "\<exists>x. s ! 6 = JNum x" and "\<exists>b. s ! 8 = JBool b"
    and "s ! 7 = JNull \<or> (\<exists>x. s ! 7 = JNum x)"
    and "s ! 9 = JNull \<or> (\<exists>x. s ! 9 = JNum x)"
    and "s ! 10 = JNull \<or> (\<exists>x. s ! 10 = JNum x)"
    and "length s \<le> 17 \<or> s ! 17 = JNull \<or> (\<exists>x. s ! 17 = JNum x)"
  shows "\<exists>f. FetchFlights_body wild s = Some (Some f)"
proof -
  from assms(2-7) obtain icao cs origin lon lat ground where v: "s ! 0 = JStr icao"
    "s ! 1 = JStr cs" "s ! 2 = JStr origin" "s ! 5 = JNum lon" "s ! 6 = JNum lat"
    "s ! 8 = JBool ground" by blast
  have a: "\<exists>x. (if \<not> is_nil (s ! 7) then as_float64 (s ! 7) else Some 0) = Some x"
    using assms(8) by auto
  have b: "\<exists>x. (if \<not> is_nil (s ! 9) then as_float64 (s ! 9) else Some 0) = Some x"
    using assms(9) by auto
  have c: "\<exists>x. (if \<not> is_nil (s ! 10) then as_float64 (s ! 10) else Some 0) = Some x"
    using assms(10) by auto
  have d: "\<exists>x. (if length s > 17 \<and> \<not> is_nil (s ! 17)
                 then Option.bind (as_float64 (s ! 17))
                        (\<lambda>c. Some (case categoryMap (go_int wild c) of
                                      Some val \<Rightarrow> val | None \<Rightarrow> ''Unknown''))
                 else Some ''Unknown'') = Some x"
    using assms(11) by auto
  from a b c d obtain altM velMs heading catStr where
    w: "(if \<not> is_nil (s ! 7) then as_float64 (s ! 7) else Some 0) = Some altM"
       "(if \<not> is_nil (s ! 9) then as_float64 (s ! 9) else Some 0) = Some velMs"
       "(if \<not> is_nil (s ! 10) then as_float64 (s ! 10) else Some 0) = Some heading"
       "(if length s > 17 \<and> \<not> is_nil (s ! 17)
         then Option.bind (as_float64 (s ! 17))
                (\<lambda>c. Some (case categoryMap (go_int wild c) of
                              Some val \<Rightarrow> val | None \<Rightarrow> ''Unknown''))
         else Some ''Unknown'') = Some catStr"
    by blast
  show ?thesis
    unfolding FetchFlights_body_def Let_def
    using assms(1) v w by (auto simp: index_def)
qed

lemma body_altitude:
  "FetchFlights_body wild s = Some (Some f) \<Longrightarrow>
   AltitudeFt f = go_int wild (fmul (case s ! 7 of JNum x \<Rightarrow> x | _ \<Rightarrow> 0) (round64 3.28084))"
  by (drule body_flight) auto

lemma body_velocity:
  "FetchFlights_body wild s = Some (Some f) \<Longrightarrow>
   VelocityKts f = go_int wild (fmul (case s ! 9 of JNum x \<Rightarrow> x | _ \<Rightarrow> 0) (round64 1.94384))"
  by (drule body_flight) auto

lemma body_heading:
  "FetchFlights_body wild s = Some (Some f) \<Longrightarrow>
   Heading f = (case s ! 10 of JNum x \<Rightarrow> x | _ \<Rightarrow> 0)"
  by (drule body_flight) auto

lemma body_category:
  "FetchFlights_body wild s = Some (Some f) \<Longrightarrow>
   Category f = (if length s > 17 \<and> s ! 17 \<noteq> JNull
                 then (case categoryMap (go_int wild (case s ! 17 of JNum x \<Rightarrow> x | _ \<Rightarrow> 0)) of
                         Some val \<Rightarrow> val | None \<Rightarrow> ''Unknown'')
                 else ''Unknown'')"
  by (drule body_flight) auto

text \<open>The conversion to \<^verbatim>\<open>int\<close> of zero, and of a value whose integer part fits.\<close>

lemma go_int_zero: "go_int wild 0 = 0"
  by (simp add: go_int_def fits_int64_def toward_zero_def)

lemma go_int_fits: "fits_int64 x \<Longrightarrow> go_int wild x = (if 0 \<le> x then \<lfloor>x\<rfloor> else \<lceil>x\<rceil>)"
  by (simp add: go_int_def toward_zero_def)

lemma fmul_zero: "fmul 0 c = 0"
  by (simp add: fmul_def round64_zero)

text \<open>The two constants, and the products of the examples, in \<^verbatim>\<open>float64\<close>.\<close>

lemma feet_const: "round64 (3.28084) = 7387794900731109 / 2251799813685248"
proof -
  have "round64 (3.28084) =
      real_of_int (round_even ((3.28084) / pow2 (1 - 52))) * pow2 (1 - 52)"
    by (rule round64_at) (simp_all add: pow2_def powr_minus_divide)
  then show ?thesis
    by (simp add: pow2_def round_even_def Let_def powr_minus_divide)
qed

lemma knots_const: "round64 (1.94384) = 8754277099667865 / 4503599627370496"
proof -
  have "round64 (1.94384) =
      real_of_int (round_even ((1.94384) / pow2 (0 - 52))) * pow2 (0 - 52)"
    by (rule round64_at) (simp_all add: pow2_def powr_minus_divide)
  then show ?thesis
    by (simp add: pow2_def round_even_def Let_def powr_minus_divide)
qed

lemma feet_1000: "round64 (1000 * (7387794900731109 / 2251799813685248)) = 901830432218153 / 274877906944"
proof -
  have "round64 (1000 * (7387794900731109 / 2251799813685248)) =
      real_of_int (round_even ((1000 * (7387794900731109 / 2251799813685248)) / pow2 (11 - 52))) * pow2 (11 - 52)"
    by (rule round64_at) (simp_all add: pow2_def powr_minus_divide)
  then show ?thesis
    by (simp add: pow2_def round_even_def Let_def powr_minus_divide)
qed

lemma knots_10: "round64 (10 * (8754277099667865 / 4503599627370496)) = 21372746825361 / 1099511627776"
proof -
  have "round64 (10 * (8754277099667865 / 4503599627370496)) =
      real_of_int (round_even ((10 * (8754277099667865 / 4503599627370496)) / pow2 (4 - 52))) * pow2 (4 - 52)"
    by (rule round64_at) (simp_all add: pow2_def powr_minus_divide)
  then show ?thesis
    by (simp add: pow2_def round_even_def Let_def powr_minus_divide)
qed

lemma feet_minus_1: "round64 (- 1 * (7387794900731109 / 2251799813685248)) = (- (7387794900731109 / 2251799813685248))"
proof -
  have "round64 (- 1 * (7387794900731109 / 2251799813685248)) =
      real_of_int (round_even ((- 1 * (7387794900731109 / 2251799813685248)) / pow2 (1 - 52))) * pow2 (1 - 52)"
    by (rule round64_at) (simp_all add: pow2_def powr_minus_divide)
  then show ?thesis
    by (simp add: pow2_def round_even_def Let_def powr_minus_divide)
qed

lemma feet_one: "round64 (5490788489984877 / 18014398509481984 * (7387794900731109 / 2251799813685248)) = 1"
proof -
  have "round64 (5490788489984877 / 18014398509481984 * (7387794900731109 / 2251799813685248)) =
      real_of_int (round_even ((5490788489984877 / 18014398509481984 * (7387794900731109 / 2251799813685248)) / pow2 (-1 - 52))) * pow2 (-1 - 52)"
    by (rule round64_at) (simp_all add: pow2_def powr_minus_divide)
  then show ?thesis
    by (simp add: pow2_def round_even_def Let_def powr_minus_divide)
qed

lemma feet_huge: "round64 (10000000000000000000 * (7387794900731109 / 2251799813685248)) = 32808400000000000000"
proof -
  have "round64 (10000000000000000000 * (7387794900731109 / 2251799813685248)) =
      real_of_int (round_even ((10000000000000000000 * (7387794900731109 / 2251799813685248)) / pow2 (64 - 52))) * pow2 (64 - 52)"
    by (rule round64_at) (simp_all add: pow2_def powr_minus_divide)
  then show ?thesis
    by (simp add: pow2_def round_even_def Let_def powr_minus_divide)
qed


lemma go_int_feet_1000: "go_int wild (fmul 1000 (round64 3.28084)) = 3280"
  unfolding fmul_def feet_const feet_1000
  by (simp add: go_int_def fits_int64_def toward_zero_def)

lemma go_int_knots_10: "go_int wild (fmul 10 (round64 1.94384)) = 19"
  unfolding fmul_def knots_const knots_10
  by (simp add: go_int_def fits_int64_def toward_zero_def)

lemma go_int_feet_minus_1: "go_int wild (fmul (- 1) (round64 3.28084)) = - 3"
  unfolding fmul_def feet_const feet_minus_1
  by (simp add: go_int_def fits_int64_def toward_zero_def)

lemma floor_feet_minus_1: "\<lfloor>fmul (- 1) (round64 3.28084)\<rfloor> = - 4"
  unfolding fmul_def feet_const feet_minus_1 by simp

lemma go_int_feet_one: "go_int wild (fmul (5490788489984877 / 18014398509481984) (round64 3.28084)) = 1"
  unfolding fmul_def feet_const feet_one
  by (simp add: go_int_def fits_int64_def toward_zero_def)

lemma go_int_feet_huge: "go_int amd64 (fmul 10000000000000000000 (round64 3.28084)) = - (2 ^ 63)"
  unfolding fmul_def feet_const feet_huge
  by (simp add: go_int_def fits_int64_def toward_zero_def amd64_def)


text \<open>The sign of a product in \<^verbatim>\<open>float64\<close> with a positive constant.\<close>

lemma fmul_sign:
  assumes "0 < c"
  shows "(0 \<le> m \<longrightarrow> 0 \<le> fmul m c) \<and> (m \<le> 0 \<longrightarrow> fmul m c \<le> 0)"
proof (intro conjI impI)
  assume "0 \<le> m"
  then have "0 \<le> m * c" using assms by simp
  then show "0 \<le> fmul m c" unfolding fmul_def by (rule round64_ge [OF is_float64_zero])
next
  assume "m \<le> 0"
  then have "m * c \<le> 0" using assms by (simp add: mult_le_0_iff)
  then show "fmul m c \<le> 0" unfolding fmul_def by (rule round64_le [OF is_float64_zero])
qed

lemma go_int_fmul:
  assumes "0 < c" and "fits_int64 (fmul m c)"
  shows "go_int wild (fmul m c) = (if 0 \<le> m then \<lfloor>fmul m c\<rfloor> else \<lceil>fmul m c\<rceil>)"
proof (cases "0 \<le> m")
  case True
  then have "0 \<le> fmul m c" using fmul_sign [OF assms(1), of m] by simp
  then show ?thesis using True assms(2) by (simp add: go_int_def toward_zero_def)
next
  case False
  then have le: "fmul m c \<le> 0" using fmul_sign [OF assms(1), of m] by simp
  show ?thesis
  proof (cases "fmul m c = 0")
    case True
    then show ?thesis using assms(2) by (simp add: go_int_def toward_zero_def)
  next
    case ne: False
    with le have "\<not> 0 \<le> fmul m c" by simp
    then show ?thesis using False assms(2) by (simp add: go_int_def toward_zero_def)
  qed
qed

lemma feet_const_pos: "0 < round64 3.28084"
  unfolding feet_const by simp

lemma knots_const_pos: "0 < round64 1.94384"
  unfolding knots_const by simp

text \<open>
  Claim C8, as amended. A record whose longitude or latitude is null is dropped. A
  record of at least 11 entries whose transponder id, callsign and origin country are
  strings, whose longitude and latitude are numbers, whose on-ground entry is a boolean,
  whose altitude, velocity and heading are numbers or null and whose category, if
  present, is a number or null, yields a flight. In the flight, a null altitude, velocity
  or heading is zero; a category entry that is absent or null gives the label
  ``Unknown'', and a number gives the label of its integer part in the table, or
  ``Unknown'' when the table has none. The altitude in feet is the product with 3.28084
  as \<^verbatim>\<open>float64\<close> computes it (both the constant and the product rounded to the nearest
  value), cut to its integer part: the floor for an altitude that is not negative, the
  ceiling for a negative one; the velocity in knots is the same with 1.94384. This
  holds when the integer part fits into 64 bits; otherwise the result of the conversion
  depends on the platform. So 0 gives 0, 1000 m gives 3280 ft and 10 m/s gives 19 kt.
\<close>

theorem record_parsing:
  "(5 < length s \<and> s ! 5 = JNull \<longrightarrow> FetchFlights_body wild s = Some None) \<and>
   (6 < length s \<and> s ! 6 = JNull \<longrightarrow> FetchFlights_body wild s = Some None) \<and>
   (10 < length s \<and> (\<exists>x. s ! 0 = JStr x) \<and> (\<exists>x. s ! 1 = JStr x) \<and> (\<exists>x. s ! 2 = JStr x) \<and>
    (\<exists>x. s ! 5 = JNum x) \<and> (\<exists>x. s ! 6 = JNum x) \<and> (\<exists>b. s ! 8 = JBool b) \<and>
    (s ! 7 = JNull \<or> (\<exists>x. s ! 7 = JNum x)) \<and>
    (s ! 9 = JNull \<or> (\<exists>x. s ! 9 = JNum x)) \<and>
    (s ! 10 = JNull \<or> (\<exists>x. s ! 10 = JNum x)) \<and>
    (length s \<le> 17 \<or> s ! 17 = JNull \<or> (\<exists>x. s ! 17 = JNum x)) \<longrightarrow>
      (\<exists>g. FetchFlights_body wild s = Some (Some g))) \<and>
   (FetchFlights_body wild s = Some (Some f) \<longrightarrow>
      (s ! 7 = JNull \<longrightarrow> AltitudeFt f = 0) \<and>
      (s ! 9 = JNull \<longrightarrow> VelocityKts f = 0) \<and>
      (s ! 10 = JNull \<longrightarrow> Heading f = 0) \<and>
      (\<forall>h. s ! 10 = JNum h \<longrightarrow> Heading f = h) \<and>
      (length s \<le> 17 \<or> s ! 17 = JNull \<longrightarrow> Category f = ''Unknown'') \<and>
      (\<forall>c. 17 < length s \<and> s ! 17 = JNum c \<and> fits_int64 c \<longrightarrow>
           Category f = (case categoryMap (toward_zero c) of
                           Some l \<Rightarrow> l | None \<Rightarrow> ''Unknown'')) \<and>
      (\<forall>m. s ! 7 = JNum m \<and> fits_int64 (fmul m (round64 3.28084)) \<longrightarrow>
           AltitudeFt f = (if 0 \<le> m then \<lfloor>fmul m (round64 3.28084)\<rfloor>
                           else \<lceil>fmul m (round64 3.28084)\<rceil>)) \<and>
      (\<forall>v. s ! 9 = JNum v \<and> fits_int64 (fmul v (round64 1.94384)) \<longrightarrow>
           VelocityKts f = (if 0 \<le> v then \<lfloor>fmul v (round64 1.94384)\<rfloor>
                            else \<lceil>fmul v (round64 1.94384)\<rceil>)) \<and>
      (s ! 7 = JNum 0 \<longrightarrow> AltitudeFt f = 0) \<and>
      (s ! 7 = JNum 1000 \<longrightarrow> AltitudeFt f = 3280) \<and>
      (s ! 9 = JNum 0 \<longrightarrow> VelocityKts f = 0) \<and>
      (s ! 9 = JNum 10 \<longrightarrow> VelocityKts f = 19))"
proof (intro conjI impI allI)
  assume "5 < length s \<and> s ! 5 = JNull"
  then show "FetchFlights_body wild s = Some None" by (simp add: body_null_lon)
next
  assume "6 < length s \<and> s ! 6 = JNull"
  then show "FetchFlights_body wild s = Some None" by (simp add: body_null_lat)
next
  assume "10 < length s \<and> (\<exists>x. s ! 0 = JStr x) \<and> (\<exists>x. s ! 1 = JStr x) \<and> (\<exists>x. s ! 2 = JStr x) \<and>
    (\<exists>x. s ! 5 = JNum x) \<and> (\<exists>x. s ! 6 = JNum x) \<and> (\<exists>b. s ! 8 = JBool b) \<and>
    (s ! 7 = JNull \<or> (\<exists>x. s ! 7 = JNum x)) \<and>
    (s ! 9 = JNull \<or> (\<exists>x. s ! 9 = JNum x)) \<and>
    (s ! 10 = JNull \<or> (\<exists>x. s ! 10 = JNum x)) \<and>
    (length s \<le> 17 \<or> s ! 17 = JNull \<or> (\<exists>x. s ! 17 = JNum x))"
  then show "\<exists>g. FetchFlights_body wild s = Some (Some g)"
    by (intro body_total) simp_all
next
  assume b: "FetchFlights_body wild s = Some (Some f)"
  note alt = body_altitude [OF b] and vel = body_velocity [OF b]
  { assume "s ! 7 = JNull"
    then show "AltitudeFt f = 0" using alt by (simp add: fmul_zero go_int_zero) }
  { assume "s ! 9 = JNull"
    then show "VelocityKts f = 0" using vel by (simp add: fmul_zero go_int_zero) }
  { assume "s ! 10 = JNull" then show "Heading f = 0" using body_heading [OF b] by simp }
  { fix h assume "s ! 10 = JNum h" then show "Heading f = h" using body_heading [OF b] by simp }
  { assume "length s \<le> 17 \<or> s ! 17 = JNull"
    then show "Category f = ''Unknown''" using body_category [OF b] by auto }
  { fix c assume "17 < length s \<and> s ! 17 = JNum c \<and> fits_int64 c"
    then show "Category f = (case categoryMap (toward_zero c) of
                               Some l \<Rightarrow> l | None \<Rightarrow> ''Unknown'')"
      unfolding body_category [OF b] by (simp add: go_int_def) }
  { fix m assume m: "s ! 7 = JNum m \<and> fits_int64 (fmul m (round64 3.28084))"
    then have "AltitudeFt f = go_int wild (fmul m (round64 3.28084))"
      unfolding alt by simp
    then show "AltitudeFt f = (if 0 \<le> m then \<lfloor>fmul m (round64 3.28084)\<rfloor>
                               else \<lceil>fmul m (round64 3.28084)\<rceil>)"
      using go_int_fmul [OF feet_const_pos, of m wild] m by simp }
  { fix v assume v: "s ! 9 = JNum v \<and> fits_int64 (fmul v (round64 1.94384))"
    then have "VelocityKts f = go_int wild (fmul v (round64 1.94384))"
      unfolding vel by simp
    then show "VelocityKts f = (if 0 \<le> v then \<lfloor>fmul v (round64 1.94384)\<rfloor>
                                else \<lceil>fmul v (round64 1.94384)\<rceil>)"
      using go_int_fmul [OF knots_const_pos, of v wild] v by simp }
  { assume "s ! 7 = JNum 0"
    then show "AltitudeFt f = 0" unfolding alt by (simp add: fmul_zero go_int_zero) }
  { assume "s ! 7 = JNum 1000"
    then have "AltitudeFt f = go_int wild (fmul 1000 (round64 3.28084))" unfolding alt by simp
    then show "AltitudeFt f = 3280" unfolding go_int_feet_1000 . }
  { assume "s ! 9 = JNum 0"
    then show "VelocityKts f = 0" unfolding vel by (simp add: fmul_zero go_int_zero) }
  { assume "s ! 9 = JNum 10"
    then have "VelocityKts f = go_int wild (fmul 10 (round64 1.94384))" unfolding vel by simp
    then show "VelocityKts f = 19" unfolding go_int_knots_10 . }
qed

text \<open>The record \<open>state0\<close> and some of its variants.\<close>

lemma body_state0: "FetchFlights_body wild state0 = Some (Some parsed0)"
  using go_int_feet_1000 [of wild] go_int_knots_10 [of wild]
  by (simp add: FetchFlights_body_def state0_def parsed0_def index_def go_int_def
      fits_int64_def toward_zero_def TrimSpace_def isSpace1_def isSpace2_def isSpace3_def
      categoryMap_def)

lemma body_state0_negative:
  "FetchFlights_body wild (state0[7 := JNum (- 1)]) = Some (Some (parsed0\<lparr>AltitudeFt := - 3\<rparr>))"
  using go_int_feet_minus_1 [of wild] go_int_knots_10 [of wild]
  by (simp add: FetchFlights_body_def state0_def parsed0_def index_def go_int_def
      fits_int64_def toward_zero_def TrimSpace_def isSpace1_def isSpace2_def isSpace3_def
      categoryMap_def)

lemma body_state0_one:
  "FetchFlights_body wild (state0[7 := JNum (5490788489984877 / 18014398509481984)]) =
     Some (Some (parsed0\<lparr>AltitudeFt := 1\<rparr>))"
  using go_int_feet_one [of wild] go_int_knots_10 [of wild]
  by (simp add: FetchFlights_body_def state0_def parsed0_def index_def go_int_def
      fits_int64_def toward_zero_def TrimSpace_def isSpace1_def isSpace2_def isSpace3_def
      categoryMap_def)

lemma body_state0_short:
  "FetchFlights_body wild (take 11 (state0[7 := JNull, 9 := JNull, 10 := JNull])) =
     Some (Some (parsed0\<lparr>AltitudeFt := 0, VelocityKts := 0, Heading := 0,
                         Category := ''Unknown''\<rparr>))"
  by (simp add: FetchFlights_body_def state0_def parsed0_def index_def go_int_zero fmul_zero
      TrimSpace_def isSpace1_def isSpace2_def isSpace3_def)

lemma fits_feet_1000: "fits_int64 (fmul 1000 (round64 3.28084))"
  unfolding fmul_def feet_const feet_1000 by (simp add: fits_int64_def toward_zero_def)

lemma fits_knots_10: "fits_int64 (fmul 10 (round64 1.94384))"
  unfolding fmul_def knots_const knots_10 by (simp add: fits_int64_def toward_zero_def)

lemma floor_feet_1000: "\<lfloor>fmul 1000 (round64 3.28084)\<rfloor> = 3280"
  unfolding fmul_def feet_const feet_1000 by simp

lemma floor_knots_10: "\<lfloor>fmul 10 (round64 1.94384)\<rfloor> = 19"
  unfolding fmul_def knots_const knots_10 by simp

text \<open>
  Claim C8 as stated fails for a negative altitude: at -1 m the code stores -3 ft, where
  the floor of the product is -4, for the product of the real numbers and for the
  product in \<^verbatim>\<open>float64\<close> alike.
\<close>

theorem record_floor_counterexample:
  "map_option (map_option AltitudeFt) (FetchFlights_body amd64 (state0[7 := JNum (- 1)])) =
     Some (Some (- 3)) \<and>
   \<lfloor>(- 1) * 3.28084 :: real\<rfloor> = - 4 \<and>
   \<lfloor>fmul (- 1) (round64 3.28084)\<rfloor> = - 4"
  using floor_feet_minus_1 by (simp add: body_state0_negative)

text \<open>The amended claim on the record \<open>state0\<close>, on the same record with a null
  longitude, with a null latitude, and cut to eleven entries with null altitude, velocity
  and heading.\<close>

theorem record_parsing_witness:
  "FetchFlights_body amd64 (state0[5 := JNull]) = Some None \<and>
   FetchFlights_body amd64 (state0[6 := JNull]) = Some None \<and>
   FetchFlights_body amd64 state0 = Some (Some parsed0) \<and>
   fits_int64 (fmul 1000 (round64 3.28084)) \<and> \<lfloor>fmul 1000 (round64 3.28084)\<rfloor> = 3280 \<and>
   fits_int64 (fmul 10 (round64 1.94384)) \<and> \<lfloor>fmul 10 (round64 1.94384)\<rfloor> = 19 \<and>
   AltitudeFt parsed0 = 3280 \<and> VelocityKts parsed0 = 19 \<and> Heading parsed0 = 90 \<and>
   fits_int64 4 \<and> categoryMap (toward_zero 4) = Some ''Large'' \<and> Category parsed0 = ''Large'' \<and>
   FetchFlights_body amd64 (take 11 (state0[7 := JNull, 9 := JNull, 10 := JNull])) =
     Some (Some (parsed0\<lparr>AltitudeFt := 0, VelocityKts := 0, Heading := 0, Category := ''Unknown''\<rparr>))"
proof -
  let ?n = "take 11 (state0[7 := JNull, 9 := JNull, 10 := JNull])"
  let ?f = "parsed0\<lparr>AltitudeFt := 0, VelocityKts := 0, Heading := 0, Category := ''Unknown''\<rparr>"
  have c: "fits_int64 4" "categoryMap (toward_zero 4) = Some ''Large''"
    by (simp_all add: fits_int64_def toward_zero_def categoryMap_def)
  show ?thesis
    using record_parsing [of "state0[5 := JNull]" amd64 parsed0]
      record_parsing [of "state0[6 := JNull]" amd64 parsed0]
      record_parsing [of state0 amd64 parsed0] record_parsing [of ?n amd64 ?f]
      body_state0 [of amd64] body_state0_short [of amd64]
      fits_feet_1000 fits_knots_10 floor_feet_1000 floor_knots_10 c
    by (simp add: state0_def parsed0_def)
qed

text \<open>The conversion at the edges: an altitude of 0.3047999902464003 m, whose product
  with the constant is rounded to 1, is stored as 1 ft; an altitude of
  \<open>10\<^sup>1\<^sup>9\<close> m is out of range, and stored as what the platform gives.\<close>

lemma record_rounded_up:
  "map_option (map_option AltitudeFt)
     (FetchFlights_body amd64 (state0[7 := JNum (5490788489984877 / 18014398509481984)])) = Some (Some 1) \<and>
   \<lfloor>(5490788489984877 / 18014398509481984) * 3.28084 :: real\<rfloor> = 0"
  by (simp add: body_state0_one)

lemma record_out_of_range:
  "\<not> fits_int64 (fmul 10000000000000000000 (round64 3.28084)) \<and>
   go_int amd64 (fmul 10000000000000000000 (round64 3.28084)) = - (2 ^ 63)"
  unfolding fmul_def feet_const feet_huge
  by (simp add: go_int_def fits_int64_def toward_zero_def amd64_def)

subsection \<open>Records that make the fetch panic\<close>

lemma loop_panics:
  "s \<in> set states \<Longrightarrow> FetchFlights_body wild s = None \<Longrightarrow> FetchFlights_loop wild states acc = None"
proof (induction states arbitrary: acc)
  case Nil
  then show ?case by simp
next
  case (Cons a states)
  show ?case
  proof (cases "FetchFlights_body wild a")
    case None
    then show ?thesis by simp
  next
    case (Some r)
    with Cons.prems have "s \<in> set states" by auto
    then have "\<And>acc'. FetchFlights_loop wild states acc' = None"
      using Cons.IH Cons.prems(2) by blast
    with Some show ?thesis by (cases r) simp_all
  qed
qed

lemma body_panics:
  assumes "6 < length s" and "s ! 5 \<noteq> JNull" and "s ! 6 \<noteq> JNull"
    and "length s < 11 \<or> (\<forall>x. s ! 0 \<noteq> JStr x) \<or> (\<forall>x. s ! 1 \<noteq> JStr x) \<or>
         (\<forall>x. s ! 2 \<noteq> JStr x) \<or> (\<forall>b. s ! 8 \<noteq> JBool b)"
  shows "FetchFlights_body wild s = None"
proof (cases "FetchFlights_body wild s")
  case None
  then show ?thesis .
next
  case (Some r)
  show ?thesis
  proof (cases r)
    case None
    with Some have "FetchFlights_body wild s = Some None" by simp
    from body_skip [OF this] assms(2,3) show ?thesis by auto
  next
    case (Some f)
    with \<open>FetchFlights_body wild s = Some r\<close> have "FetchFlights_body wild s = Some (Some f)" by simp
    from body_flight [OF this] assms(4) show ?thesis by auto
  qed
qed

text \<open>A call goes to the network unless the cache is fresh and not empty.\<close>

lemma fetch_stale:
  assumes "\<not> (Since (clock w) (lastFetch fc) < cacheDuration \<and> cache fc \<noteq> [])"
  shows "fst (FetchFlights w lat lon r fc) =
     (case statesReply w of
        RequestError \<Rightarrow> Returned [] (Some ErrNewRequest)
      | TransportError \<Rightarrow> Returned [] (Some ErrTransport)
      | Response status b \<Rightarrow>
          (if status = 429 then Returned [] (Some ErrRateLimit)
           else if status \<noteq> 200 then Returned [] (Some (ErrStatus status))
           else case b of
               ReadError \<Rightarrow> Returned [] (Some ErrRead)
             | Undecodable \<Rightarrow> Returned [] (Some ErrDecode)
             | Decoded states \<Rightarrow>
                 (case FetchFlights_loop (outOfRange w) states [] of
                    None \<Rightarrow> Panicked
                  | Some fs \<Rightarrow> Returned fs None)))"
  using assms
  by (auto simp: FetchFlights_def Let_def split: prod.splits reply.splits body.splits option.splits)

text \<open>
  Claim C10. Parsing is total only under a precondition on the records: whenever the
  cache is not served and the remote response (status 200, a body that decodes) holds a
  record with a non-null longitude and latitude that has fewer than 11 entries, or whose
  transponder id, callsign or origin country is not a string (null included), or whose
  on-ground entry is not a boolean (null included), the call panics: it neither drops the
  record nor returns an error.
\<close>

theorem fetch_panics:
  assumes "\<not> (Since (clock w) (lastFetch fc) < cacheDuration \<and> cache fc \<noteq> [])"
    and "statesReply w = Response 200 (Decoded states)"
    and "s \<in> set states"
    and "6 < length s" and "s ! 5 \<noteq> JNull" and "s ! 6 \<noteq> JNull"
    and "length s < 11 \<or> (\<forall>x. s ! 0 \<noteq> JStr x) \<or> (\<forall>x. s ! 1 \<noteq> JStr x) \<or>
         (\<forall>x. s ! 2 \<noteq> JStr x) \<or> (\<forall>b. s ! 8 \<noteq> JBool b)"
  shows "fst (FetchFlights w lat lon r fc) = Panicked"
proof -
  have "FetchFlights_body (outOfRange w) s = None" using assms(4-7) by (rule body_panics)
  with assms(3) have "FetchFlights_loop (outOfRange w) states [] = None" by (rule loop_panics)
  then show ?thesis using fetch_stale [OF assms(1)] assms(2) by simp
qed


text \<open>The claim on five responses of one record each: \<open>state0\<close> cut to ten entries, and
  \<open>state0\<close> with a null transponder id, callsign, origin country, on-ground flag.\<close>

theorem fetch_panics_witness:
  "fst (FetchFlights (world_one\<lparr>statesReply := Response 200 (Decoded [take 10 state0])\<rparr>)
          60.25 24.875 1 (NewFlightClient [] [])) = Panicked \<and>
   fst (FetchFlights (world_one\<lparr>statesReply := Response 200 (Decoded [state0[0 := JNull]])\<rparr>)
          60.25 24.875 1 (NewFlightClient [] [])) = Panicked \<and>
   fst (FetchFlights (world_one\<lparr>statesReply := Response 200 (Decoded [state0[1 := JNull]])\<rparr>)
          60.25 24.875 1 (NewFlightClient [] [])) = Panicked \<and>
   fst (FetchFlights (world_one\<lparr>statesReply := Response 200 (Decoded [state0[2 := JNull]])\<rparr>)
          60.25 24.875 1 (NewFlightClient [] [])) = Panicked \<and>
   fst (FetchFlights (world_one\<lparr>statesReply := Response 200 (Decoded [state0[8 := JNull]])\<rparr>)
          60.25 24.875 1 (NewFlightClient [] [])) = Panicked"
  using
    fetch_panics [of "world_one\<lparr>statesReply := Response 200 (Decoded [take 10 state0])\<rparr>"
      "NewFlightClient [] []" "[take 10 state0]" "take 10 state0" "60.25" "24.875" 1]
    fetch_panics [of "world_one\<lparr>statesReply := Response 200 (Decoded [state0[0 := JNull]])\<rparr>"
      "NewFlightClient [] []" "[state0[0 := JNull]]" "state0[0 := JNull]" "60.25" "24.875" 1]
    fetch_panics [of "world_one\<lparr>statesReply := Response 200 (Decoded [state0[1 := JNull]])\<rparr>"
      "NewFlightClient [] []" "[state0[1 := JNull]]" "state0[1 := JNull]" "60.25" "24.875" 1]
    fetch_panics [of "world_one\<lparr>statesReply := Response 200 (Decoded [state0[2 := JNull]])\<rparr>"
      "NewFlightClient [] []" "[state0[2 := JNull]]" "state0[2 := JNull]" "60.25" "24.875" 1]
    fetch_panics [of "world_one\<lparr>statesReply := Response 200 (Decoded [state0[8 := JNull]])\<rparr>"
      "NewFlightClient [] []" "[state0[8 := JNull]]" "state0[8 := JNull]" "60.25" "24.875" 1]
  by (simp add: NewFlightClient_def state0_def)

subsection \<open>Failure and freshness\<close>

text \<open>The bounding box of the examples, in \<^verbatim>\<open>float64\<close>.\<close>

lemma lamin_value: "round64 (60.25 - 1) = 237 / 4"
proof -
  have "round64 (60.25 - 1) =
      real_of_int (round_even ((60.25 - 1) / pow2 (5 - 52))) * pow2 (5 - 52)"
    by (rule round64_at) (simp_all add: pow2_def powr_minus_divide)
  then show ?thesis
    by (simp add: pow2_def round_even_def Let_def powr_minus_divide)
qed

lemma lamax_value: "round64 (60.25 + 1) = 245 / 4"
proof -
  have "round64 (60.25 + 1) =
      real_of_int (round_even ((60.25 + 1) / pow2 (5 - 52))) * pow2 (5 - 52)"
    by (rule round64_at) (simp_all add: pow2_def powr_minus_divide)
  then show ?thesis
    by (simp add: pow2_def round_even_def Let_def powr_minus_divide)
qed

lemma lomin_value: "round64 (24.875 - 1) = 191 / 8"
proof -
  have "round64 (24.875 - 1) =
      real_of_int (round_even ((24.875 - 1) / pow2 (4 - 52))) * pow2 (4 - 52)"
    by (rule round64_at) (simp_all add: pow2_def powr_minus_divide)
  then show ?thesis
    by (simp add: pow2_def round_even_def Let_def powr_minus_divide)
qed

lemma lomax_value: "round64 (24.875 + 1) = 207 / 8"
proof -
  have "round64 (24.875 + 1) =
      real_of_int (round_even ((24.875 + 1) / pow2 (4 - 52))) * pow2 (4 - 52)"
    by (rule round64_at) (simp_all add: pow2_def powr_minus_divide)
  then show ?thesis
    by (simp add: pow2_def round_even_def Let_def powr_minus_divide)
qed


lemma authenticate_keeps:
  "authenticate a fc = (e, fc', rs) \<Longrightarrow> cache fc' = cache fc \<and> lastFetch fc' = lastFetch fc"
  by (auto simp: authenticate_def split: if_splits reply.splits body.splits)

text \<open>The client after a call: the token apart, it changes only on success.\<close>

lemma fetch_client:
  "cache (fst (snd (FetchFlights w lat lon r fc))) =
     (case fst (FetchFlights w lat lon r fc) of
        Returned fl None \<Rightarrow> fl
      | _ \<Rightarrow> cache fc) \<and>
   lastFetch (fst (snd (FetchFlights w lat lon r fc))) =
     (case fst (FetchFlights w lat lon r fc) of
        Returned fl None \<Rightarrow>
          (if Since (clock w) (lastFetch fc) < cacheDuration \<and> cache fc \<noteq> []
           then lastFetch fc else clockStored w)
      | _ \<Rightarrow> lastFetch fc)"
proof (cases "authenticate (authReply w) fc")
  case (fields e fc' rs)
  note k = authenticate_keeps [OF fields]
  show ?thesis
    using k fields
    by (auto simp: FetchFlights_def Let_def
        split: prod.splits reply.splits body.splits option.splits)
qed

lemma fetch_error_nil:
  "fst (FetchFlights w lat lon r fc) = Returned fl (Some e) \<Longrightarrow> fl = []"
  by (auto simp: FetchFlights_def Let_def
      split: if_splits prod.splits reply.splits body.splits option.splits)

text \<open>
  Claim C1, as amended. Every call of \<^verbatim>\<open>FetchFlights\<close> that goes to the network and
  fails there (the request cannot be built or sent, the status is 429 or another one
  that is not 200, the body cannot be read or decoded) returns an error together with
  the nil slice, not the cached snapshot; and every call that returns an error returns
  the nil slice and leaves the cached snapshot and the fetch timestamp of the client as
  they were.
\<close>

theorem fetch_failure:
  "(\<not> (Since (clock w) (lastFetch fc) < cacheDuration \<and> cache fc \<noteq> []) \<and>
    failing (statesReply w) \<longrightarrow>
      (\<exists>e. fst (FetchFlights w lat lon r fc) = Returned [] (Some e))) \<and>
   (fst (FetchFlights w lat lon r fc) = Returned fl (Some e) \<longrightarrow>
      fl = [] \<and>
      cache (fst (snd (FetchFlights w lat lon r fc))) = cache fc \<and>
      lastFetch (fst (snd (FetchFlights w lat lon r fc))) = lastFetch fc)"
proof (intro conjI impI)
  assume a: "\<not> (Since (clock w) (lastFetch fc) < cacheDuration \<and> cache fc \<noteq> []) \<and>
    failing (statesReply w)"
  then have st: "\<not> (Since (clock w) (lastFetch fc) < cacheDuration \<and> cache fc \<noteq> [])"
    and f: "failing (statesReply w)" by simp_all
  show "\<exists>e. fst (FetchFlights w lat lon r fc) = Returned [] (Some e)"
    using f unfolding fetch_stale [OF st]
    by (cases "statesReply w" rule: failing.cases) auto
next
  assume e: "fst (FetchFlights w lat lon r fc) = Returned fl (Some e)"
  then show "fl = []" by (rule fetch_error_nil)
  show "cache (fst (snd (FetchFlights w lat lon r fc))) = cache fc"
    using fetch_client [of w lat lon r fc] e by simp
  show "lastFetch (fst (snd (FetchFlights w lat lon r fc))) = lastFetch fc"
    using fetch_client [of w lat lon r fc] e by simp
qed

lemma client_one_eq:
  "client_one = \<lparr>cache = [parsed0], lastFetch = 1001 * Second, token = [], clientID = [],
     clientSec = []\<rparr>"
  by (simp add: client_one_def FetchFlights_def NewFlightClient_def world_one_def body_state0
      Since_def minDuration_def maxDuration_def Second_def cacheDuration_def)

lemma client_none_eq:
  "client_none = \<lparr>cache = [], lastFetch = 1001 * Second, token = [], clientID = [],
     clientSec = []\<rparr>"
  by (simp add: client_none_def FetchFlights_def NewFlightClient_def world_none_def
      Since_def minDuration_def maxDuration_def Second_def cacheDuration_def)

text \<open>
  Claim C1 as stated fails: with one flight cached at second 1001, a call at second 1020
  that is answered 429 returns the nil slice, not the cached snapshot.
\<close>

theorem fetch_failure_counterexample:
  "cache client_one = [parsed0] \<and>
   fst (FetchFlights world_late 60.25 24.875 1 client_one) = Returned [] (Some ErrRateLimit) \<and>
   fst (FetchFlights world_late 60.25 24.875 1 client_one) \<noteq> Returned (cache client_one) (Some ErrRateLimit)"
  by (simp add: client_one_eq FetchFlights_def world_late_def
      Since_def minDuration_def maxDuration_def Second_def cacheDuration_def)

text \<open>The amended claim on that call.\<close>

theorem fetch_failure_witness:
  "\<not> (Since (clock world_late) (lastFetch client_one) < cacheDuration \<and> cache client_one \<noteq> []) \<and>
   failing (statesReply world_late) \<and>
   fst (FetchFlights world_late 60.25 24.875 1 client_one) = Returned [] (Some ErrRateLimit) \<and>
   cache (fst (snd (FetchFlights world_late 60.25 24.875 1 client_one))) = [parsed0] \<and>
   lastFetch (fst (snd (FetchFlights world_late 60.25 24.875 1 client_one))) = 1001 * Second"
proof -
  have r: "fst (FetchFlights world_late 60.25 24.875 1 client_one) = Returned [] (Some ErrRateLimit)"
    by (simp add: client_one_eq FetchFlights_def world_late_def
        Since_def minDuration_def maxDuration_def Second_def cacheDuration_def)
  have s: "\<not> (Since (clock world_late) (lastFetch client_one) < cacheDuration \<and> cache client_one \<noteq> [])"
    by (simp add: client_one_eq world_late_def
        Since_def minDuration_def maxDuration_def Second_def cacheDuration_def)
  have f: "failing (statesReply world_late)" by (simp add: world_late_def)
  show ?thesis
    using fetch_failure [of world_late client_one "60.25" "24.875" 1 "[]" ErrRateLimit] r s f
    by (simp add: client_one_eq)
qed

text \<open>
  Claim C4, as amended. Every call of \<^verbatim>\<open>FetchFlights\<close> made while the cached snapshot is
  not empty and younger than the freshness window of 10 seconds sends no request,
  returns the cached snapshot itself without an error, and leaves the client as it was.
\<close>

theorem fetch_fresh:
  assumes "Since (clock w) (lastFetch fc) < cacheDuration" and "cache fc \<noteq> []"
  shows "FetchFlights w lat lon r fc = (Returned (cache fc) None, fc, [])"
  using assms by (simp add: FetchFlights_def)

text \<open>
  Claim C4 as stated fails when the prior successful snapshot is empty: the fetch at
  second 1000 succeeds with no flight, and the call at second 1002, one second after
  the snapshot was stored, sends a query again.
\<close>

theorem fetch_fresh_counterexample:
  "fst (FetchFlights world_none 60.25 24.875 1 (NewFlightClient [] [])) = Returned [] None \<and>
   Since (clock world_soon) (lastFetch client_none) < cacheDuration \<and>
   snd (snd (FetchFlights world_soon 60.25 24.875 1 client_none)) = [StatesGet 59.25 23.875 61.25 25.875 []]"
  using lamin_value lamax_value lomin_value lomax_value
  by (simp add: client_none_eq FetchFlights_def NewFlightClient_def world_none_def world_soon_def
      Since_def minDuration_def maxDuration_def Second_def cacheDuration_def fsub_def fadd_def)

text \<open>The amended claim on the call at second 1002 with one flight cached.\<close>

theorem fetch_fresh_witness:
  "Since (clock world_soon) (lastFetch client_one) < cacheDuration \<and> cache client_one \<noteq> [] \<and>
   FetchFlights world_soon 60.25 24.875 1 client_one = (Returned [parsed0] None, client_one, [])"
proof -
  have a: "Since (clock world_soon) (lastFetch client_one) < cacheDuration"
    by (simp add: client_one_eq world_soon_def
        Since_def minDuration_def maxDuration_def Second_def cacheDuration_def)
  have b: "cache client_one \<noteq> []" by (simp add: client_one_eq)
  show ?thesis using fetch_fresh [OF a b, of "60.25" "24.875" 1] a b by (simp add: client_one_eq)
qed

section \<open>Properties of the tile cache\<close>

lemma filter_update_count:
  "i < length xs \<Longrightarrow>
   length (filter P (xs[i := v])) + (if P (xs ! i) then 1 else 0) =
   length (filter P xs) + (if P v then 1 else 0)"
proof (induction xs arbitrary: i)
  case Nil
  then show ?case by simp
next
  case (Cons a xs)
  then show ?case by (cases i) auto
qed

lemma filter_update_grow:
  "i < length xs \<Longrightarrow> P v \<Longrightarrow> \<not> P (xs ! i) \<Longrightarrow>
   length (filter P (xs[i := v])) = length (filter P xs) + 1"
  using filter_update_count [of i xs P v] by simp

lemma filter_update_same:
  "i < length xs \<Longrightarrow> \<not> P v \<Longrightarrow> \<not> P (xs ! i) \<Longrightarrow>
   length (filter P (xs[i := v])) = length (filter P xs)"
  using filter_update_count [of i xs P v] by simp

subsection \<open>The loader of the ebiten front end\<close>

text \<open>
  This loader has no set of pending keys; only the cache itself prevents a fetch. A
  lookup of a key whose tile is stored returns the tile and starts nothing, and a
  \<^verbatim>\<open>fetchTile\<close> goroutine that finds the tile stored at its test sends no request. A
  lookup of a key whose tile is not stored starts a \<^verbatim>\<open>fetchTile\<close> goroutine, whatever
  is in flight for that key, and a goroutine that does not find the tile stored at its
  test sends a request of its own, one more in flight for that key.
\<close>

lemma GetTile_no_pending_set:
  "(tiles ld (TileKey z x y) = Some img \<longrightarrow> GetTile z x y ld = (Some img, ld)) \<and>
   (tiles ld (TileKey z x y) = None \<longrightarrow>
      GetTile z x y ld = (None, ld\<lparr>goroutines := goroutines ld @ [AtCheck (TileKey z x y)]\<rparr>)) \<and>
   (i < length (goroutines ld) \<and> goroutines ld ! i = AtCheck key \<and> tiles ld key \<noteq> None \<longrightarrow>
      gets (fetchTile_check i ld) = gets ld \<and>
      inflight (fetchTile_check i ld) key = inflight ld key) \<and>
   (i < length (goroutines ld) \<and> goroutines ld ! i = AtCheck key \<and> tiles ld key = None \<longrightarrow>
      gets (fetchTile_check i ld) = gets ld @ [key] \<and>
      inflight (fetchTile_check i ld) key = inflight ld key + 1)"
proof (intro conjI impI)
  assume "tiles ld (TileKey z x y) = Some img"
  then show "GetTile z x y ld = (Some img, ld)" by (simp add: GetTile_def)
next
  assume "tiles ld (TileKey z x y) = None"
  then show "GetTile z x y ld = (None, ld\<lparr>goroutines := goroutines ld @ [AtCheck (TileKey z x y)]\<rparr>)"
    by (simp add: GetTile_def)
next
  assume a: "i < length (goroutines ld) \<and> goroutines ld ! i = AtCheck key \<and> tiles ld key \<noteq> None"
  then obtain img where s: "tiles ld key = Some img" by auto
  show "gets (fetchTile_check i ld) = gets ld"
    using a s by (simp add: fetchTile_check_def)
  have "length (filter (\<lambda>g. g = InFlight key) ((goroutines ld)[i := Done])) =
        length (filter (\<lambda>g. g = InFlight key) (goroutines ld))"
    using a by (intro filter_update_same) simp_all
  then show "inflight (fetchTile_check i ld) key = inflight ld key"
    using a s by (simp add: fetchTile_check_def inflight_def)
next
  assume a: "i < length (goroutines ld) \<and> goroutines ld ! i = AtCheck key \<and> tiles ld key = None"
  show "gets (fetchTile_check i ld) = gets ld @ [key]"
    using a by (simp add: fetchTile_check_def)
  have "length (filter (\<lambda>g. g = InFlight key) ((goroutines ld)[i := InFlight key])) =
        length (filter (\<lambda>g. g = InFlight key) (goroutines ld)) + 1"
    using a by (intro filter_update_grow) simp_all
  then show "inflight (fetchTile_check i ld) key = inflight ld key + 1"
    using a by (simp add: fetchTile_check_def inflight_def)
qed

lemma loader1_eq:
  "loader1 = \<lparr>tiles = Map.empty, goroutines = [AtCheck (TileKey 10 5 3)], gets = []\<rparr>"
  by (simp add: loader1_def GetTile_def NewTileLoader_def)

lemma loader2_eq:
  "loader2 = \<lparr>tiles = Map.empty, goroutines = [InFlight (TileKey 10 5 3)],
               gets = [TileKey 10 5 3]\<rparr>"
  by (simp add: loader2_def loader1_eq fetchTile_check_def)

lemma loader3_eq:
  "loader3 = \<lparr>tiles = Map.empty,
               goroutines = [InFlight (TileKey 10 5 3), AtCheck (TileKey 10 5 3)],
               gets = [TileKey 10 5 3]\<rparr>"
  by (simp add: loader3_def loader2_eq GetTile_def)

lemma loader4_eq:
  "loader4 = \<lparr>tiles = Map.empty,
               goroutines = [InFlight (TileKey 10 5 3), InFlight (TileKey 10 5 3)],
               gets = [TileKey 10 5 3, TileKey 10 5 3]\<rparr>"
  by (simp add: loader4_def loader3_eq fetchTile_check_def)

text \<open>
  Claim C2 on the code of this loader: after the first lookup of tile (10, 5, 3) one
  fetch for it is in flight and nothing is stored; the second lookup starts a goroutine
  that sends a second GET, and two fetches for the key are in flight.
\<close>

theorem tile_double_fetch:
  "inflight loader2 (TileKey 10 5 3) = 1 \<and>
   tiles loader2 (TileKey 10 5 3) = None \<and>
   loader3 = snd (GetTile 10 5 3 loader2) \<and>
   loader4 = fetchTile_check 1 loader3 \<and>
   gets loader4 = [TileKey 10 5 3, TileKey 10 5 3] \<and>
   inflight loader4 (TileKey 10 5 3) = 2"
proof -
  have a: "loader3 = snd (GetTile 10 5 3 loader2)" by (simp only: loader3_def)
  have b: "loader4 = fetchTile_check 1 loader3" by (simp only: loader4_def)
  have c: "inflight loader2 (TileKey 10 5 3) = 1 \<and> tiles loader2 (TileKey 10 5 3) = None \<and>
      gets loader4 = [TileKey 10 5 3, TileKey 10 5 3] \<and> inflight loader4 (TileKey 10 5 3) = 2"
    by (simp add: loader2_eq loader4_eq inflight_def)
  show ?thesis using a b c by blast
qed

subsection \<open>The loader of the raylib front end\<close>

lemma tile_invI:
  assumes "\<And>key. inflight_raylib ld key \<le> 1"
    and "\<And>key. key \<notin> pending ld \<Longrightarrow> inflight_raylib ld key = 0"
    and "\<And>key d. (key, d) \<in> set (responseChan ld) \<Longrightarrow> key \<in> pending ld"
    and "\<And>key d. (key, d) \<in> set (responseChan ld) \<Longrightarrow> inflight_raylib ld key = 0"
    and "distinct (map fst (responseChan ld))"
  shows "tile_inv ld"
  unfolding tile_inv_def using assms by blast

lemma inv_le: "tile_inv ld \<Longrightarrow> inflight_raylib ld key \<le> 1"
  by (simp add: tile_inv_def)

lemma inv_idle: "tile_inv ld \<Longrightarrow> key \<notin> pending ld \<Longrightarrow> inflight_raylib ld key = 0"
  by (simp add: tile_inv_def)

lemma inv_chan_pending: "tile_inv ld \<Longrightarrow> (key, d) \<in> set (responseChan ld) \<Longrightarrow> key \<in> pending ld"
  unfolding tile_inv_def by blast

lemma inv_chan_idle:
  "tile_inv ld \<Longrightarrow> (key, d) \<in> set (responseChan ld) \<Longrightarrow> inflight_raylib ld key = 0"
  unfolding tile_inv_def by blast

lemma inv_distinct: "tile_inv ld \<Longrightarrow> distinct (map fst (responseChan ld))"
  by (simp add: tile_inv_def)

lemma inv_start: "tile_inv NewTileLoader_raylib"
  by (simp add: tile_inv_def NewTileLoader_raylib_def inflight_raylib_def)

lemma inv_lookup:
  assumes inv: "tile_inv ld"
  shows "tile_inv (snd (GetTile_raylib z x y ld))"
proof (cases "textures ld (TileKey z x y) = None \<and> TileKey z x y \<notin> pending ld")
  case False
  then have "snd (GetTile_raylib z x y ld) = ld"
    by (auto simp: GetTile_raylib_def Let_def split: option.splits)
  with inv show ?thesis by simp
next
  case True
  let ?k = "TileKey z x y"
  let ?ld = "ld\<lparr>pending := insert ?k (pending ld), routines := routines ld @ [RlStarted ?k]\<rparr>"
  have e: "snd (GetTile_raylib z x y ld) = ?ld"
    using True by (simp add: GetTile_raylib_def Let_def)
  have z: "inflight_raylib ld ?k = 0" using inv True by (simp add: inv_idle)
  have c: "inflight_raylib ?ld key = inflight_raylib ld key + (if key = ?k then 1 else 0)" for key
    by (auto simp: inflight_raylib_def)
  have nk: "(?k, d) \<notin> set (responseChan ld)" for d
    using inv_chan_pending [OF inv, of ?k d] True by blast
  show ?thesis
    unfolding e
  proof (rule tile_invI)
    fix key show "inflight_raylib ?ld key \<le> 1"
      using inv_le [OF inv, of key] z unfolding c by (cases "key = ?k") simp_all
  next
    fix key assume "key \<notin> pending ?ld"
    then have "key \<noteq> ?k" "key \<notin> pending ld" by simp_all
    then show "inflight_raylib ?ld key = 0"
      using inv_idle [OF inv, of key] unfolding c by simp
  next
    fix key d assume "(key, d) \<in> set (responseChan ?ld)"
    then have m: "(key, d) \<in> set (responseChan ld)" by simp
    then show "key \<in> pending ?ld" using inv_chan_pending [OF inv m] by simp
    from m nk [of d] have "key \<noteq> ?k" by blast
    then show "inflight_raylib ?ld key = 0"
      using inv_chan_idle [OF inv m] unfolding c by simp
  next
    show "distinct (map fst (responseChan ?ld))" using inv_distinct [OF inv] by simp
  qed
qed

lemma inv_get:
  assumes inv: "tile_inv ld"
  shows "tile_inv (fetchTile_raylib_get i ld)"
proof (cases "i < length (routines ld) \<and> (\<exists>k. routines ld ! i = RlStarted k)")
  case False
  then have "fetchTile_raylib_get i ld = ld"
    by (auto simp: fetchTile_raylib_get_def split: rl_goroutine.splits)
  with inv show ?thesis by simp
next
  case True
  then obtain k where i: "i < length (routines ld)" and r: "routines ld ! i = RlStarted k" by blast
  let ?ld = "ld\<lparr>routines := (routines ld)[i := RlInFlight k], requests := requests ld @ [k]\<rparr>"
  have e: "fetchTile_raylib_get i ld = ?ld" using i r by (simp add: fetchTile_raylib_get_def)
  have c: "inflight_raylib ?ld key = inflight_raylib ld key" for key
    using filter_update_count [OF i, of "busy_with key" "RlInFlight k"] r
    by (simp add: inflight_raylib_def)
  show ?thesis using inv unfolding e tile_inv_def c by simp
qed

text \<open>A goroutine that leaves the busy states: the count of its key goes from 1 to 0.\<close>

lemma leave_busy:
  assumes inv: "tile_inv ld" and i: "i < length (routines ld)"
    and b: "busy_with k (routines ld ! i)"
    and k: "\<And>key. busy_with key (routines ld ! i) \<longleftrightarrow> key = k"
  shows "inflight_raylib ld k = 1"
    and "length (filter (busy_with key) ((routines ld)[i := RlDone])) =
         (if key = k then 0 else inflight_raylib ld key)"
proof -
  have c: "length (filter (busy_with key) ((routines ld)[i := RlDone])) + (if key = k then 1 else 0) =
      inflight_raylib ld key" for key
    using filter_update_count [OF i, of "busy_with key" RlDone] k [of key]
    by (simp add: inflight_raylib_def)
  from c [of k] have "1 \<le> inflight_raylib ld k" by simp
  with inv_le [OF inv, of k] show one: "inflight_raylib ld k = 1" by simp
  show "length (filter (busy_with key) ((routines ld)[i := RlDone])) =
         (if key = k then 0 else inflight_raylib ld key)"
    using c [of key] one by (cases "key = k") simp_all
qed

lemma inv_reply:
  assumes inv: "tile_inv ld"
  shows "tile_inv (fetchTile_raylib_reply i r ld)"
proof (cases "i < length (routines ld) \<and> (\<exists>k. routines ld ! i = RlInFlight k)")
  case False
  then have "fetchTile_raylib_reply i r ld = ld"
    by (auto simp: fetchTile_raylib_reply_def split: rl_goroutine.splits)
  with inv show ?thesis by simp
next
  case True
  then obtain k where i: "i < length (routines ld)" and g: "routines ld ! i = RlInFlight k" by blast
  show ?thesis
  proof (cases "\<exists>d. r = Bytes d")
    case True
    then obtain d where d: "r = Bytes d" by blast
    let ?ld = "ld\<lparr>routines := (routines ld)[i := RlSending k d]\<rparr>"
    have e: "fetchTile_raylib_reply i r ld = ?ld"
      using i g d by (simp add: fetchTile_raylib_reply_def)
    have c: "inflight_raylib ?ld key = inflight_raylib ld key" for key
      using filter_update_count [OF i, of "busy_with key" "RlSending k d"] g
      by (simp add: inflight_raylib_def)
    show ?thesis using inv unfolding e tile_inv_def c by simp
  next
    case False
    let ?ld = "ld\<lparr>pending := pending ld - {k}, routines := (routines ld)[i := RlDone]\<rparr>"
    have e: "fetchTile_raylib_reply i r ld = ?ld"
      using i g False by (cases r) (simp_all add: fetchTile_raylib_reply_def)
    have b: "busy_with k (routines ld ! i)" and bk: "\<And>key. busy_with key (routines ld ! i) \<longleftrightarrow> key = k"
      using g by auto
    note one = leave_busy(1) [OF inv i b bk]
    have c: "inflight_raylib ?ld key = (if key = k then 0 else inflight_raylib ld key)" for key
      using leave_busy(2) [OF inv i b bk, of key] by (simp add: inflight_raylib_def)
    have nk: "(k, d) \<notin> set (responseChan ld)" for d
      using inv_chan_idle [OF inv, of k d] one by auto
    show ?thesis
      unfolding e
    proof (rule tile_invI)
      fix key show "inflight_raylib ?ld key \<le> 1"
        using inv_le [OF inv, of key] unfolding c by simp
    next
      fix key assume "key \<notin> pending ?ld"
      then have "key = k \<or> key \<notin> pending ld" by auto
      then show "inflight_raylib ?ld key = 0"
        using inv_idle [OF inv, of key] unfolding c by auto
    next
      fix key d assume "(key, d) \<in> set (responseChan ?ld)"
      then have m: "(key, d) \<in> set (responseChan ld)" by simp
      with nk [of d] have ne: "key \<noteq> k" by blast
      show "key \<in> pending ?ld" using inv_chan_pending [OF inv m] ne by simp
      show "inflight_raylib ?ld key = 0" using inv_chan_idle [OF inv m] unfolding c by simp
    next
      show "distinct (map fst (responseChan ?ld))" using inv_distinct [OF inv] by simp
    qed
  qed
qed

lemma inv_send:
  assumes inv: "tile_inv ld"
  shows "tile_inv (fetchTile_raylib_send i ld)"
proof (cases "i < length (routines ld) \<and> (\<exists>k d. routines ld ! i = RlSending k d) \<and>
              length (responseChan ld) < 10")
  case False
  then have "fetchTile_raylib_send i ld = ld"
    by (auto simp: fetchTile_raylib_send_def split: rl_goroutine.splits)
  with inv show ?thesis by simp
next
  case True
  then obtain k d where i: "i < length (routines ld)" and g: "routines ld ! i = RlSending k d"
    and room: "length (responseChan ld) < 10" by blast
  let ?ld = "ld\<lparr>responseChan := responseChan ld @ [(k, d)], routines := (routines ld)[i := RlDone]\<rparr>"
  have e: "fetchTile_raylib_send i ld = ?ld"
    using i g room by (simp add: fetchTile_raylib_send_def)
  have b: "busy_with k (routines ld ! i)" and bk: "\<And>key. busy_with key (routines ld ! i) \<longleftrightarrow> key = k"
    using g by auto
  note one = leave_busy(1) [OF inv i b bk]
  have c: "inflight_raylib ?ld key = (if key = k then 0 else inflight_raylib ld key)" for key
    using leave_busy(2) [OF inv i b bk, of key] by (simp add: inflight_raylib_def)
  have nk: "(k, d') \<notin> set (responseChan ld)" for d'
    using inv_chan_idle [OF inv, of k d'] one by auto
  have pk: "k \<in> pending ld"
    using inv_idle [OF inv, of k] one by auto
  show ?thesis
    unfolding e
  proof (rule tile_invI)
    fix key show "inflight_raylib ?ld key \<le> 1"
      using inv_le [OF inv, of key] unfolding c by simp
  next
    fix key assume "key \<notin> pending ?ld"
    then have "key \<notin> pending ld" by simp
    then show "inflight_raylib ?ld key = 0"
      using inv_idle [OF inv, of key] unfolding c by simp
  next
    fix key d' assume "(key, d') \<in> set (responseChan ?ld)"
    then consider "key = k" | "(key, d') \<in> set (responseChan ld)" by auto
    then show "key \<in> pending ?ld"
    proof cases
      case 1
      then show ?thesis using pk by simp
    next
      case 2
      then show ?thesis using inv_chan_pending [OF inv 2] by simp
    qed
  next
    fix key d' assume "(key, d') \<in> set (responseChan ?ld)"
    then consider "key = k" | "(key, d') \<in> set (responseChan ld)" by auto
    then show "inflight_raylib ?ld key = 0"
    proof cases
      case 1
      then show ?thesis unfolding c by simp
    next
      case 2
      then show ?thesis using inv_chan_idle [OF inv 2] unfolding c by simp
    qed
  next
    have "k \<notin> fst ` set (responseChan ld)" using nk by force
    then show "distinct (map fst (responseChan ?ld))"
      using inv_distinct [OF inv] by simp
  qed
qed

lemma inv_update:
  assumes inv: "tile_inv ld"
  shows "tile_inv (Update_step decode ld)"
proof (cases "responseChan ld")
  case Nil
  then have "Update_step decode ld = ld" by (simp add: Update_step_def)
  with inv show ?thesis by simp
next
  case (Cons a rest)
  obtain k d where a: "a = (k, d)" by (cases a)
  have ch: "responseChan ld = (k, d) # rest" using Cons a by simp
  have kr: "k \<notin> fst ` set rest" and dr: "distinct (map fst rest)"
    using inv_distinct [OF inv] ch by simp_all
  have k0: "inflight_raylib ld k = 0" using inv_chan_idle [OF inv, of k d] ch by simp
  have rp: "key \<in> pending ld" and ri: "inflight_raylib ld key = 0"
    if "(key, d') \<in> set rest" for key d'
    using inv_chan_pending [OF inv, of key d'] inv_chan_idle [OF inv, of key d'] that ch
    by simp_all
  show ?thesis
  proof (cases "decode d")
    case None
    have e: "Update_step decode ld = ld\<lparr>responseChan := rest\<rparr>"
      using ch None by (simp add: Update_step_def)
    have c: "inflight_raylib (ld\<lparr>responseChan := rest\<rparr>) key = inflight_raylib ld key" for key
      by (simp add: inflight_raylib_def)
    show ?thesis
      unfolding e
    proof (rule tile_invI)
      fix key show "inflight_raylib (ld\<lparr>responseChan := rest\<rparr>) key \<le> 1"
        using inv_le [OF inv, of key] unfolding c .
    next
      fix key assume "key \<notin> pending (ld\<lparr>responseChan := rest\<rparr>)"
      then show "inflight_raylib (ld\<lparr>responseChan := rest\<rparr>) key = 0"
        using inv_idle [OF inv, of key] unfolding c by simp
    next
      fix key d' assume "(key, d') \<in> set (responseChan (ld\<lparr>responseChan := rest\<rparr>))"
      then have m: "(key, d') \<in> set rest" by simp
      show "key \<in> pending (ld\<lparr>responseChan := rest\<rparr>)" using rp [OF m] by simp
      show "inflight_raylib (ld\<lparr>responseChan := rest\<rparr>) key = 0" using ri [OF m] unfolding c .
    next
      show "distinct (map fst (responseChan (ld\<lparr>responseChan := rest\<rparr>)))" using dr by simp
    qed
  next
    case (Some tex)
    let ?ld = "ld\<lparr>textures := (textures ld)(k \<mapsto> tex), pending := pending ld - {k},
                  responseChan := rest\<rparr>"
    have e: "Update_step decode ld = ?ld"
      using ch Some by (simp add: Update_step_def)
    have c: "inflight_raylib ?ld key = inflight_raylib ld key" for key
      by (simp add: inflight_raylib_def)
    show ?thesis
      unfolding e
    proof (rule tile_invI)
      fix key show "inflight_raylib ?ld key \<le> 1"
        using inv_le [OF inv, of key] unfolding c .
    next
      fix key assume "key \<notin> pending ?ld"
      then have "key = k \<or> key \<notin> pending ld" by auto
      then show "inflight_raylib ?ld key = 0"
        using k0 inv_idle [OF inv, of key] unfolding c by auto
    next
      fix key d' assume "(key, d') \<in> set (responseChan ?ld)"
      then have m: "(key, d') \<in> set rest" by simp
      then have "key \<in> fst ` set rest" by force
      with kr have "key \<noteq> k" by blast
      then show "key \<in> pending ?ld" using rp [OF m] by simp
      show "inflight_raylib ?ld key = 0" using ri [OF m] unfolding c .
    next
      show "distinct (map fst (responseChan ?ld))" using dr by simp
    qed
  qed
qed

lemma reachable_inv: "reachable_raylib decode ld \<Longrightarrow> tile_inv ld"
  by (induction rule: reachable_raylib.induct)
    (simp_all add: inv_start inv_lookup inv_get inv_reply inv_send inv_update)

text \<open>In the raylib loader, in every reachable state, at most one fetch per key is under
  way, and a lookup of a key that has one starts nothing.\<close>

lemma raylib_one_fetch:
  assumes "reachable_raylib decode ld"
  shows "inflight_raylib ld key \<le> 1"
    and "inflight_raylib ld (TileKey z x y) = 1 \<Longrightarrow> snd (GetTile_raylib z x y ld) = ld"
proof -
  have inv: "tile_inv ld" using assms by (rule reachable_inv)
  then show "inflight_raylib ld key \<le> 1" by (rule inv_le)
  assume "inflight_raylib ld (TileKey z x y) = 1"
  with inv_idle [OF inv, of "TileKey z x y"] have "TileKey z x y \<in> pending ld" by auto
  then show "snd (GetTile_raylib z x y ld) = ld"
    by (simp add: GetTile_raylib_def Let_def split: option.splits)
qed

section \<open>Properties of the route resolver\<close>

text \<open>The origin label is empty whenever the origin has no friendly location, whatever
  its IATA code.\<close>

lemma origin_without_friendly:
  assumes "as_map (lookup latest ''origin'') = Some originData"
    and "as_string (lookup originData ''friendlyLocation'') = None"
  shows "rdOrigin (FetchFlightDetails_entry latest) = []"
  using assms by (simp add: FetchFlightDetails_entry_def Let_def)

text \<open>The destination and the model fall back to the second key.\<close>

lemma destination_fallback:
  assumes "as_map (lookup latest ''destination'') = Some destData"
    and "as_string (lookup destData ''friendlyLocation'') = None"
    and "as_string (lookup destData ''iata'') = Some v"
  shows "RealDestination (FetchFlightDetails_entry latest) = v"
  using assms by (simp add: FetchFlightDetails_entry_def Let_def)

lemma model_fallback:
  assumes "as_map (lookup latest ''aircraft'') = Some aircraftData"
    and "as_string (lookup aircraftData ''friendlyType'') = None"
    and "as_string (lookup aircraftData ''type'') = Some v"
  shows "Model (FetchFlightDetails_entry latest) = v"
  using assms by (simp add: FetchFlightDetails_entry_def Let_def)

text \<open>
  Claim C7 on the code: for a flight entry whose origin, destination and aircraft carry
  only the second key (IATA code, IATA code, type code), the resolver takes the
  destination and the model from it, and leaves the origin empty although its IATA code
  is ``HEL''.
\<close>

theorem origin_iata_ignored:
  "FetchFlightDetails (ScrapeResponse 200 page0) ''FIN1'' =
     Inr \<lparr>rdDestination = ''CDG'', RealDestination = ''CDG'', Model = ''A320'', rdOrigin = []\<rparr> \<and>
   as_string (lookup (the (as_map (lookup entry0 ''origin''))) ''iata'') = Some ''HEL''"
  by code_simp

section \<open>Properties of the round orchestrator\<close>

subsection \<open>Validation of the resolver result\<close>

lemma pickNewTarget_state: "state (fst (pickNewTarget r g)) = StateRoundSetup"
  by (simp add: pickNewTarget_def Let_def)

text \<open>In \<^verbatim>\<open>go_version\<close> a result without a usable destination or origin restarts the round
  with a new target, and the game stays in the setup state.\<close>

lemma setupRoundWithData_discards:
  assumes "RealDestination d = [] \<or> RealDestination d = ''Unknown'' \<or>
           rdOrigin d = [] \<or> rdOrigin d = ''Unknown''"
  shows "setupRoundWithData ch d g =
           Some (pickNewTarget (drawn ch) (g\<lparr>resolvedDetails := Some d, resolving := False\<rparr>))"
    and "\<exists>g' es. setupRoundWithData ch d g = Some (g', es) \<and> state g' = StateRoundSetup"
proof -
  show 1: "setupRoundWithData ch d g =
           Some (pickNewTarget (drawn ch) (g\<lparr>resolvedDetails := Some d, resolving := False\<rparr>))"
    using assms unfolding setupRoundWithData_def Let_def by (simp only: if_True)
  show "\<exists>g' es. setupRoundWithData ch d g = Some (g', es) \<and> state g' = StateRoundSetup"
    unfolding 1 using pickNewTarget_state [of "drawn ch" "g\<lparr>resolvedDetails := Some d, resolving := False\<rparr>"]
    by (cases "pickNewTarget (drawn ch) (g\<lparr>resolvedDetails := Some d, resolving := False\<rparr>)") simp
qed

text \<open>
  Claim C3 on the code of \<^verbatim>\<open>go_raylib\<close>, which tests the destination only: a resolver
  result with destination ``Paris'' and an empty origin is not discarded, the game enters
  the playing state. \<^verbatim>\<open>go_version\<close> discards the same result and stays in the setup
  state.
\<close>

theorem setupRound_raylib_empty_origin:
  "rdOrigin details_no_origin = [] \<and>
   map_option (state \<circ> fst) (setupRoundWithData_raylib chance0 details_no_origin game_setup) =
     Some StateGamePlaying \<and>
   map_option (state \<circ> fst) (setupRoundWithData chance0 details_no_origin game_setup) =
     Some StateRoundSetup"
  by code_simp

subsection \<open>The option set\<close>

lemma mset_swap_list: "i < length xs \<Longrightarrow> j < length xs \<Longrightarrow> mset (swap i j xs) = mset xs"
  unfolding swap_def by (simp add: mset_swap)

lemma length_swap: "length (swap i j xs) = length xs"
  by (simp add: swap_def)

lemma mset_Shuffle_loop: "i < length xs \<Longrightarrow> mset (Shuffle_loop rs i xs) = mset xs"
proof (induction i arbitrary: rs xs)
  case 0
  then show ?case by simp
next
  case (Suc i)
  define j where "j = (case rs of [] \<Rightarrow> 0 | r # _ \<Rightarrow> r mod (Suc i + 1))"
  have "j < Suc (Suc i)" by (simp add: j_def split: list.splits)
  then have j: "j < length xs" using Suc.prems by simp
  have "mset (Shuffle_loop (tl rs) i (swap (Suc i) j xs)) = mset (swap (Suc i) j xs)"
    using Suc.prems by (intro Suc.IH) (simp add: length_swap)
  also have "\<dots> = mset xs" using Suc.prems j by (simp add: mset_swap_list)
  finally show ?case by (simp add: j_def Let_def)
qed

lemma mset_Shuffle: "mset (Shuffle rs xs) = mset xs"
proof (cases xs)
  case Nil
  then show ?thesis by (simp add: Shuffle_def)
next
  case (Cons a as)
  then show ?thesis by (simp add: Shuffle_def mset_Shuffle_loop)
qed

lemma set_Shuffle: "set (Shuffle rs xs) = set xs"
  using mset_Shuffle [of rs xs] by (metis set_mset_mset)

lemma length_Shuffle: "length (Shuffle rs xs) = length xs"
  using mset_Shuffle [of rs xs] by (metis size_mset)

lemma distinct_Shuffle: "distinct (Shuffle rs xs) = distinct xs"
  using mset_Shuffle [of rs xs] by (metis distinct_count_atmost_1 set_mset_mset)

lemma count_Shuffle: "count_list (Shuffle rs xs) x = count_list xs x"
  using mset_Shuffle [of rs xs] by (metis count_mset)

lemma distractor_loop_eq:
  "length acc \<le> 4 \<Longrightarrow>
   distractor_loop c ds acc =
     acc @ take (4 - length acc) (filter (\<lambda>x. x \<noteq> c \<and> x \<noteq> ''Unknown'') ds)"
proof (induction ds arbitrary: acc)
  case Nil
  then show ?case by simp
next
  case (Cons d ds)
  show ?case
  proof (cases "length acc = 4")
    case True
    then show ?thesis by simp
  next
    case False
    with Cons.prems have lt: "length acc < 4" by simp
    then have s: "4 - length acc = Suc (3 - length acc)" by simp
    show ?thesis
    proof (cases "d \<noteq> c \<and> d \<noteq> ''Unknown''")
      case True
      have "distractor_loop c (d # ds) acc = distractor_loop c ds (acc @ [d])"
        using lt True by simp
      also have "\<dots> = (acc @ [d]) @ take (4 - length (acc @ [d])) (filter (\<lambda>x. x \<noteq> c \<and> x \<noteq> ''Unknown'') ds)"
        using lt by (intro Cons.IH) simp
      finally show ?thesis using True s by simp
    next
      case False
      have "distractor_loop c (d # ds) acc = distractor_loop c ds acc"
        using lt False by auto
      then show ?thesis using False Cons.IH [OF Cons.prems] by auto
    qed
  qed
qed

lemma exists_loop_iff: "exists_loop opts c \<longleftrightarrow> c \<in> set opts"
  by (induction opts) auto

lemma fallback_loop_eq:
  "distinct fbs \<Longrightarrow> length acc \<le> 4 \<Longrightarrow>
   fallback_loop fbs acc = acc @ take (4 - length acc) (filter (\<lambda>x. x \<notin> set acc) fbs)"
proof (induction fbs arbitrary: acc)
  case Nil
  then show ?case by simp
next
  case (Cons d fbs)
  show ?case
  proof (cases "length acc = 4")
    case True
    then show ?thesis by simp
  next
    case False
    with Cons.prems have lt: "length acc < 4" by simp
    then have s: "4 - length acc = Suc (3 - length acc)" by simp
    from Cons.prems have dist: "distinct fbs" and nin: "d \<notin> set fbs" by simp_all
    show ?thesis
    proof (cases "d \<in> set acc")
      case True
      have "fallback_loop (d # fbs) acc = fallback_loop fbs acc"
        using lt True by (simp add: exists_loop_iff)
      then show ?thesis using True Cons.IH [OF dist Cons.prems(2)] by simp
    next
      case False
      have f: "filter (\<lambda>x. x \<notin> set (acc @ [d])) fbs = filter (\<lambda>x. x \<notin> set acc) fbs"
        using nin by (intro filter_cong) auto
      have "fallback_loop (d # fbs) acc = fallback_loop fbs (acc @ [d])"
        using lt False by (simp add: exists_loop_iff)
      also have "\<dots> = (acc @ [d]) @ take (4 - length (acc @ [d])) (filter (\<lambda>x. x \<notin> set (acc @ [d])) fbs)"
        using lt by (intro Cons.IH [OF dist]) simp
      finally show ?thesis using False s f by simp
    qed
  qed
qed

text \<open>The options before the last shuffle: the correct answer, up to three admissible
  distractors, and fallback cities that are not among them up to four entries.\<close>

lemma options_unshuffled_eq:
  assumes "distinct fbs"
  shows "options_unshuffled fbs c ds =
     (let base = c # take 3 (filter (\<lambda>x. x \<noteq> c \<and> x \<noteq> ''Unknown'') ds)
      in base @ take (4 - length base) (filter (\<lambda>x. x \<notin> set base) fbs))"
proof -
  let ?good = "filter (\<lambda>x. x \<noteq> c \<and> x \<noteq> ''Unknown'') ds"
  have d: "distractor_loop c ds [c] = c # take 3 ?good"
    using distractor_loop_eq [of "[c]" c ds] by simp
  have len: "length (c # take 3 ?good) \<le> 4" by simp
  show ?thesis
  proof (cases "length (c # take 3 ?good) < 4")
    case True
    then show ?thesis
      unfolding options_unshuffled_def d Let_def
      using fallback_loop_eq [OF assms len] by simp
  next
    case False
    with len have "length (c # take 3 ?good) = 4" by linarith
    then show ?thesis unfolding options_unshuffled_def d Let_def by simp
  qed
qed


lemma unshuffled_length: "distinct fbs \<Longrightarrow> length (options_unshuffled fbs c ds) \<le> 4"
  by (simp add: options_unshuffled_eq Let_def)

lemma unshuffled_count: "distinct fbs \<Longrightarrow> count_list (options_unshuffled fbs c ds) c = 1"
proof -
  assume d: "distinct fbs"
  let ?good = "filter (\<lambda>x. x \<noteq> c \<and> x \<noteq> ''Unknown'') ds"
  let ?base = "c # take 3 ?good"
  have "c \<notin> set (take 3 ?good)" by (auto dest: in_set_takeD)
  then have 1: "count_list (take 3 ?good) c = 0" by (simp add: count_list_0_iff)
  have "c \<notin> set (take (4 - length ?base) (filter (\<lambda>x. x \<notin> set ?base) fbs))"
    by (auto dest: in_set_takeD)
  then have 2: "count_list (take (4 - length ?base) (filter (\<lambda>x. x \<notin> set ?base) fbs)) c = 0"
    by (simp only: count_list_0_iff not_False_eq_True)
  show ?thesis
    unfolding options_unshuffled_eq [OF d] Let_def count_list_append 2 using 1 by simp
qed

lemma unshuffled_distinct:
  assumes "distinct fbs" and "distinct ds"
  shows "distinct (options_unshuffled fbs c ds)"
proof -
  let ?good = "filter (\<lambda>x. x \<noteq> c \<and> x \<noteq> ''Unknown'') ds"
  let ?base = "c # take 3 ?good"
  let ?pad = "take (4 - length ?base) (filter (\<lambda>x. x \<notin> set ?base) fbs)"
  have "c \<notin> set (take 3 ?good)" by (auto dest: in_set_takeD)
  moreover have "distinct (take 3 ?good)" using assms(2) by simp
  ultimately have b: "distinct ?base" by simp
  have p: "distinct ?pad" using assms(1) by simp
  have "set ?pad \<subseteq> set (filter (\<lambda>x. x \<notin> set ?base) fbs)" by (rule set_take_subset)
  then have dj: "set ?base \<inter> set ?pad = {}" by auto
  show ?thesis
    unfolding options_unshuffled_eq [OF assms(1)] Let_def distinct_append
    using b p dj by blast
qed

lemma unshuffled_unknown:
  assumes "distinct fbs" and "''Unknown'' \<notin> set fbs" and "c \<noteq> ''Unknown''"
  shows "''Unknown'' \<notin> set (options_unshuffled fbs c ds)"
proof -
  let ?good = "filter (\<lambda>x. x \<noteq> c \<and> x \<noteq> ''Unknown'') ds"
  let ?base = "c # take 3 ?good"
  let ?pad = "take (4 - length ?base) (filter (\<lambda>x. x \<notin> set ?base) fbs)"
  have 1: "''Unknown'' \<notin> set (take 3 ?good)" by (auto dest: in_set_takeD)
  have 2: "''Unknown'' \<notin> set ?pad" using assms(2) by (auto dest: in_set_takeD)
  show ?thesis
    unfolding options_unshuffled_eq [OF assms(1)] Let_def set_append
    using 1 2 assms(3) by auto
qed

lemma unshuffled_padded:
  assumes "distinct fbs" and "length (filter (\<lambda>x. x \<noteq> c \<and> x \<noteq> ''Unknown'') ds) < 3"
  shows "options_unshuffled fbs c ds =
     c # filter (\<lambda>x. x \<noteq> c \<and> x \<noteq> ''Unknown'') ds @
       take (3 - length (filter (\<lambda>x. x \<noteq> c \<and> x \<noteq> ''Unknown'') ds))
         (filter (\<lambda>x. x \<notin> set (c # filter (\<lambda>x. x \<noteq> c \<and> x \<noteq> ''Unknown'') ds)) fbs)"
  using assms(2) unfolding options_unshuffled_eq [OF assms(1)] Let_def by simp

lemma airports_refresh: "correctOption (refreshAirports g) = correctOption g"
  by (simp add: refreshAirports_def LoadAirports_def split: airports_file.splits)

lemma options_generate:
  "options (generateOptions ch g) =
     Shuffle (shuffle2 ch)
       (options_unshuffled [''London'', ''Paris'', ''Berlin'', ''Helsinki'', ''Tokyo'', ''New York'']
          (correctOption g) (Shuffle (shuffle1 ch) (airports (refreshAirports g))))"
  by (simp add: generateOptions_def Let_def airports_refresh)

lemma options_generate_raylib:
  "options (generateOptions_raylib ch g) =
     Shuffle (shuffle2 ch)
       (options_unshuffled [''London'', ''Paris'', ''Berlin'', ''Helsinki'']
          (correctOption g) (Shuffle (shuffle1 ch) (airports (refreshAirports g))))"
  by (simp add: generateOptions_raylib_def Let_def airports_refresh)

lemma correct_generate: "correctOption (generateOptions ch g) = correctOption g"
  by (simp add: generateOptions_def Let_def airports_refresh)

lemma correct_generate_raylib: "correctOption (generateOptions_raylib ch g) = correctOption g"
  by (simp add: generateOptions_raylib_def Let_def airports_refresh)

text \<open>The properties of the option set, for any duplicate-free list of fallback cities
  without ``Unknown''.\<close>

lemma options_shuffled:
  fixes fbs ds :: "string list" and c :: string and r1 r2 :: "nat list"
  assumes fb: "distinct fbs" "''Unknown'' \<notin> set fbs"
  defines "opts \<equiv> Shuffle r2 (options_unshuffled fbs c (Shuffle r1 ds))"
  defines "good \<equiv> filter (\<lambda>x. x \<noteq> c \<and> x \<noteq> ''Unknown'') ds"
  shows "length opts \<le> 4" and "count_list opts c = 1"
    and "distinct ds \<longrightarrow> distinct opts"
    and "c \<noteq> ''Unknown'' \<longrightarrow> ''Unknown'' \<notin> set opts"
    and "length good < 3 \<longrightarrow>
           mset opts = mset (c # good @ take (3 - length good) (filter (\<lambda>x. x \<notin> set (c # good)) fbs))"
proof -
  let ?ds = "Shuffle r1 ds"
  let ?good' = "filter (\<lambda>x. x \<noteq> c \<and> x \<noteq> ''Unknown'') ?ds"
  show "length opts \<le> 4"
    unfolding opts_def length_Shuffle using fb(1) by (rule unshuffled_length)
  show "count_list opts c = 1"
    unfolding opts_def count_Shuffle using fb(1) by (rule unshuffled_count)
  show "distinct ds \<longrightarrow> distinct opts"
    unfolding opts_def distinct_Shuffle
    using unshuffled_distinct [OF fb(1), of ?ds c] by (simp add: distinct_Shuffle)
  show "c \<noteq> ''Unknown'' \<longrightarrow> ''Unknown'' \<notin> set opts"
    unfolding opts_def set_Shuffle using unshuffled_unknown [OF fb] by blast
  show "length good < 3 \<longrightarrow>
           mset opts = mset (c # good @ take (3 - length good) (filter (\<lambda>x. x \<notin> set (c # good)) fbs))"
  proof
    assume lt: "length good < 3"
    have m: "mset ?good' = mset good"
      unfolding good_def by (simp add: mset_filter mset_Shuffle)
    then have l: "length ?good' = length good" by (rule mset_eq_length)
    from m have s: "set ?good' = set good" by (rule mset_eq_setD)
    have "mset opts = mset (options_unshuffled fbs c ?ds)"
      unfolding opts_def by (rule mset_Shuffle)
    also have "options_unshuffled fbs c ?ds =
        c # ?good' @ take (3 - length ?good') (filter (\<lambda>x. x \<notin> set (c # ?good')) fbs)"
      using lt l by (intro unshuffled_padded [OF fb(1)]) simp
    also have "mset \<dots> = mset (c # good @ take (3 - length good) (filter (\<lambda>x. x \<notin> set (c # good)) fbs))"
      unfolding l set_simps s mset.simps mset_append m ..
    finally show "mset opts = mset (c # good @ take (3 - length good) (filter (\<lambda>x. x \<notin> set (c # good)) fbs))" .
  qed
qed

lemma fallbacks_ok:
  "distinct [''London'', ''Paris'', ''Berlin'', ''Helsinki'', ''Tokyo'', ''New York'']"
  "''Unknown'' \<notin> set [''London'', ''Paris'', ''Berlin'', ''Helsinki'', ''Tokyo'', ''New York'']"
  "distinct [''London'', ''Paris'', ''Berlin'', ''Helsinki'']"
  "''Unknown'' \<notin> set [''London'', ''Paris'', ''Berlin'', ''Helsinki'']"
  by simp_all

text \<open>
  What \<^verbatim>\<open>generateOptions\<close> guarantees, in either front end: at most 4 entries; the
  correct answer exactly once; pairwise distinct entries when the airport list in use
  has no repeated entry; no ``Unknown'' unless it is the correct answer; and if fewer
  than 3 entries of the airport list are admissible distractors, the correct answer, all
  of them, and as many cities of the fallback list as are missing to 4, in order and
  skipping those already in the set.
\<close>

lemma generateOptions_properties:
  assumes "(gen = generateOptions \<and>
            fbs = [''London'', ''Paris'', ''Berlin'', ''Helsinki'', ''Tokyo'', ''New York'']) \<or>
           (gen = generateOptions_raylib \<and>
            fbs = [''London'', ''Paris'', ''Berlin'', ''Helsinki''])"
  shows "let opts = options (gen ch g);
             c = correctOption g;
             ds = airports (refreshAirports g);
             good = filter (\<lambda>x. x \<noteq> c \<and> x \<noteq> ''Unknown'') ds
         in length opts \<le> 4 \<and>
            count_list opts c = 1 \<and>
            (distinct ds \<longrightarrow> distinct opts) \<and>
            (c \<noteq> ''Unknown'' \<longrightarrow> ''Unknown'' \<notin> set opts) \<and>
            (length good < 3 \<longrightarrow>
               mset opts =
               mset (c # good @ take (3 - length good) (filter (\<lambda>x. x \<notin> set (c # good)) fbs)))"
proof -
  have fb: "distinct fbs" "''Unknown'' \<notin> set fbs"
    using assms fallbacks_ok by blast+
  have o: "options (gen ch g) =
      Shuffle (shuffle2 ch) (options_unshuffled fbs (correctOption g)
        (Shuffle (shuffle1 ch) (airports (refreshAirports g))))"
    using assms options_generate [of ch g] options_generate_raylib [of ch g] by blast
  show ?thesis
    unfolding Let_def o
    using options_shuffled [OF fb, where ?r2.0 = "shuffle2 ch" and c = "correctOption g"
        and ?r1.0 = "shuffle1 ch" and ds = "airports (refreshAirports g)"]
    by blast
qed

text \<open>The airport file never holds a name twice: \<^verbatim>\<open>SaveAirport\<close>, its only writer, adds
  a name that is not there yet; so the airport list in use has no repeated entry.\<close>

lemma SaveAirport_distinct:
  assumes "LoadAirports dm = Some as" and "distinct as"
  shows "\<exists>bs. LoadAirports (SaveAirport city dm) = Some bs \<and> distinct bs"
proof (cases "city = [] \<or> city = ''Unknown'' \<or> city = ''N/A''")
  case True
  then have "SaveAirport city dm = dm" unfolding SaveAirport_def by (simp only: if_True)
  with assms show ?thesis by simp
next
  case False
  have as: "(case airportsFile dm of NoFile \<Rightarrow> [] | Stored as \<Rightarrow> as) = as"
    using assms(1) by (simp add: LoadAirports_def split: airports_file.splits)
  show ?thesis
  proof (cases "city \<in> set as")
    case True
    then have "SaveAirport city dm = dm"
      using False unfolding SaveAirport_def Let_def as by (simp add: exists_loop_iff)
    with assms show ?thesis by simp
  next
    case nin: False
    then have "SaveAirport city dm = dm\<lparr>airportsFile := Stored (sort (as @ [city]))\<rparr>"
      using False unfolding SaveAirport_def Let_def as by (simp add: exists_loop_iff)
    then have "LoadAirports (SaveAirport city dm) = Some (sort (as @ [city]))"
      by (simp add: LoadAirports_def)
    moreover have "distinct (sort (as @ [city]))" using assms(2) nin by simp
    ultimately show ?thesis by blast
  qed
qed

lemma airports_file_distinct:
  "\<exists>bs. LoadAirports (fold SaveAirport cities \<lparr>airportsFile = NoFile\<rparr>) = Some bs \<and> distinct bs"
proof (induction cities rule: rev_induct)
  case Nil
  then show ?case by (simp add: LoadAirports_def)
next
  case (snoc c cs)
  then obtain bs where "LoadAirports (fold SaveAirport cs \<lparr>airportsFile = NoFile\<rparr>) = Some bs"
    and "distinct bs" by blast
  then show ?case using SaveAirport_distinct [of _ bs c] by simp
qed

lemma SaveAirport_unknown: "SaveAirport ''Unknown'' dm = dm"
  by (simp add: SaveAirport_def)

lemma refreshAirports_distinct:
  assumes "LoadAirports (dataManager g) = Some as" and "distinct as"
  shows "distinct (airports (refreshAirports g))"
  using assms by (simp add: refreshAirports_def)

text \<open>
  A round of \<^verbatim>\<open>go_version\<close> that enters the playing state has an option set of at
  most 4 entries, with the correct answer exactly once, all entries pairwise distinct,
  and without ``Unknown''.
\<close>

lemma round_options:
  assumes stored: "LoadAirports (dataManager g) = Some as" "distinct as"
    and result: "setupRoundWithData ch d g = Some (g', es)"
    and playing: "state g' = StateGamePlaying"
  shows "length (options g') \<le> 4 \<and> count_list (options g') (correctOption g') = 1 \<and>
         distinct (options g') \<and> ''Unknown'' \<notin> set (options g')"
proof -
  have valid: "\<not> (RealDestination d = [] \<or> RealDestination d = ''Unknown'' \<or>
                  rdOrigin d = [] \<or> rdOrigin d = ''Unknown'')"
  proof
    assume "RealDestination d = [] \<or> RealDestination d = ''Unknown'' \<or>
            rdOrigin d = [] \<or> rdOrigin d = ''Unknown''"
    from setupRoundWithData_discards(1) [OF this, of ch g] result
    have "pickNewTarget (drawn ch) (g\<lparr>resolvedDetails := Some d, resolving := False\<rparr>) = (g', es)"
      by simp
    then have "fst (pickNewTarget (drawn ch) (g\<lparr>resolvedDetails := Some d, resolving := False\<rparr>)) = g'"
      by simp
    then have "state g' = StateRoundSetup" using pickNewTarget_state by blast
    with playing show False by simp
  qed
  define g1 where "g1 = g\<lparr>resolvedDetails := Some d, resolving := False\<rparr>"
  define g2 where "g2 = g1\<lparr>dataManager := SaveAirport (RealDestination d) (dataManager g1)\<rparr>"
  define g3 where "g3 = g2\<lparr>dataManager := SaveAirport (rdOrigin d) (dataManager g2)\<rparr>"
  define c where "c = (if Contains (RealDestination d) ''Helsinki'' \<or>
                          Contains (RealDestination d) ''Vantaa''
                       then rdOrigin d else RealDestination d)"
  obtain tp where tp: "targetPlane g = Some tp"
    using result valid
    by (cases "targetPlane g") (simp_all add: setupRoundWithData_def Let_def)
  define g4 where "g4 = (if Contains (RealDestination d) ''Helsinki'' \<or>
                            Contains (RealDestination d) ''Vantaa''
                         then g3\<lparr>questionText := ''Where is '' @ Callsign tp @ '' from?'',
                                 correctOption := rdOrigin d\<rparr>
                         else g3\<lparr>questionText := ''Where is '' @ Callsign tp @ '' going?'',
                                 correctOption := RealDestination d\<rparr>)"
  have g': "g' = (generateOptions ch g4)\<lparr>roundStartTime := started ch, state := StateGamePlaying\<rparr>"
    using result valid tp
    unfolding setupRoundWithData_def Let_def g4_def g3_def g2_def g1_def by simp
  have c4: "correctOption g4 = c" by (simp add: g4_def c_def)
  have cu: "c \<noteq> ''Unknown''" using valid by (simp add: c_def)
  have dm: "dataManager g4 =
      SaveAirport (rdOrigin d) (SaveAirport (RealDestination d) (dataManager g))"
    by (simp add: g4_def g3_def g2_def g1_def)
  obtain bs where "LoadAirports (SaveAirport (RealDestination d) (dataManager g)) = Some bs"
    and "distinct bs"
    using SaveAirport_distinct [OF stored] by blast
  then obtain cs where "LoadAirports (dataManager g4) = Some cs" and "distinct cs"
    unfolding dm using SaveAirport_distinct [of _ bs "rdOrigin d"] by blast
  then have ds: "distinct (airports (refreshAirports g4))" by (rule refreshAirports_distinct)
  have o: "options g' = options (generateOptions ch g4)" by (simp add: g')
  have co: "correctOption g' = c" by (simp add: g' correct_generate c4)
  show ?thesis
    using generateOptions_properties [of generateOptions
        "[''London'', ''Paris'', ''Berlin'', ''Helsinki'', ''Tokyo'', ''New York'']" ch g4]
      ds cu
    unfolding Let_def o co c4 by blast
qed

text \<open>
  Claim C5 on the code of \<^verbatim>\<open>go_raylib\<close>: a resolver result with destination
  ``Helsinki'' and origin ``Unknown'' passes the validation, which tests the destination
  only; the flight is inbound, so the origin becomes the correct answer, and the option
  set of the round contains ``Unknown''. \<^verbatim>\<open>go_version\<close> discards the same result.
\<close>

theorem options_raylib_unknown:
  "map_option (state \<circ> fst)
     (setupRoundWithData_raylib chance0 details_unknown_origin game_setup) =
     Some StateGamePlaying \<and>
   map_option (correctOption \<circ> fst)
     (setupRoundWithData_raylib chance0 details_unknown_origin game_setup) = Some ''Unknown'' \<and>
   map_option (options \<circ> fst)
     (setupRoundWithData_raylib chance0 details_unknown_origin game_setup) =
     Some [''Paris'', ''Unknown'', ''Rome'', ''Helsinki''] \<and>
   map_option (state \<circ> fst)
     (setupRoundWithData chance0 details_unknown_origin game_setup) = Some StateRoundSetup"
  by code_simp

text \<open>This does not depend on the airport file, on the flights or on the random numbers:
  whenever a target plane is set, the round for this resolver result is played with
  ``Unknown'' as the correct answer and among the options.\<close>

lemma raylib_unknown_option:
  assumes "targetPlane g = Some tp"
  shows "\<exists>g' es. setupRoundWithData_raylib ch details_unknown_origin g = Some (g', es) \<and>
           state g' = StateGamePlaying \<and> correctOption g' = ''Unknown'' \<and>
           ''Unknown'' \<in> set (options g')"
proof -
  define g3 where "g3 = g\<lparr>resolvedDetails := Some details_unknown_origin, resolving := False,
      dataManager := SaveAirport ''Unknown'' (SaveAirport ''Helsinki'' (dataManager g))\<rparr>"
  define g4 where "g4 = g3\<lparr>questionText := ''Where is '' @ Callsign tp @ '' from?'',
      correctOption := ''Unknown''\<rparr>"
  define g' where "g' = (generateOptions_raylib ch g4)\<lparr>roundStartTime := started ch,
      state := StateGamePlaying\<rparr>"
  have d: "RealDestination details_unknown_origin = ''Helsinki''"
    "rdOrigin details_unknown_origin = ''Unknown''"
    by (simp_all add: details_unknown_origin_def)
  have h: "Contains ''Helsinki'' ''Helsinki''" by simp
  have r: "setupRoundWithData_raylib ch details_unknown_origin g = Some (g', [])"
    unfolding setupRoundWithData_raylib_def Let_def d
    using assms h by (simp add: g'_def g4_def g3_def)
  have c4: "correctOption g4 = ''Unknown''" by (simp add: g4_def)
  have "count_list (options (generateOptions_raylib ch g4)) (correctOption g4) = 1"
    using generateOptions_properties [of generateOptions_raylib
        "[''London'', ''Paris'', ''Berlin'', ''Helsinki'']" ch g4]
    unfolding Let_def by blast
  then have "count_list (options g') ''Unknown'' \<noteq> 0" by (simp add: g'_def c4)
  then have "''Unknown'' \<in> set (options g')" by (simp only: count_list_0_iff not_not)
  moreover have "correctOption g' = ''Unknown''"
    by (simp add: g'_def correct_generate_raylib c4)
  moreover have "state g' = StateGamePlaying" by (simp add: g'_def)
  ultimately show ?thesis using r by blast
qed

text \<open>The same round in \<^verbatim>\<open>go_version\<close> with the origin ``Oslo'': the options are the
  origin and three of the four names of the airport file.\<close>

lemma round_options_example:
  "map_option (options \<circ> fst)
     (setupRoundWithData chance0 (details_unknown_origin\<lparr>rdOrigin := ''Oslo''\<rparr>) game_setup) =
     Some [''Helsinki'', ''Oslo'', ''Rome'', ''Paris'']"
  by code_simp

subsection \<open>Scoring a guess\<close>

text \<open>Integers up to \<open>2\<^sup>5\<^sup>3\<close> are \<^verbatim>\<open>float64\<close> values.\<close>

lemma float64_of_int_exact: "\<bar>n\<bar> \<le> 2 ^ 53 \<Longrightarrow> float64_of_int n = real_of_int n"
  unfolding float64_of_int_def by (rule round64_exact) (rule is_float64_int)

lemma round64_ge_int: "\<bar>n\<bar> \<le> 2 ^ 53 \<Longrightarrow> real_of_int n \<le> x \<Longrightarrow> real_of_int n \<le> round64 x"
  by (rule round64_ge) (rule is_float64_int)

lemma round64_le_int: "\<bar>n\<bar> \<le> 2 ^ 53 \<Longrightarrow> x \<le> real_of_int n \<Longrightarrow> round64 x \<le> real_of_int n"
  by (rule round64_le) (rule is_float64_int)

lemma round64_int: "\<bar>n\<bar> \<le> 2 ^ 53 \<Longrightarrow> round64 (real_of_int n) = real_of_int n"
  by (rule round64_exact) (rule is_float64_int)

text \<open>The whole seconds and the nanoseconds of a duration.\<close>

lemma Since_range: "minDuration \<le> Since now t \<and> Since now t \<le> maxDuration"
  by (simp add: Since_def minDuration_def maxDuration_def)

lemma go_quot_Second_lower: "minDuration \<le> d \<Longrightarrow> - (2 ^ 34) \<le> go_quot d Second"
proof (cases "0 \<le> d")
  case True
  then have "0 \<le> go_quot d Second" by (simp add: go_quot_def Second_def sgn_if)
  then show ?thesis by simp
next
  case False
  assume "minDuration \<le> d"
  with False have "\<bar>d\<bar> \<le> 2 ^ 63" by (simp add: minDuration_def)
  then have "\<bar>d\<bar> div 1000000000 \<le> 2 ^ 63 div 1000000000" by (rule zdiv_mono1) simp
  then have "\<bar>d\<bar> div 1000000000 \<le> 2 ^ 34" by simp
  with False show ?thesis by (simp add: go_quot_def Second_def sgn_if)
qed

lemma go_quot_Second_nonneg: "0 \<le> d \<Longrightarrow> go_quot d Second = d div 1000000000"
  by (simp add: go_quot_def Second_def sgn_if)

lemma go_rem_Second_nonneg: "0 \<le> d \<Longrightarrow> go_rem d Second = d mod 1000000000"
  by (simp add: go_rem_def Second_def sgn_if)

lemma go_rem_Second_range: "\<bar>go_rem d Second\<bar> < 1000000000"
proof -
  define m where "m = \<bar>d\<bar> mod 1000000000"
  have m: "0 \<le> m" "m < 1000000000" by (simp_all add: m_def)
  have "go_rem d Second = sgn d * m" by (simp add: go_rem_def Second_def m_def)
  then show ?thesis using m by (simp add: sgn_if)
qed

text \<open>The nanoseconds as a fraction of a second, in \<^verbatim>\<open>float64\<close>: between -1 and 1, and
  not negative for a duration that is not negative.\<close>

lemma frac_range:
  "- 1 \<le> fdiv (float64_of_int (go_rem d Second)) 1000000000"
  "0 \<le> d \<Longrightarrow> 0 \<le> fdiv (float64_of_int (go_rem d Second)) 1000000000"
proof -
  let ?r = "go_rem d Second"
  have r: "\<bar>?r\<bar> < 1000000000" by (rule go_rem_Second_range)
  then have e: "float64_of_int ?r = real_of_int ?r" by (intro float64_of_int_exact) simp
  from r have "- 1000000000 \<le> real_of_int ?r" by simp
  then have "real_of_int (- 1) \<le> real_of_int ?r / 1000000000" by simp
  then have "real_of_int (- 1) \<le> round64 (real_of_int ?r / 1000000000)"
    by (intro round64_ge_int) simp_all
  then show "- 1 \<le> fdiv (float64_of_int ?r) 1000000000" by (simp add: fdiv_def e)
  assume "0 \<le> d"
  then have "0 \<le> ?r" by (simp add: go_rem_Second_nonneg)
  then have "0 \<le> real_of_int ?r / 1000000000" by simp
  then have "0 \<le> round64 (real_of_int ?r / 1000000000)"
    by (rule round64_ge [OF is_float64_zero])
  then show "0 \<le> fdiv (float64_of_int ?r) 1000000000" by (simp add: fdiv_def e)
qed

text \<open>\<^verbatim>\<open>Seconds\<close> is bounded from below, is zero at zero, is not negative for a
  duration that is not negative, and is at least 20 from 20 seconds on.\<close>

lemma Seconds_lower:
  assumes "minDuration \<le> d"
  shows "- (2 ^ 35) \<le> Seconds d"
proof -
  have "- (2 ^ 34) \<le> go_quot d Second" using assms by (rule go_quot_Second_lower)
  then have "real_of_int (- (2 ^ 34)) \<le> real_of_int (go_quot d Second)" by linarith
  then have "real_of_int (- (2 ^ 34)) \<le> round64 (real_of_int (go_quot d Second))"
    by (intro round64_ge_int) simp_all
  then have q: "- (2 ^ 34) \<le> float64_of_int (go_quot d Second)"
    by (simp add: float64_of_int_def)
  have "real_of_int (- (2 ^ 35)) \<le>
      float64_of_int (go_quot d Second) + fdiv (float64_of_int (go_rem d Second)) 1000000000"
    using q frac_range(1) [of d] by simp
  then have "real_of_int (- (2 ^ 35)) \<le>
      round64 (float64_of_int (go_quot d Second) +
               fdiv (float64_of_int (go_rem d Second)) 1000000000)"
    by (intro round64_ge_int) simp_all
  then show ?thesis by (simp add: Seconds_def fadd_def)
qed

lemma Seconds_zero: "Seconds 0 = 0"
  by (simp add: Seconds_def go_quot_def go_rem_def fadd_def fdiv_def float64_of_int_def
      round64_zero)

lemma Seconds_from:
  assumes "n * 1000000000 \<le> d" and "0 \<le> n" and "n \<le> 2 ^ 53"
  shows "real_of_int n \<le> Seconds d"
proof -
  have d: "0 \<le> d" using assms(1,2) by simp
  have "(n * 1000000000) div 1000000000 \<le> d div 1000000000"
    using assms(1) by (rule zdiv_mono1) simp
  then have "n \<le> d div 1000000000" by simp
  then have "real_of_int n \<le> real_of_int (go_quot d Second)"
    using d by (simp add: go_quot_Second_nonneg)
  then have "real_of_int n \<le> round64 (real_of_int (go_quot d Second))"
    using assms(2,3) by (intro round64_ge_int) simp_all
  then have q: "real_of_int n \<le> float64_of_int (go_quot d Second)"
    by (simp add: float64_of_int_def)
  have "real_of_int n \<le>
      float64_of_int (go_quot d Second) + fdiv (float64_of_int (go_rem d Second)) 1000000000"
    using q frac_range(2) [OF d] by simp
  then have "real_of_int n \<le>
      round64 (float64_of_int (go_quot d Second) +
               fdiv (float64_of_int (go_rem d Second)) 1000000000)"
    using assms(2,3) by (intro round64_ge_int) simp_all
  then show ?thesis by (simp add: Seconds_def fadd_def)
qed

text \<open>The bonus before its conversion to \<^verbatim>\<open>int\<close>, bounded from above through the
  three operations.\<close>

lemma bonus_upper:
  assumes "20 - e \<le> real_of_int u" and "real_of_int u / 20 \<le> real_of_int v"
    and "real_of_int v * 100 \<le> real_of_int w"
    and "\<bar>u\<bar> \<le> 2 ^ 53" and "\<bar>v\<bar> \<le> 2 ^ 53" and "\<bar>w\<bar> \<le> 2 ^ 53"
  shows "fmul (fdiv (fsub 20 e) 20) 100 \<le> real_of_int w"
proof -
  have 1: "fsub 20 e \<le> real_of_int u"
    unfolding fsub_def using assms(4,1) by (rule round64_le_int)
  have "fsub 20 e / 20 \<le> real_of_int v" using 1 assms(2) by simp
  with assms(5) have 2: "fdiv (fsub 20 e) 20 \<le> real_of_int v"
    unfolding fdiv_def by (rule round64_le_int)
  have "fdiv (fsub 20 e) 20 * 100 \<le> real_of_int w" using 2 assms(3) by simp
  with assms(6) show ?thesis unfolding fmul_def by (rule round64_le_int)
qed

lemma bonus_bounded:
  assumes "minDuration \<le> d"
  shows "fmul (fdiv (fsub 20 (Seconds d)) 20) 100 \<le> 2 ^ 43"
proof -
  have "20 - Seconds d \<le> real_of_int (2 ^ 36)" using Seconds_lower [OF assms] by simp
  then have "fmul (fdiv (fsub 20 (Seconds d)) 20) 100 \<le> real_of_int (2 ^ 43)"
    by (rule bonus_upper [where v = "2 ^ 36"]) simp_all
  then show ?thesis by simp
qed

lemma bonus_at_most_100:
  assumes "0 \<le> d"
  shows "fmul (fdiv (fsub 20 (Seconds d)) 20) 100 \<le> 100"
proof -
  have "real_of_int 0 \<le> Seconds d" using assms by (intro Seconds_from) simp_all
  then have "20 - Seconds d \<le> real_of_int 20" by simp
  then have "fmul (fdiv (fsub 20 (Seconds d)) 20) 100 \<le> real_of_int 100"
    by (rule bonus_upper [where v = 1]) simp_all
  then show ?thesis by simp
qed

lemma bonus_none:
  assumes "20 * Second \<le> d"
  shows "fmul (fdiv (fsub 20 (Seconds d)) 20) 100 \<le> 0"
proof -
  have "real_of_int 20 \<le> Seconds d" using assms by (intro Seconds_from) (simp_all add: Second_def)
  then have "20 - Seconds d \<le> real_of_int 0" by simp
  then have "fmul (fdiv (fsub 20 (Seconds d)) 20) 100 \<le> real_of_int 0"
    by (rule bonus_upper [where v = 0]) simp_all
  then show ?thesis by simp
qed

lemma bonus_full: "fmul (fdiv (fsub 20 (Seconds 0)) 20) 100 = 100"
proof -
  have 1: "fsub 20 (Seconds 0) = 20"
    using round64_int [of 20] by (simp add: fsub_def Seconds_zero)
  have 2: "fdiv 20 20 = 1" using round64_int [of 1] by (simp add: fdiv_def)
  have 3: "fmul 1 100 = 100" using round64_int [of 100] by (simp add: fmul_def)
  show ?thesis unfolding 1 2 3 by (rule refl)
qed

text \<open>The conversion of the bonus to \<^verbatim>\<open>int\<close> is always in range: the bonus is the
  floor of the \<^verbatim>\<open>float64\<close> value, or 0 when that is negative.\<close>

lemma go_int_bonus:
  assumes "x \<le> 2 ^ 43"
  shows "go_int wild (max 0 x) = max 0 \<lfloor>x\<rfloor>"
proof (cases "0 \<le> x")
  case True
  then have m: "max 0 x = x" by simp
  have "\<lfloor>x\<rfloor> \<le> 2 ^ 43" using assms by (simp add: floor_le_iff)
  moreover have "0 \<le> \<lfloor>x\<rfloor>" using True by simp
  ultimately show ?thesis
    using True unfolding m by (simp add: go_int_def fits_int64_def toward_zero_def)
next
  case False
  then have m: "max 0 x = 0" by simp
  have "\<lfloor>x\<rfloor> < 0" using False by (simp add: floor_less_iff)
  then show ?thesis unfolding m by (simp add: go_int_zero)
qed

lemma guess_correct:
  "\<not> showResult g \<Longrightarrow>
   score (guess wild now shown (correctOption g) g) =
     score g + (100 + max 0 \<lfloor>fmul (fdiv (fsub 20 (Seconds (Since now (roundStartTime g)))) 20) 100\<rfloor>)"
  using go_int_bonus [OF bonus_bounded, of "Since now (roundStartTime g)" wild] Since_range [of now "roundStartTime g"]
  by (simp add: guess_def Let_def)

text \<open>
  Between 0 and 20 seconds the bonus before its conversion differs from the quotient
  of the real numbers by the rounding errors of five operations.
\<close>

lemma bonus_error:
  assumes "0 \<le> d" and "d \<le> 20 * Second"
  shows "\<bar>fmul (fdiv (fsub 20 (Seconds d)) 20) 100 -
          (20 - real_of_int d / 1000000000) / 20 * 100\<bar> \<le> 1 / 2 ^ 40"
proof -
  define q where "q = d div 1000000000"
  define r where "r = d mod 1000000000"
  have d: "d = q * 1000000000 + r" by (simp add: q_def r_def)
  have r: "0 \<le> r" "r < 1000000000" by (simp_all add: r_def)
  have q0: "0 \<le> q" using assms(1) by (simp add: q_def pos_imp_zdiv_nonneg_iff)
  have "d div 1000000000 \<le> 20000000000 div 1000000000"
    using assms(2) by (intro zdiv_mono1) (simp_all add: Second_def)
  then have q20: "q \<le> 20" by (simp add: q_def)
  have t: "real_of_int d / 1000000000 = real_of_int q + real_of_int r / 1000000000"
    by (simp add: d)
  define f where "f = round64 (real_of_int r / 1000000000)"
  have fr: "0 \<le> real_of_int r / 1000000000" "real_of_int r / 1000000000 \<le> 1"
    using r by simp_all
  have e1: "\<bar>f - real_of_int r / 1000000000\<bar> \<le> pow2 (0 - 53)"
    unfolding f_def using fr by (intro round64_error) (simp_all add: pow2_def)
  have f0: "0 \<le> f" unfolding f_def using fr(1) by (rule round64_ge [OF is_float64_zero])
  have "round64 (real_of_int r / 1000000000) \<le> real_of_int 1"
    using fr(2) by (intro round64_le_int) simp_all
  then have f1: "f \<le> 1" by (simp add: f_def)
  define e where "e = round64 (real_of_int q + f)"
  have s: "Seconds d = e"
    using assms(1) q0 q20 r
    by (simp add: Seconds_def fadd_def fdiv_def go_quot_Second_nonneg go_rem_Second_nonneg
        float64_of_int_exact e_def f_def q_def r_def)
  have qf: "0 \<le> real_of_int q + f" "real_of_int q + f \<le> 21" using q0 q20 f0 f1 by simp_all
  have e2: "\<bar>e - (real_of_int q + f)\<bar> \<le> pow2 (5 - 53)"
    unfolding e_def using qf by (intro round64_error) (simp_all add: pow2_def)
  have e0: "0 \<le> e" unfolding e_def using qf(1) by (rule round64_ge [OF is_float64_zero])
  have "round64 (real_of_int q + f) \<le> real_of_int 21"
    using qf(2) by (intro round64_le_int) simp_all
  then have e21: "e \<le> 21" by (simp add: e_def)
  define a where "a = round64 (20 - e)"
  have e3: "\<bar>a - (20 - e)\<bar> \<le> pow2 (5 - 53)"
    unfolding a_def using e0 e21 by (intro round64_error) (simp_all add: pow2_def)
  have "round64 (20 - e) \<le> real_of_int 20" using e0 by (intro round64_le_int) simp_all
  then have a20: "a \<le> 20" by (simp add: a_def)
  have "real_of_int (- 1) \<le> round64 (20 - e)" using e21 by (intro round64_ge_int) simp_all
  then have a1: "- 1 \<le> a" by (simp add: a_def)
  define b where "b = round64 (a / 20)"
  have e4: "\<bar>b - a / 20\<bar> \<le> pow2 (0 - 53)"
    unfolding b_def using a1 a20 by (intro round64_error) (simp_all add: pow2_def)
  have "round64 (a / 20) \<le> real_of_int 1" using a20 by (intro round64_le_int) simp_all
  then have b1: "b \<le> 1" by (simp add: b_def)
  have "real_of_int (- 1) \<le> round64 (a / 20)" using a1 by (intro round64_ge_int) simp_all
  then have bm: "- 1 \<le> b" by (simp add: b_def)
  define c where "c = round64 (b * 100)"
  have e5: "\<bar>c - b * 100\<bar> \<le> pow2 (7 - 53)"
    unfolding c_def using b1 bm by (intro round64_error) (simp_all add: pow2_def)
  have c: "fmul (fdiv (fsub 20 (Seconds d)) 20) 100 = c"
    by (simp add: s fmul_def fdiv_def fsub_def a_def b_def c_def)
  have p: "pow2 (0 - 53) = 1 / 9007199254740992" "pow2 (5 - 53) = 1 / 281474976710656"
    "pow2 (7 - 53) = 1 / 70368744177664"
    by (simp_all add: pow2_def powr_minus_divide)
  define x where "x = real_of_int r / 1000000000"
  have 1: "f - x \<le> 1 / 9007199254740992" "- (1 / 9007199254740992) \<le> f - x"
    using e1 unfolding p x_def by linarith+
  have 2: "e - (real_of_int q + f) \<le> 1 / 281474976710656"
    "- (1 / 281474976710656) \<le> e - (real_of_int q + f)"
    using e2 unfolding p by linarith+
  have 3: "a - (20 - e) \<le> 1 / 281474976710656" "- (1 / 281474976710656) \<le> a - (20 - e)"
    using e3 unfolding p by linarith+
  have 4: "b - a / 20 \<le> 1 / 9007199254740992" "- (1 / 9007199254740992) \<le> b - a / 20"
    using e4 unfolding p by linarith+
  have 5: "c - b * 100 \<le> 1 / 70368744177664" "- (1 / 70368744177664) \<le> c - b * 100"
    using e5 unfolding p by linarith+
  have y: "(20 - (real_of_int q + x)) / 20 * 100 = 100 - 5 * real_of_int q - 5 * x"
    by simp
  have "c - (100 - 5 * real_of_int q - 5 * x) \<le> 1 / 1099511627776"
    using 1 2 3 4 5 by linarith
  moreover have "- (1 / 1099511627776) \<le> c - (100 - 5 * real_of_int q - 5 * x)"
    using 1 2 3 4 5 by linarith
  ultimately have "\<bar>c - (20 - (real_of_int q + x)) / 20 * 100\<bar> \<le> 1 / 1099511627776"
    unfolding y by linarith
  then show ?thesis unfolding c t x_def by simp
qed

text \<open>
  Claim C6, as amended. For every guess submitted while no result is showing: a correct
  guess (the string equals the correct answer) adds 100 + max(0, floor(b)) to the score,
  where b is (20 - elapsed seconds) / 20 * 100 as \<^verbatim>\<open>float64\<close> computes it, each operation
  rounded to the nearest value, and the fraction of b is discarded, not rounded to the
  nearest integer; that is 200 at elapsed time 0, exactly 100 at or after 20 seconds,
  never less than 100, and at most 200 when the elapsed time is not negative. Between 0
  and 20 seconds, with x the quotient (20 - elapsed seconds) / 20 * 100 of the real
  numbers, the score grows by at least 100 + max(0, floor(x - \<open>2\<^sup>-\<^sup>4\<^sup>0\<close>)) and at most
  100 + max(0, floor(x + \<open>2\<^sup>-\<^sup>4\<^sup>0\<close>)), that is by 100 + floor(x) unless x is that close
  to an integer. An incorrect guess adds nothing and records the wrong choice. A guess
  submitted while a result is showing changes nothing.
\<close>

theorem guess_scoring:
  "(\<not> showResult g \<and> city = correctOption g \<longrightarrow>
      score (guess wild now shown city g) =
        score g + (100 + max 0 \<lfloor>fmul (fdiv (fsub 20 (Seconds (Since now (roundStartTime g)))) 20) 100\<rfloor>) \<and>
      score g + 100 \<le> score (guess wild now shown city g)) \<and>
   (\<not> showResult g \<and> city = correctOption g \<and> Since now (roundStartTime g) = 0 \<longrightarrow>
      score (guess wild now shown city g) = score g + 200) \<and>
   (\<not> showResult g \<and> city = correctOption g \<and> 20 * Second \<le> Since now (roundStartTime g) \<longrightarrow>
      score (guess wild now shown city g) = score g + 100) \<and>
   (\<not> showResult g \<and> city = correctOption g \<and> 0 \<le> Since now (roundStartTime g) \<longrightarrow>
      score (guess wild now shown city g) \<le> score g + 200) \<and>
   (\<not> showResult g \<and> city = correctOption g \<and> 0 \<le> Since now (roundStartTime g) \<and>
    Since now (roundStartTime g) \<le> 20 * Second \<longrightarrow>
      score g + (100 + max 0 \<lfloor>(20 - real_of_int (Since now (roundStartTime g)) / 1000000000) / 20 * 100
                                 - 1 / 2 ^ 40\<rfloor>)
        \<le> score (guess wild now shown city g) \<and>
      score (guess wild now shown city g)
        \<le> score g + (100 + max 0 \<lfloor>(20 - real_of_int (Since now (roundStartTime g)) / 1000000000) / 20 * 100
                                   + 1 / 2 ^ 40\<rfloor>)) \<and>
   (\<not> showResult g \<and> city \<noteq> correctOption g \<longrightarrow>
      score (guess wild now shown city g) = score g \<and>
      wrongGuess (guess wild now shown city g) = city) \<and>
   (showResult g \<longrightarrow> guess wild now shown city g = g)"
proof (intro conjI impI)
  assume a: "\<not> showResult g \<and> city = correctOption g"
  then show "score (guess wild now shown city g) =
        score g + (100 + max 0 \<lfloor>fmul (fdiv (fsub 20 (Seconds (Since now (roundStartTime g)))) 20) 100\<rfloor>)"
    using guess_correct [of g wild now shown] by simp
  then show "score g + 100 \<le> score (guess wild now shown city g)" by simp
next
  assume a: "\<not> showResult g \<and> city = correctOption g \<and> Since now (roundStartTime g) = 0"
  then show "score (guess wild now shown city g) = score g + 200"
    using guess_correct [of g wild now shown] by (simp add: bonus_full)
next
  assume a: "\<not> showResult g \<and> city = correctOption g \<and> 20 * Second \<le> Since now (roundStartTime g)"
  then have "fmul (fdiv (fsub 20 (Seconds (Since now (roundStartTime g)))) 20) 100 \<le> 0"
    by (intro bonus_none) simp
  then have "\<lfloor>fmul (fdiv (fsub 20 (Seconds (Since now (roundStartTime g)))) 20) 100\<rfloor> \<le> 0"
    by (simp add: floor_le_iff)
  then have m: "max 0 \<lfloor>fmul (fdiv (fsub 20 (Seconds (Since now (roundStartTime g)))) 20) 100\<rfloor> = 0"
    by (rule max_absorb1)
  have "score (guess wild now shown city g) =
        score g + (100 + max 0 \<lfloor>fmul (fdiv (fsub 20 (Seconds (Since now (roundStartTime g)))) 20) 100\<rfloor>)"
    using a guess_correct [of g wild now shown] by simp
  then show "score (guess wild now shown city g) = score g + 100"
    unfolding m by simp
next
  assume a: "\<not> showResult g \<and> city = correctOption g \<and> 0 \<le> Since now (roundStartTime g)"
  then have "fmul (fdiv (fsub 20 (Seconds (Since now (roundStartTime g)))) 20) 100 \<le> 100"
    by (intro bonus_at_most_100) simp
  then have "\<lfloor>fmul (fdiv (fsub 20 (Seconds (Since now (roundStartTime g)))) 20) 100\<rfloor> \<le> 100"
    by (simp add: floor_le_iff)
  moreover have "score (guess wild now shown city g) =
        score g + (100 + max 0 \<lfloor>fmul (fdiv (fsub 20 (Seconds (Since now (roundStartTime g)))) 20) 100\<rfloor>)"
    using a guess_correct [of g wild now shown] by simp
  ultimately show "score (guess wild now shown city g) \<le> score g + 200" by simp
next
  assume a: "\<not> showResult g \<and> city = correctOption g \<and> 0 \<le> Since now (roundStartTime g) \<and>
    Since now (roundStartTime g) \<le> 20 * Second"
  define c where "c = fmul (fdiv (fsub 20 (Seconds (Since now (roundStartTime g)))) 20) 100"
  define x where "x = (20 - real_of_int (Since now (roundStartTime g)) / 1000000000) / 20 * 100"
  have "\<bar>c - x\<bar> \<le> 1 / 2 ^ 40" unfolding c_def x_def using a by (intro bonus_error) simp_all
  then have b: "x - 1 / 2 ^ 40 \<le> c" "c \<le> x + 1 / 2 ^ 40" by linarith+
  have "\<lfloor>x - 1 / 2 ^ 40\<rfloor> \<le> \<lfloor>c\<rfloor>" using b(1) by (rule floor_mono)
  moreover have "\<lfloor>c\<rfloor> \<le> \<lfloor>x + 1 / 2 ^ 40\<rfloor>" using b(2) by (rule floor_mono)
  ultimately
  have m: "max 0 \<lfloor>x - 1 / 2 ^ 40\<rfloor> \<le> max 0 \<lfloor>c\<rfloor>" "max 0 \<lfloor>c\<rfloor> \<le> max 0 \<lfloor>x + 1 / 2 ^ 40\<rfloor>"
    by linarith+
  have s: "score (guess wild now shown city g) = score g + (100 + max 0 \<lfloor>c\<rfloor>)"
    unfolding c_def using a guess_correct [of g wild now shown] by simp
  show "score g + (100 + max 0 \<lfloor>(20 - real_of_int (Since now (roundStartTime g)) / 1000000000) / 20 * 100
                                 - 1 / 2 ^ 40\<rfloor>)
        \<le> score (guess wild now shown city g)"
    using m(1) unfolding s x_def by simp
  show "score (guess wild now shown city g)
        \<le> score g + (100 + max 0 \<lfloor>(20 - real_of_int (Since now (roundStartTime g)) / 1000000000) / 20 * 100
                                   + 1 / 2 ^ 40\<rfloor>)"
    using m(2) unfolding s x_def by simp
next
  assume "\<not> showResult g \<and> city \<noteq> correctOption g"
  then show "score (guess wild now shown city g) = score g"
    and "wrongGuess (guess wild now shown city g) = city"
    by (simp_all add: guess_def Let_def)
next
  assume "showResult g"
  then show "guess wild now shown city g = g" by (simp add: guess_def)
qed

text \<open>The bonus 50 milliseconds and 1.8 seconds into a round, step by step.\<close>

lemma frac_50ms: "round64 (50000000 / 1000000000) = 3602879701896397 / 72057594037927936"
proof -
  have "round64 (50000000 / 1000000000) =
      real_of_int (round_even ((50000000 / 1000000000) / pow2 (-5 - 52))) * pow2 (-5 - 52)"
    by (rule round64_at) (simp_all add: pow2_def powr_minus_divide)
  then show ?thesis
    by (simp add: pow2_def round_even_def Let_def powr_minus_divide)
qed

lemma sum_50ms: "round64 (0 + 3602879701896397 / 72057594037927936) = 3602879701896397 / 72057594037927936"
proof -
  have "round64 (0 + 3602879701896397 / 72057594037927936) =
      real_of_int (round_even ((0 + 3602879701896397 / 72057594037927936) / pow2 (-5 - 52))) * pow2 (-5 - 52)"
    by (rule round64_at) (simp_all add: pow2_def powr_minus_divide)
  then show ?thesis
    by (simp add: pow2_def round_even_def Let_def powr_minus_divide)
qed

lemma seconds_50ms: "Seconds 50000000 = 3602879701896397 / 72057594037927936"
proof -
  have "Seconds 50000000 = fadd 0 (fdiv 50000000 1000000000)"
    by (simp add: Seconds_def go_quot_def go_rem_def Second_def float64_of_int_exact)
  also have "\<dots> = 3602879701896397 / 72057594037927936"
    unfolding fadd_def fdiv_def frac_50ms sum_50ms by (rule refl)
  finally show ?thesis .
qed

lemma left_50ms: "round64 (20 - 3602879701896397 / 72057594037927936) = 5615425785377587 / 281474976710656"
proof -
  have "round64 (20 - 3602879701896397 / 72057594037927936) =
      real_of_int (round_even ((20 - 3602879701896397 / 72057594037927936) / pow2 (4 - 52))) * pow2 (4 - 52)"
    by (rule round64_at) (simp_all add: pow2_def powr_minus_divide)
  then show ?thesis
    by (simp add: pow2_def round_even_def Let_def powr_minus_divide)
qed

lemma part_50ms: "round64 (5615425785377587 / 281474976710656 / 20) = 8984681256604139 / 9007199254740992"
proof -
  have "round64 (5615425785377587 / 281474976710656 / 20) =
      real_of_int (round_even ((5615425785377587 / 281474976710656 / 20) / pow2 (-1 - 52))) * pow2 (-1 - 52)"
    by (rule round64_at) (simp_all add: pow2_def powr_minus_divide)
  then show ?thesis
    by (simp add: pow2_def round_even_def Let_def powr_minus_divide)
qed

lemma scaled_50ms: "round64 (8984681256604139 / 9007199254740992 * 100) = 399 / 4"
proof -
  have "round64 (8984681256604139 / 9007199254740992 * 100) =
      real_of_int (round_even ((8984681256604139 / 9007199254740992 * 100) / pow2 (6 - 52))) * pow2 (6 - 52)"
    by (rule round64_at) (simp_all add: pow2_def powr_minus_divide)
  then show ?thesis
    by (simp add: pow2_def round_even_def Let_def powr_minus_divide)
qed

lemma bonus_50ms: "fmul (fdiv (fsub 20 (Seconds 50000000)) 20) 100 = 399 / 4"
  unfolding seconds_50ms fsub_def fdiv_def fmul_def left_50ms part_50ms scaled_50ms by (rule refl)

lemma frac_1800ms: "round64 (800000000 / 1000000000) = 3602879701896397 / 4503599627370496"
proof -
  have "round64 (800000000 / 1000000000) =
      real_of_int (round_even ((800000000 / 1000000000) / pow2 (-1 - 52))) * pow2 (-1 - 52)"
    by (rule round64_at) (simp_all add: pow2_def powr_minus_divide)
  then show ?thesis
    by (simp add: pow2_def round_even_def Let_def powr_minus_divide)
qed

lemma sum_1800ms: "round64 (1 + 3602879701896397 / 4503599627370496) = 8106479329266893 / 4503599627370496"
proof -
  have "round64 (1 + 3602879701896397 / 4503599627370496) =
      real_of_int (round_even ((1 + 3602879701896397 / 4503599627370496) / pow2 (0 - 52))) * pow2 (0 - 52)"
    by (rule round64_at) (simp_all add: pow2_def powr_minus_divide)
  then show ?thesis
    by (simp add: pow2_def round_even_def Let_def powr_minus_divide)
qed

lemma seconds_1800ms: "Seconds 1800000000 = 8106479329266893 / 4503599627370496"
proof -
  have "Seconds 1800000000 = fadd 1 (fdiv 800000000 1000000000)"
    by (simp add: Seconds_def go_quot_def go_rem_def Second_def float64_of_int_exact)
  also have "\<dots> = 8106479329266893 / 4503599627370496"
    unfolding fadd_def fdiv_def frac_1800ms sum_1800ms by (rule refl)
  finally show ?thesis .
qed

lemma left_1800ms: "round64 (20 - 8106479329266893 / 4503599627370496) = 5122844576133939 / 281474976710656"
proof -
  have "round64 (20 - 8106479329266893 / 4503599627370496) =
      real_of_int (round_even ((20 - 8106479329266893 / 4503599627370496) / pow2 (4 - 52))) * pow2 (4 - 52)"
    by (rule round64_at) (simp_all add: pow2_def powr_minus_divide)
  then show ?thesis
    by (simp add: pow2_def round_even_def Let_def powr_minus_divide)
qed

lemma part_1800ms: "round64 (5122844576133939 / 281474976710656 / 20) = 4098275660907151 / 4503599627370496"
proof -
  have "round64 (5122844576133939 / 281474976710656 / 20) =
      real_of_int (round_even ((5122844576133939 / 281474976710656 / 20) / pow2 (-1 - 52))) * pow2 (-1 - 52)"
    by (rule round64_at) (simp_all add: pow2_def powr_minus_divide)
  then show ?thesis
    by (simp add: pow2_def round_even_def Let_def powr_minus_divide)
qed

lemma scaled_1800ms: "round64 (4098275660907151 / 4503599627370496 * 100) = 6403555720167423 / 70368744177664"
proof -
  have "round64 (4098275660907151 / 4503599627370496 * 100) =
      real_of_int (round_even ((4098275660907151 / 4503599627370496 * 100) / pow2 (6 - 52))) * pow2 (6 - 52)"
    by (rule round64_at) (simp_all add: pow2_def powr_minus_divide)
  then show ?thesis
    by (simp add: pow2_def round_even_def Let_def powr_minus_divide)
qed

lemma bonus_1800ms: "fmul (fdiv (fsub 20 (Seconds 1800000000)) 20) 100 = 6403555720167423 / 70368744177664"
  unfolding seconds_1800ms fsub_def fdiv_def fmul_def left_1800ms part_1800ms scaled_1800ms by (rule refl)

lemma since_50ms: "Since 50000000 0 = 50000000"
  by (simp add: Since_def minDuration_def maxDuration_def)

lemma since_1800ms: "Since 1800000000 0 = 1800000000"
  by (simp add: Since_def minDuration_def maxDuration_def)

lemma floor_bonus_50ms: "\<lfloor>fmul (fdiv (fsub 20 (Seconds 50000000)) 20) 100\<rfloor> = 99"
  unfolding bonus_50ms by simp

lemma round_bonus_50ms: "round (fmul (fdiv (fsub 20 (Seconds 50000000)) 20) 100) = 100"
  unfolding bonus_50ms by (simp add: round_def)

lemma floor_bonus_1800ms: "\<lfloor>fmul (fdiv (fsub 20 (Seconds 1800000000)) 20) 100\<rfloor> = 90"
  unfolding bonus_1800ms by simp

text \<open>
  Claim C6 as stated fails: 50 milliseconds into the round a correct guess adds 199,
  where the formula with rounding to the nearest integer gives 200, for the real
  numbers and for the value that \<^verbatim>\<open>float64\<close> computes alike.
\<close>

theorem guess_round_counterexample:
  "\<not> showResult game0 \<and>
   score (guess amd64 50000000 50000000 (correctOption game0) game0) = score game0 + 199 \<and>
   100 + max 0 (round ((20 - 50000000 / 1000000000) / 20 * 100 :: real)) = (200::int) \<and>
   100 + max 0 (round (fmul (fdiv (fsub 20 (Seconds (Since 50000000 (roundStartTime game0)))) 20) 100)) = (200::int)"
proof -
  have s: "\<not> showResult game0" "roundStartTime game0 = 0" by (simp_all add: game0_def)
  have "score (guess amd64 50000000 50000000 (correctOption game0) game0) = score game0 + 199"
    unfolding guess_correct [OF s(1)] s(2) since_50ms floor_bonus_50ms by simp
  moreover have "100 + max 0 (round ((20 - 50000000 / 1000000000) / 20 * 100 :: real)) = (200::int)"
    by (simp add: round_def)
  moreover have "100 + max 0 (round (fmul (fdiv (fsub 20 (Seconds (Since 50000000 (roundStartTime game0)))) 20) 100)) = (200::int)"
    unfolding s(2) since_50ms round_bonus_50ms by simp
  ultimately show ?thesis using s(1) by simp
qed

text \<open>The amended claim on guesses at 50 milliseconds, at 1.8 seconds (where the
  quotient of the real numbers is 91, and \<^verbatim>\<open>float64\<close> computes a value below it), at 0
  and at 25 seconds, on a wrong guess, and on a guess while the result shows.\<close>

theorem guess_scoring_witness:
  "score (guess amd64 50000000 50000000 ''Paris'' game0) = 199 \<and>
   score (guess amd64 1800000000 1800000000 ''Paris'' game0) = 190 \<and>
   score (guess amd64 0 0 ''Paris'' game0) = 200 \<and>
   score (guess amd64 (25 * Second) (25 * Second) ''Paris'' game0) = 100 \<and>
   score (guess amd64 0 0 ''Rome'' game0) = 0 \<and>
   wrongGuess (guess amd64 0 0 ''Rome'' game0) = ''Rome'' \<and>
   guess amd64 0 0 ''Paris'' (game0\<lparr>showResult := True\<rparr>) = game0\<lparr>showResult := True\<rparr>"
proof -
  have g: "\<not> showResult game0" "correctOption game0 = ''Paris''" "roundStartTime game0 = 0"
    "score game0 = 0" by (simp_all add: game0_def)
  have z: "Since 0 0 = 0" "Since (25 * Second) 0 = 25 * Second"
    by (simp_all add: Since_def minDuration_def maxDuration_def Second_def)
  show ?thesis
    using guess_scoring [of game0 "''Paris''" amd64 50000000 50000000]
      guess_scoring [of game0 "''Paris''" amd64 1800000000 1800000000]
      guess_scoring [of game0 "''Paris''" amd64 0 0]
      guess_scoring [of game0 "''Paris''" amd64 "25 * Second" "25 * Second"]
      guess_scoring [of game0 "''Rome''" amd64 0 0]
      guess_scoring [of "game0\<lparr>showResult := True\<rparr>" "''Paris''" amd64 0 0]
    unfolding g(2,3,4) z since_50ms since_1800ms floor_bonus_50ms floor_bonus_1800ms
    by (simp add: Second_def g(1))
qed

end
